(* ===== verification/Prelude.thy ===== *)
theory Prelude
  imports Complex_Main "HOL-Library.Word" "HOL-Library.Monad_Syntax"
begin

text \<open>
  Shared vocabulary of the SonicCanvas model.  JavaScript numbers are modelled as
  mathematical reals: IEEE rounding is not modelled, but the non-finite values are.
  A division by zero (which gives \<open>NaN\<close> or \<open>Infinity\<close>) and a read of a typed
  array out of range (which gives \<open>undefined\<close>, hence \<open>NaN\<close> in arithmetic) are the
  value \<open>None\<close> of an option type, so a computation that may produce a non-finite
  number returns an option, and a theorem that it returns \<open>Some\<close> says that the
  code keeps its numbers finite.  This theory also holds the few library functions
  the code calls (\<open>THREE.Color.setHSL\<close>, \<open>Math.atan2\<close>, \<open>Math.floor\<close> on an index,
  typed-array reads and writes) and the lemmas on them that the components share.
\<close>

subsection \<open>Definitions\<close>

named_theorems js_simps \<open>evaluation rules of the JavaScript primitives of the model\<close>

type_synonym byte = "8 word"

definition fdiv :: "real \<Rightarrow> real \<Rightarrow> real option" where
  "fdiv x y = (if y = 0 then None else Some (x / y))"

record vec3 =
  vx :: real
  vy :: real
  vz :: real

definition vzero :: vec3 where
  "vzero = \<lparr>vx = 0, vy = 0, vz = 0\<rparr>"

definition vadd :: "vec3 \<Rightarrow> vec3 \<Rightarrow> vec3" where
  "vadd a b = \<lparr>vx = vx a + vx b, vy = vy a + vy b, vz = vz a + vz b\<rparr>"

text \<open>\<open>Vector3.multiplyScalar\<close>.\<close>

definition vscale :: "real \<Rightarrow> vec3 \<Rightarrow> vec3" where
  "vscale k a = \<lparr>vx = vx a * k, vy = vy a * k, vz = vz a * k\<rparr>"

text \<open>The Euclidean length \<open>Math.sqrt(x*x + y*y + z*z)\<close> the code computes by hand.\<close>

definition vlen :: "vec3 \<Rightarrow> real" where
  "vlen p = sqrt (vx p * vx p + vy p * vy p + vz p * vz p)"

definition byte_real :: "byte \<Rightarrow> real" where
  "byte_real b = real (unat b)"

text \<open>
  A read \<open>a[i]\<close> of a typed array out of range gives \<open>undefined\<close>; a write
  \<open>a[k] = v\<close> at a key \<open>k\<close> that is not a non-negative integer below the length is
  ignored (it is no element of the array).
\<close>

definition ta_get :: "'a list \<Rightarrow> int \<Rightarrow> 'a option" where
  "ta_get xs i = (if 0 \<le> i \<and> i < int (length xs) then Some (xs ! nat i) else None)"

definition ta_set :: "'a list \<Rightarrow> real \<Rightarrow> 'a \<Rightarrow> 'a list" where
  "ta_set xs k v =
     (if k = of_int \<lfloor>k\<rfloor> \<and> 0 \<le> k \<and> k < real (length xs) then xs[nat \<lfloor>k\<rfloor> := v] else xs)"

definition freq_index :: "nat \<Rightarrow> nat \<Rightarrow> nat \<Rightarrow> int" where
  "freq_index i n len = \<lfloor>real i / real n * real len\<rfloor>"

text \<open>
  Three.js (r128) normalises its arguments: the hue is taken modulo 1
  (\<open>MathUtils.euclideanModulo\<close>), saturation and lightness are clamped to
  \<open>[0, 1]\<close>.  The conversion to RGB is the library's and is not modelled: the model
  keeps the normalised HSL triple that the colour attribute encodes.
\<close>

record hsl =
  hue :: real
  sat :: real
  light :: real

definition clamp01 :: "real \<Rightarrow> real" where
  "clamp01 x = max 0 (min 1 x)"

definition set_hsl :: "real \<Rightarrow> real \<Rightarrow> real \<Rightarrow> hsl" where
  "set_hsl h s l = \<lparr>hue = frac h, sat = clamp01 s, light = clamp01 l\<rparr>"

definition hsl_ok :: "hsl \<Rightarrow> bool" where
  "hsl_ok c \<longleftrightarrow> 0 \<le> hue c \<and> hue c < 1 \<and> 0 \<le> sat c \<and> sat c \<le> 1 \<and> 0 \<le> light c \<and> light c \<le> 1"

text \<open>ECMAScript's \<open>atan2(y, x)\<close>; the signed zeros of IEEE are not modelled.\<close>

definition atan2 :: "real \<Rightarrow> real \<Rightarrow> real" where
  "atan2 y x =
     (if 0 < x then arctan (y / x)
      else if x < 0 then (if 0 \<le> y then arctan (y / x) + pi else arctan (y / x) - pi)
      else if 0 < y then pi / 2 else if y < 0 then - (pi / 2) else 0)"

text \<open>
  A read \<open>a[i]\<close> of an ordinary array of objects: beyond the end it is
  \<open>undefined\<close>, and the field access that follows throws a \<open>TypeError\<close>.
\<close>

definition lget :: "'a list \<Rightarrow> nat \<Rightarrow> 'a option" where
  "lget xs i = (if i < length xs then Some (xs ! i) else None)"

text \<open>The three writes \<open>a[i*3] = p.x; a[i*3+1] = p.y; a[i*3+2] = p.z\<close> into a flat buffer.\<close>

definition write3 :: "real list \<Rightarrow> nat \<Rightarrow> vec3 \<Rightarrow> real list" where
  "write3 buf i p = buf[3 * i := vx p, 3 * i + 1 := vy p, 3 * i + 2 := vz p]"

text \<open>A loop whose body may throw or produce a non-finite value: the state is threaded through
  the iterations, and the first failure ends the loop.\<close>

fun fold_opt :: "('a \<Rightarrow> 's \<Rightarrow> 's option) \<Rightarrow> 'a list \<Rightarrow> 's \<Rightarrow> 's option" where
  "fold_opt f [] s = Some s"
| "fold_opt f (x # xs) s = (case f x s of None \<Rightarrow> None | Some s' \<Rightarrow> fold_opt f xs s')"

text \<open>\<open>for (let i = a; i < m; i += k)\<close> with a positive step.\<close>

function strided :: "nat \<Rightarrow> nat \<Rightarrow> nat \<Rightarrow> nat list" where
  "strided k a m = (if 0 < k \<and> a < m then a # strided k (a + k) m else [])"
  by pat_completeness auto
termination
  by (relation "measure (\<lambda>(k, a, m). m - a)") auto

subsection \<open>Lemmas\<close>

lemma fold_opt_append:
  "fold_opt f (xs @ ys) s = (case fold_opt f xs s of None \<Rightarrow> None | Some t \<Rightarrow> fold_opt f ys t)"
  by (induction xs arbitrary: s) (auto split: option.splits)

lemma fold_opt_invariant:
  assumes "fold_opt f xs s = Some t" and "P s"
    and "\<And>x s s'. x \<in> set xs \<Longrightarrow> P s \<Longrightarrow> f x s = Some s' \<Longrightarrow> P s'"
  shows "P t"
  using assms
proof (induction xs arbitrary: s)
  case (Cons x xs)
  then obtain s' where s': "f x s = Some s'" "fold_opt f xs s' = Some t"
    by (auto split: option.splits)
  with Cons.prems(2,3) have "P s'" by (metis list.set_intros(1))
  then show ?case using Cons.IH [OF s'(2)] Cons.prems(3) by (meson list.set_intros(2))
qed simp

lemma fold_opt_Some:
  assumes "\<And>x s. x \<in> set xs \<Longrightarrow> P s \<Longrightarrow> \<exists>s'. f x s = Some s' \<and> P s'" and "P s"
  shows "\<exists>t. fold_opt f xs s = Some t \<and> P t"
  using assms by (induction xs arbitrary: s) (fastforce split: option.splits)+

declare strided.simps [simp del]

lemma strided_unfold [simp]:
  "0 < k \<Longrightarrow> a < m \<Longrightarrow> strided k a m = a # strided k (a + k) m"
  "\<not> a < m \<Longrightarrow> strided k a m = []"
  by (simp_all add: strided.simps)

lemma set_strided: "x \<in> set (strided k a m) \<Longrightarrow> a \<le> x \<and> x < m \<and> (x - a) mod k = 0"
proof (induction k a m rule: strided.induct)
  case (1 k a m)
  show ?case
  proof (cases "0 < k \<and> a < m")
    case True
    then have "x = a \<or> x \<in> set (strided k (a + k) m)" using "1.prems" by simp
    then show ?thesis
    proof
      assume "x \<in> set (strided k (a + k) m)"
      with "1.IH" True have IH: "a + k \<le> x \<and> x < m \<and> (x - (a + k)) mod k = 0" by blast
      then have "x - a = (x - (a + k)) + k" by simp
      then have "(x - a) mod k = (x - (a + k)) mod k" by (metis mod_add_self2)
      with IH show ?thesis by simp
    qed (use True in simp)
  next
    case False
    with "1.prems" show ?thesis by (simp add: strided.simps [of k a m])
  qed
qed

lemma strided_closed:
  "0 < k \<Longrightarrow> strided k a m = map (\<lambda>t. a + k * t) [0..<(m + k - 1 - a) div k]"
proof (induction k a m rule: strided.induct)
  case (1 k a m)
  show ?case
  proof (cases "a < m")
    case True
    have n: "(m + k - 1 - a) div k = Suc ((m + k - 1 - (a + k)) div k)"
    proof -
      define x where "x = m + k - 1 - (a + k)"
      have e: "m + k - 1 - a = x + k" using True "1.prems" by (simp add: x_def)
      have "(x + k) div k = Suc (x div k)" using "1.prems" by simp
      then show ?thesis unfolding e x_def[symmetric] .
    qed
    have "map (\<lambda>t. a + k * t) [0..<Suc N] = a # map (\<lambda>t. a + k + k * t) [0..<N]" for N
      by (simp add: map_upt_Suc algebra_simps del: upt_Suc)
    then show ?thesis using True "1.prems" "1.IH" n by simp
  next
    case False
    then have "(m + k - 1 - a) div k = 0" using "1.prems" by simp
    then show ?thesis using False by simp
  qed
qed

lemma lget_in [simp, js_simps]: "i < length xs \<Longrightarrow> lget xs i = Some (xs ! i)"
  by (simp add: lget_def)

lemma lget_Some_iff: "lget xs i = Some v \<longleftrightarrow> i < length xs \<and> v = xs ! i"
  by (auto simp: lget_def)

lemma length_write3 [simp]: "length (write3 buf i p) = length buf"
  by (simp add: write3_def)

lemma fdiv_nonzero [simp, js_simps]: "y \<noteq> 0 \<Longrightarrow> fdiv x y = Some (x / y)"
  by (simp add: fdiv_def)

lemma fdiv_zero [simp, js_simps]: "fdiv x 0 = None"
  by (simp add: fdiv_def)

lemma fdiv_Some_iff: "fdiv x y = Some r \<longleftrightarrow> y \<noteq> 0 \<and> r = x / y"
  by (auto simp: fdiv_def)

lemma fdiv_max1 [simp, js_simps]: "fdiv x (max d 1) = Some (x / max d 1)"
  by simp

lemma vadd_sel [simp, js_simps]:
  "vx (vadd a b) = vx a + vx b" "vy (vadd a b) = vy a + vy b" "vz (vadd a b) = vz a + vz b"
  by (simp_all add: vadd_def)

lemma vscale_sel [simp, js_simps]:
  "vx (vscale k a) = vx a * k" "vy (vscale k a) = vy a * k" "vz (vscale k a) = vz a * k"
  by (simp_all add: vscale_def)

lemma vzero_sel [simp, js_simps]: "vx vzero = 0" "vy vzero = 0" "vz vzero = 0"
  by (simp_all add: vzero_def)

lemma vlen_nonneg [simp]: "0 \<le> vlen p"
  by (simp add: vlen_def)

lemma vlen_zero_iff: "vlen p = 0 \<longleftrightarrow> vx p = 0 \<and> vy p = 0 \<and> vz p = 0"
proof -
  have "vx p * vx p + vy p * vy p + vz p * vz p = 0 \<longleftrightarrow> vx p = 0 \<and> vy p = 0 \<and> vz p = 0"
    by (simp add: add_nonneg_eq_0_iff)
  then show ?thesis by (simp add: vlen_def)
qed

lemma vlen_vzero [simp]: "vlen vzero = 0"
  by (simp add: vlen_zero_iff)

lemma abs_coord_le_vlen:
  "\<bar>vx p\<bar> \<le> vlen p" "\<bar>vy p\<bar> \<le> vlen p" "\<bar>vz p\<bar> \<le> vlen p"
  unfolding vlen_def
  by (simp_all add: real_le_rsqrt flip: power2_eq_square)

lemma byte_real_bounds [simp]: "0 \<le> byte_real b" "byte_real b \<le> 255"
proof -
  have "unat b < 256" using unsigned_less [of b] by simp
  then show "byte_real b \<le> 255" unfolding byte_real_def by linarith
qed (unfold byte_real_def, rule of_nat_0_le_iff)

lemma byte_real_255 [simp, js_simps]: "byte_real 255 = 255"
  by (simp add: byte_real_def)

lemma byte_real_0 [simp, js_simps]: "byte_real 0 = 0"
  by (simp add: byte_real_def)

lemma ta_get_in [simp, js_simps]:
  "i < length xs \<Longrightarrow> ta_get xs (int i) = Some (xs ! i)"
  by (simp add: ta_get_def)

lemma ta_get_Some_iff:
  "ta_get xs i = Some v \<longleftrightarrow> 0 \<le> i \<and> i < int (length xs) \<and> v = xs ! nat i"
  by (auto simp: ta_get_def)

lemma length_ta_set [simp]: "length (ta_set xs k v) = length xs"
  by (simp add: ta_set_def)

lemma ta_set_nat [simp, js_simps]:
  "ta_set xs (real i) v = (if i < length xs then xs[i := v] else xs)"
  by (simp add: ta_set_def)

lemma ta_set_not_int: "k \<notin> \<int> \<Longrightarrow> ta_set xs k v = xs"
  by (auto simp: ta_set_def Ints_def)

lemma freq_index_div: "freq_index i n len = int (i * len div n)"
proof -
  have "real i / real n * real len = real (i * len) / real n"
    by simp
  then show ?thesis
    unfolding freq_index_def by (metis floor_divide_of_nat_eq of_int_of_nat_eq)
qed

lemma freq_index_nonneg [simp]: "0 \<le> freq_index i n len"
  by (simp add: freq_index_div)

lemma freq_index_lt: "i < n \<Longrightarrow> 0 < len \<Longrightarrow> freq_index i n len < int len"
proof -
  assume "i < n" "0 < len"
  then have "i * len < n * len" by simp
  then have "i * len div n < len"
    by (simp add: div_less_iff_less_mult mult.commute)
  then show ?thesis by (simp add: freq_index_div)
qed

lemma ta_get_freq_index:
  "i < n \<Longrightarrow> 0 < length xs \<Longrightarrow>
   ta_get xs (freq_index i n (length xs)) = Some (xs ! (i * length xs div n))"
  using freq_index_lt [of i n "length xs"] by (simp add: ta_get_def freq_index_div)

lemma set_hsl_ok [simp]: "hsl_ok (set_hsl h s l)"
  by (simp add: hsl_ok_def set_hsl_def clamp01_def frac_lt_1)

lemma those_map_Some_iff:
  "those (map f xs) = Some ys \<longleftrightarrow> length ys = length xs \<and> (\<forall>i < length xs. f (xs ! i) = Some (ys ! i))"
proof (induction xs arbitrary: ys)
  case Nil
  then show ?case by auto
next
  case (Cons x xs)
  show ?case
  proof
    assume "those (map f (x # xs)) = Some ys"
    then obtain y ys' where "f x = Some y" "those (map f xs) = Some ys'" "ys = y # ys'"
      by (auto split: option.splits)
    with Cons.IH show "length ys = length (x # xs) \<and> (\<forall>i < length (x # xs). f ((x # xs) ! i) = Some (ys ! i))"
      by (auto simp: nth_Cons split: nat.splits)
  next
    assume A: "length ys = length (x # xs) \<and> (\<forall>i < length (x # xs). f ((x # xs) ! i) = Some (ys ! i))"
    then obtain y ys' where ys: "ys = y # ys'" by (cases ys) auto
    with A have "f x = Some y" by force
    moreover from A ys have "\<forall>i < length xs. f (xs ! i) = Some (ys' ! i)" by force
    with A ys Cons.IH have "those (map f xs) = Some ys'" by simp
    ultimately show "those (map f (x # xs)) = Some ys" using ys by simp
  qed
qed

lemma those_map_length: "those (map f xs) = Some ys \<Longrightarrow> length ys = length xs"
  by (simp add: those_map_Some_iff)

lemma those_map_nth:
  "those (map f xs) = Some ys \<Longrightarrow> i < length xs \<Longrightarrow> f (xs ! i) = Some (ys ! i)"
  by (simp add: those_map_Some_iff)

lemma those_map_all_Some:
  assumes "\<And>x. x \<in> set xs \<Longrightarrow> \<exists>y. f x = Some y"
  shows "\<exists>ys. those (map f xs) = Some ys"
  using assms by (induction xs) fastforce+

lemma length_concat_const:
  "(\<And>x. x \<in> set xs \<Longrightarrow> length (f x) = k) \<Longrightarrow> length (concat (map f xs)) = k * length xs"
  by (induction xs) simp_all

lemma those_map_None: "x \<in> set xs \<Longrightarrow> f x = None \<Longrightarrow> those (map f xs) = None"
  by (induction xs) (auto split: option.split)

lemma ta_get_None: "i < 0 \<or> int (length xs) \<le> i \<Longrightarrow> ta_get xs i = None"
  by (auto simp: ta_get_def)

lemma sum_list_byte_bounds:
  "0 \<le> sum_list (map byte_real vs) \<and> sum_list (map byte_real vs) \<le> 255 * real (length vs)"
proof (induction vs)
  case Nil
  then show ?case by simp
next
  case (Cons v vs)
  have "sum_list (map byte_real (v # vs)) = byte_real v + sum_list (map byte_real vs)"
    "real (length (v # vs)) = 1 + real (length vs)" by simp_all
  then show ?case using Cons.IH byte_real_bounds [of v] by linarith
qed

end
