(* ===== verification/Particles.thy ===== *)
theory Particles
  imports Prelude
begin

text \<open>
  The particle field of \<open>Visualizer\<close> (the class in src/README.md, lines 490-1328):
  its state (constructor, lines 491-555), the colour palettes, the particle buffers
  created by \<open>createParticleSystem\<close> (lines 603-662), the shared per-frame loop
  that every mode runs over the particles, and the generic update rule
  \<open>updateParticles\<close> (lines 735-819) with the colour-only rule used while frozen,
  \<open>updateParticleColors\<close> (lines 824-856).

  The per-particle loop of every mode reads particle \<open>i\<close>'s position and velocity
  and the frame's scalars, none of which an earlier iteration writes; so the loop is
  modelled as the per-particle results computed first (\<open>None\<close> when one of them
  is non-finite or the loop throws) and then stored index by index
  (\<open>store_particle\<close>), which writes exactly what the loop body writes: the
  position and velocity objects, the three entries of the position buffer, the colour
  and the size.
\<close>

datatype visual_mode = Cosmic | Neural | PulseMode | Chaos | Minimal | OtherMode string

record palette =
  hueBase :: real
  hueRange :: real
  saturation :: real

record vis =
  particleCount :: nat
  particlePositions :: "vec3 list"
  particleVelocities :: "vec3 list"
  posAttr :: "real list"
  particleColors :: "hsl list"
  sizeAttr :: "real list"
  time :: real
  cameraAngle :: real
  cameraRadius :: real
  cameraHeight :: real
  cameraPos :: vec3
  bassIntensity :: real
  midIntensity :: real
  trebleIntensity :: real
  isFrozen :: bool
  pulseEffect :: bool
  pulseIntensity :: real
  currentPalette :: nat
  trailEffect :: bool
  trailOpacity :: real
  radialSymmetry :: bool
  symmetrySegments :: nat
  cameraShake :: vec3
  cameraShakeIntensity :: real
  visualMode :: visual_mode
  particleConnections :: "(nat \<times> nat \<times> real) list"
  spiralAngle :: real
  spiralTightness :: real
  spikeIntensity :: real
  isRunning :: bool

text \<open>The result of one iteration of a mode's loop for one particle.\<close>

record pout =
  opos :: vec3
  ovel :: vec3
  ocol :: hsl
  osize :: real

subsection \<open>Palettes\<close>

definition paletteNames :: "string list" where
  "paletteNames = [''cyberpunk'', ''sunset'', ''ocean'']"

definition colorPalettes :: "string \<Rightarrow> palette option" where
  "colorPalettes =
     [''cyberpunk'' \<mapsto> \<lparr>hueBase = 0.5, hueRange = 0.3, saturation = 1.0\<rparr>,
      ''sunset'' \<mapsto> \<lparr>hueBase = 0.05, hueRange = 0.15, saturation = 0.9\<rparr>,
      ''ocean'' \<mapsto> \<lparr>hueBase = 0.55, hueRange = 0.15, saturation = 0.8\<rparr>]"

text \<open>
  \<open>this.colorPalettes[paletteNames[this.currentPalette]]\<close>: an index past the
  three names gives \<open>undefined\<close>, and the first \<open>palette.hueBase\<close> throws.
\<close>

definition current_palette :: "vis \<Rightarrow> palette option" where
  "current_palette s =
     (if currentPalette s < length paletteNames then colorPalettes (paletteNames ! currentPalette s)
      else None)"

subsection \<open>Construction\<close>

text \<open>
  \<open>createParticleSystem\<close> draws five values of \<open>Math.random()\<close> per particle, in
  this order: the radius, the two angles, the hue and the size.  The draws are the
  input \<open>rnd\<close>: \<open>rnd k\<close> is the \<open>k\<close>-th value the loop draws.
\<close>

definition spawn_position :: "real \<Rightarrow> real \<Rightarrow> real \<Rightarrow> vec3" where
  "spawn_position r1 r2 r3 =
     (let radius = r1 * 100 + 50; theta = r2 * pi * 2; phi = arccos (r3 * 2 - 1)
      in \<lparr>vx = radius * sin phi * cos theta, vy = radius * sin phi * sin theta,
          vz = radius * cos phi\<rparr>)"

definition createParticleSystem :: "(nat \<Rightarrow> real) \<Rightarrow> vis \<Rightarrow> vis" where
  "createParticleSystem rnd s =
     (let n = particleCount s;
          ps = map (\<lambda>i. spawn_position (rnd (5 * i)) (rnd (5 * i + 1)) (rnd (5 * i + 2))) [0..<n]
      in s\<lparr>particlePositions := particlePositions s @ ps,
           particleVelocities := particleVelocities s @ replicate n vzero,
           posAttr := concat (map (\<lambda>p. [vx p, vy p, vz p]) ps),
           particleColors := map (\<lambda>i. set_hsl (0.5 + rnd (5 * i + 3) * 0.3) 1.0 0.5) [0..<n],
           sizeAttr := map (\<lambda>i. rnd (5 * i + 4) * 2 + 1) [0..<n]\<rparr>)"

text \<open>The constructor's field values (lines 491-555), before \<open>init\<close> runs.\<close>

definition vis_fields :: vis where
  "vis_fields =
     \<lparr>particleCount = 2000, particlePositions = [], particleVelocities = [], posAttr = [],
      particleColors = [], sizeAttr = [], time = 0, cameraAngle = 0, cameraRadius = 150,
      cameraHeight = 50, cameraPos = \<lparr>vx = 0, vy = 0, vz = 150\<rparr>, bassIntensity = 0,
      midIntensity = 0, trebleIntensity = 0, isFrozen = False, pulseEffect = False,
      pulseIntensity = 0, currentPalette = 0, trailEffect = True, trailOpacity = 0.15,
      radialSymmetry = False, symmetrySegments = 6, cameraShake = vzero,
      cameraShakeIntensity = 0, visualMode = Cosmic, particleConnections = [],
      spiralAngle = 0, spiralTightness = 0.1, spikeIntensity = 0, isRunning = False\<rparr>"

definition new_visualizer :: "(nat \<Rightarrow> real) \<Rightarrow> vis" where
  "new_visualizer rnd = createParticleSystem rnd vis_fields"

text \<open>A running visualizer with one particle at \<open>p\<close>, at rest: the smallest state
  the examples of the development evaluate.\<close>

definition one_particle :: "vec3 \<Rightarrow> vis" where
  "one_particle p =
     vis_fields\<lparr>particleCount := 1, particlePositions := [p], particleVelocities := [vzero],
                posAttr := [vx p, vy p, vz p], particleColors := [set_hsl 0.5 1 0.5],
                sizeAttr := [1], isRunning := True\<rparr>"

subsection \<open>The shared per-particle loop\<close>

text \<open>\<open>frequencyData[Math.floor((i / this.particleCount) * frequencyData.length)] / 255\<close>.\<close>

definition freq_value :: "byte list \<Rightarrow> nat \<Rightarrow> nat \<Rightarrow> real option" where
  "freq_value fd i n = map_option (\<lambda>b. byte_real b / 255) (ta_get fd (freq_index i n (length fd)))"

definition store_particle :: "nat \<times> pout \<Rightarrow> vis \<Rightarrow> vis" where
  "store_particle io s =
     (case io of (i, r) \<Rightarrow>
        s\<lparr>particlePositions := (particlePositions s)[i := opos r],
          particleVelocities := (particleVelocities s)[i := ovel r],
          posAttr := write3 (posAttr s) i (opos r),
          particleColors := (particleColors s)[i := ocol r],
          sizeAttr := (sizeAttr s)[i := osize r]\<rparr>)"

definition run_particles :: "(nat \<Rightarrow> vec3 \<Rightarrow> vec3 \<Rightarrow> pout option) \<Rightarrow> nat list \<Rightarrow> vis \<Rightarrow> vis option" where
  "run_particles f idx s =
     map_option (\<lambda>outs. fold store_particle (zip idx outs) s)
       (those (map (\<lambda>i. do { p \<leftarrow> lget (particlePositions s) i;
                              v \<leftarrow> lget (particleVelocities s) i;
                              f i p v }) idx))"

subsection \<open>The generic rule: \<open>updateParticles\<close>\<close>

definition particle_generic ::
  "vis \<Rightarrow> byte list \<Rightarrow> real \<Rightarrow> bool \<Rightarrow> real \<Rightarrow> nat \<Rightarrow> vec3 \<Rightarrow> vec3 \<Rightarrow> pout option" where
  "particle_generic s fd average beat beatIntensity i pos vel = do {
     palette \<leftarrow> current_palette s;
     freqValue \<leftarrow> freq_value fd i (particleCount s);
     let distance = vlen pos;
     let force = freqValue * 5;
     directionX \<leftarrow> fdiv (vx pos) distance;
     directionY \<leftarrow> fdiv (vy pos) distance;
     directionZ \<leftarrow> fdiv (vz pos) distance;
     let direction = \<lparr>vx = directionX, vy = directionY, vz = directionZ\<rparr>;
     let vel1 = vadd vel (vscale (force * 0.1) direction);
     let pulseStrength = (if pulseEffect s then pulseIntensity s else beatIntensity);
     let vel2 = (if beat \<or> pulseEffect s then vadd vel1 (vscale (pulseStrength * 0.5) direction)
                 else vel1);
     let pos1 = vadd pos vel2;
     let vel3 = vscale 0.95 vel2;
     let targetDistance = 100 + bassIntensity s * 50;
     let restoreForce = (targetDistance - distance) * 0.01;
     let pos2 = vadd pos1 (vscale restoreForce direction);
     let hue = hueBase palette + freqValue * hueRange palette - average * 0.2;
     let saturation = saturation palette + freqValue * 0.1;
     let lightness = 0.4 + freqValue * 0.4;
     let pulseSize = (if pulseEffect s then pulseIntensity s * 2 else 0);
     Some \<lparr>opos = pos2, ovel = vel3, ocol = set_hsl hue saturation lightness,
           osize = 1 + freqValue * 3 + (if beat then beatIntensity else 0) + pulseSize\<rparr> }"

definition updateParticles :: "byte list \<Rightarrow> real \<Rightarrow> bool \<Rightarrow> real \<Rightarrow> vis \<Rightarrow> vis option" where
  "updateParticles fd average beat beatIntensity s =
     run_particles (particle_generic s fd average beat beatIntensity) [0..<particleCount s] s"

subsection \<open>Frozen particles: \<open>updateParticleColors\<close>\<close>

definition particle_colour ::
  "vis \<Rightarrow> byte list \<Rightarrow> real \<Rightarrow> nat \<Rightarrow> (hsl \<times> real) option" where
  "particle_colour s fd average i = do {
     palette \<leftarrow> current_palette s;
     freqValue \<leftarrow> freq_value fd i (particleCount s);
     let hue = hueBase palette + freqValue * hueRange palette - average * 0.2;
     let saturation = saturation palette + freqValue * 0.1;
     let lightness = 0.4 + freqValue * 0.4;
     let pulseSize = (if pulseEffect s then pulseIntensity s * 2 else 0);
     Some (set_hsl hue saturation lightness, 1 + freqValue * 3 + pulseSize) }"

definition store_colour :: "nat \<times> (hsl \<times> real) \<Rightarrow> vis \<Rightarrow> vis" where
  "store_colour io s =
     (case io of (i, c, z) \<Rightarrow>
        s\<lparr>particleColors := (particleColors s)[i := c], sizeAttr := (sizeAttr s)[i := z]\<rparr>)"

definition updateParticleColors :: "byte list \<Rightarrow> real \<Rightarrow> vis \<Rightarrow> vis option" where
  "updateParticleColors fd average s =
     map_option (\<lambda>outs. fold store_colour (zip [0..<particleCount s] outs) s)
       (those (map (particle_colour s fd average) [0..<particleCount s]))"

subsection \<open>Well-formed particle fields\<close>

definition field_ok :: "vis \<Rightarrow> bool" where
  "field_ok s \<longleftrightarrow>
     length (particlePositions s) = particleCount s \<and>
     length (particleVelocities s) = particleCount s \<and>
     length (posAttr s) = 3 * particleCount s \<and>
     length (particleColors s) = particleCount s \<and>
     length (sizeAttr s) = particleCount s"

text \<open>The frame's particle loops leave these fields alone.\<close>

definition same_scalars :: "vis \<Rightarrow> vis \<Rightarrow> bool" where
  "same_scalars s t \<longleftrightarrow> particleCount t = particleCount s \<and> vis.time t = vis.time s \<and>
     isFrozen t = isFrozen s \<and> pulseEffect t = pulseEffect s \<and>
     pulseIntensity t = pulseIntensity s \<and> currentPalette t = currentPalette s \<and>
     visualMode t = visualMode s \<and> radialSymmetry t = radialSymmetry s \<and>
     symmetrySegments t = symmetrySegments s \<and> bassIntensity t = bassIntensity s \<and>
     midIntensity t = midIntensity s \<and> spiralAngle t = spiralAngle s \<and>
     spiralTightness t = spiralTightness s \<and> isRunning t = isRunning s"

text \<open>What every step of a frame after the gesture step keeps: the well-formed
  buffers, the particle count, the pulse, the freeze flag, the symmetry switch and the
  palette.\<close>

definition frame_keeps :: "vis \<Rightarrow> vis \<Rightarrow> bool" where
  "frame_keeps s t \<longleftrightarrow> (field_ok s \<longrightarrow> field_ok t) \<and> particleCount t = particleCount s \<and>
     pulseEffect t = pulseEffect s \<and> pulseIntensity t = pulseIntensity s \<and>
     isFrozen t = isFrozen s \<and> radialSymmetry t = radialSymmetry s \<and>
     currentPalette t = currentPalette s"

text \<open>The layout of the \<open>position\<close> attribute, a \<open>Float32Array\<close> of
  three coordinates per particle (\<open>positions[i3]\<close>, \<open>positions[i3 + 1]\<close>,
  \<open>positions[i3 + 2]\<close> in every update loop).\<close>

definition flat3 :: "vec3 list \<Rightarrow> real list" where
  "flat3 ps = concat (map (\<lambda>p. [vx p, vy p, vz p]) ps)"

subsection \<open>Lemmas on the shared loop\<close>

lemma frame_keeps_refl [simp]: "frame_keeps s s"
  by (simp add: frame_keeps_def)

lemma frame_keeps_trans: "frame_keeps s t \<Longrightarrow> frame_keeps t u \<Longrightarrow> frame_keeps s u"
  by (simp add: frame_keeps_def)

lemma same_scalars_keeps:
  "same_scalars s t \<Longrightarrow> (field_ok s \<longrightarrow> field_ok t) \<Longrightarrow> frame_keeps s t"
  by (simp add: same_scalars_def frame_keeps_def)

lemma store_particle_lengths [simp]:
  "length (particlePositions (store_particle io s)) = length (particlePositions s)"
  "length (particleVelocities (store_particle io s)) = length (particleVelocities s)"
  "length (posAttr (store_particle io s)) = length (posAttr s)"
  "length (particleColors (store_particle io s)) = length (particleColors s)"
  "length (sizeAttr (store_particle io s)) = length (sizeAttr s)"
  by (cases io, simp add: store_particle_def)+

lemma store_particle_scalars [simp]: "same_scalars s (store_particle io s)"
  by (cases io) (simp add: store_particle_def same_scalars_def)

lemma store_colour_scalars [simp]: "same_scalars s (store_colour io s)"
  by (cases io) (simp add: store_colour_def same_scalars_def)

lemma same_scalars_refl [simp]: "same_scalars s s"
  by (simp add: same_scalars_def)

lemma same_scalars_trans: "same_scalars s t \<Longrightarrow> same_scalars t u \<Longrightarrow> same_scalars s u"
  by (simp add: same_scalars_def)

lemma fold_store_particle_lengths:
  "length (particlePositions (fold store_particle ios s)) = length (particlePositions s) \<and>
   length (particleVelocities (fold store_particle ios s)) = length (particleVelocities s) \<and>
   length (posAttr (fold store_particle ios s)) = length (posAttr s) \<and>
   length (particleColors (fold store_particle ios s)) = length (particleColors s) \<and>
   length (sizeAttr (fold store_particle ios s)) = length (sizeAttr s)"
  by (induction ios arbitrary: s) simp_all

lemma fold_store_particle_scalars: "same_scalars s (fold store_particle ios s)"
proof (induction ios arbitrary: s)
  case (Cons io ios)
  then show ?case using store_particle_scalars same_scalars_trans by (metis fold_Cons comp_apply)
qed simp

lemma store_colour_frame [simp]:
  "particlePositions (store_colour io s) = particlePositions s"
  "particleVelocities (store_colour io s) = particleVelocities s"
  "posAttr (store_colour io s) = posAttr s"
  "length (particleColors (store_colour io s)) = length (particleColors s)"
  "length (sizeAttr (store_colour io s)) = length (sizeAttr s)"
  by (cases io, simp add: store_colour_def)+

lemma fold_store_colour_frame:
  "particlePositions (fold store_colour ios s) = particlePositions s \<and>
   particleVelocities (fold store_colour ios s) = particleVelocities s \<and>
   posAttr (fold store_colour ios s) = posAttr s \<and>
   length (particleColors (fold store_colour ios s)) = length (particleColors s) \<and>
   length (sizeAttr (fold store_colour ios s)) = length (sizeAttr s) \<and>
   same_scalars s (fold store_colour ios s)"
proof (induction ios arbitrary: s)
  case (Cons io ios)
  let ?t = "store_colour io s"
  have IH: "same_scalars ?t (fold store_colour ios ?t)"
    and rest: "particlePositions (fold store_colour ios ?t) = particlePositions ?t \<and>
       particleVelocities (fold store_colour ios ?t) = particleVelocities ?t \<and>
       posAttr (fold store_colour ios ?t) = posAttr ?t \<and>
       length (particleColors (fold store_colour ios ?t)) = length (particleColors ?t) \<and>
       length (sizeAttr (fold store_colour ios ?t)) = length (sizeAttr ?t)"
    using Cons.IH [of ?t] by simp_all
  have "same_scalars s (fold store_colour ios ?t)"
    using same_scalars_trans [OF store_colour_scalars IH] .
  with rest show ?case by simp
qed simp

lemma run_particles_field_ok:
  assumes "run_particles f idx s = Some t" "field_ok s"
  shows "field_ok t \<and> same_scalars s t"
proof -
  from assms(1) obtain outs where t: "t = fold store_particle (zip idx outs) s"
    by (auto simp: run_particles_def)
  have "same_scalars s t" unfolding t by (rule fold_store_particle_scalars)
  moreover from this have "particleCount t = particleCount s" by (simp add: same_scalars_def)
  ultimately show ?thesis using assms(2) fold_store_particle_lengths [of "zip idx outs" s]
    by (simp add: field_ok_def t)
qed

lemma run_particles_Some:
  assumes "\<And>i. i \<in> set idx \<Longrightarrow> i < length (particlePositions s) \<and> i < length (particleVelocities s)"
    and "\<And>i. i \<in> set idx \<Longrightarrow> \<exists>r. f i (particlePositions s ! i) (particleVelocities s ! i) = Some r"
  shows "\<exists>t. run_particles f idx s = Some t"
proof -
  have "\<exists>outs. those (map (\<lambda>i. do { p \<leftarrow> lget (particlePositions s) i;
                                    v \<leftarrow> lget (particleVelocities s) i;
                                    f i p v }) idx) = Some outs"
    using assms by (intro those_map_all_Some) fastforce
  then show ?thesis by (auto simp: run_particles_def)
qed

lemma run_particles_all_Some:
  assumes "field_ok s" "\<And>i p v. i < particleCount s \<Longrightarrow> \<exists>r. f i p v = Some r"
  shows "\<exists>t. run_particles f [0..<particleCount s] s = Some t"
  using assms by (intro run_particles_Some) (auto simp: field_ok_def)

lemma run_particles_None:
  assumes "i \<in> set idx" "i < length (particlePositions s)" "i < length (particleVelocities s)"
    and "f i (particlePositions s ! i) (particleVelocities s ! i) = None"
  shows "run_particles f idx s = None"
proof -
  have "those (map (\<lambda>i. do { p \<leftarrow> lget (particlePositions s) i;
                              v \<leftarrow> lget (particleVelocities s) i;
                              f i p v }) idx) = None"
  proof (rule ccontr)
    assume "those (map (\<lambda>i. do { p \<leftarrow> lget (particlePositions s) i;
                              v \<leftarrow> lget (particleVelocities s) i;
                              f i p v }) idx) \<noteq> None"
    then obtain outs where "those (map (\<lambda>i. do { p \<leftarrow> lget (particlePositions s) i;
                              v \<leftarrow> lget (particleVelocities s) i;
                              f i p v }) idx) = Some outs" by blast
    moreover obtain k where "k < length idx" "idx ! k = i" using assms(1) by (metis in_set_conv_nth)
    ultimately show False using those_map_nth assms(2-4) by fastforce
  qed
  then show ?thesis by (simp add: run_particles_def)
qed

lemma updateParticleColors_frame:
  "updateParticleColors fd average s = Some t \<Longrightarrow>
   particlePositions t = particlePositions s \<and> particleVelocities t = particleVelocities s \<and>
   posAttr t = posAttr s \<and> same_scalars s t \<and> (field_ok s \<longrightarrow> field_ok t)"
  using fold_store_colour_frame
  by (fastforce simp: updateParticleColors_def field_ok_def same_scalars_def)

lemma freq_value_Some:
  "i < n \<Longrightarrow> 0 < length fd \<Longrightarrow>
   freq_value fd i n = Some (byte_real (fd ! (i * length fd div n)) / 255)"
  by (simp add: freq_value_def ta_get_freq_index)

lemma freq_value_bounds:
  assumes "freq_value fd i n = Some v"
  shows "0 \<le> v \<and> v \<le> 1"
proof (cases "ta_get fd (freq_index i n (length fd))")
  case None
  with assms show ?thesis by (simp add: freq_value_def)
next
  case (Some b)
  with assms have "v = byte_real b / 255" by (simp add: freq_value_def)
  with byte_real_bounds [of b] show ?thesis by linarith
qed

lemma frame_inputs_Some:
  assumes "currentPalette s < 3" "i < particleCount s" "0 < length fd"
  shows "\<exists>pal v. current_palette s = Some pal \<and> freq_value fd i (particleCount s) = Some v"
proof -
  have "\<exists>pal. current_palette s = Some pal"
  proof -
    from assms(1) consider "currentPalette s = 0" | "currentPalette s = 1" | "currentPalette s = 2"
      by linarith
    then show ?thesis
      by cases (simp_all add: current_palette_def paletteNames_def colorPalettes_def)
  qed
  with freq_value_Some [OF assms(2,3)] show ?thesis by blast
qed

lemma current_palette_Some_iff:
  "(\<exists>p. current_palette s = Some p) \<longleftrightarrow> currentPalette s < 3"
proof
  assume "\<exists>p. current_palette s = Some p"
  then show "currentPalette s < 3"
    by (auto simp: current_palette_def paletteNames_def split: if_splits)
next
  assume "currentPalette s < 3"
  then consider "currentPalette s = 0" | "currentPalette s = 1" | "currentPalette s = 2"
    by linarith
  then show "\<exists>p. current_palette s = Some p"
    by cases (simp_all add: current_palette_def paletteNames_def colorPalettes_def)
qed

lemma updateParticleColors_Some:
  assumes "currentPalette s < 3" "0 < length fd"
  shows "\<exists>t. updateParticleColors fd average s = Some t"
proof -
  have "\<exists>c. particle_colour s fd average i = Some c" if "i \<in> set [0..<particleCount s]" for i
    using frame_inputs_Some [OF assms(1) _ assms(2), of i] that by (auto simp: particle_colour_def)
  then obtain outs where "those (map (particle_colour s fd average) [0..<particleCount s]) = Some outs"
    using those_map_all_Some by blast
  then show ?thesis by (simp add: updateParticleColors_def)
qed

lemma run_particles_keeps: "run_particles f idx s = Some t \<Longrightarrow> frame_keeps s t"
proof -
  assume A: "run_particles f idx s = Some t"
  then obtain outs where t: "t = fold store_particle (zip idx outs) s"
    by (auto simp: run_particles_def)
  have "same_scalars s t" unfolding t by (rule fold_store_particle_scalars)
  moreover have "field_ok s \<longrightarrow> field_ok t" using run_particles_field_ok [OF A] by blast
  ultimately show ?thesis by (rule same_scalars_keeps)
qed

lemma updateParticleColors_keeps: "updateParticleColors fd average s = Some t \<Longrightarrow> frame_keeps s t"
  using updateParticleColors_frame [of fd average s t] by (auto intro: same_scalars_keeps)

subsection \<open>The drawn buffer follows the particles\<close>

lemma length_flat3 [simp]: "length (flat3 ps) = 3 * length ps"
  by (induction ps) (simp_all add: flat3_def)

lemma flat3_snoc [simp]: "flat3 (ps @ [p]) = flat3 ps @ [vx p, vy p, vz p]"
  by (simp add: flat3_def)

lemma write3_split:
  assumes "length C = 3 * k" "3 \<le> length D"
  shows "write3 (C @ D) k p = C @ [vx p, vy p, vz p] @ drop 3 D"
proof -
  obtain a b c E where D: "D = a # b # c # E"
    using assms(2) by (cases D rule: remdups_adj.cases; cases "tl (tl D)") auto
  show ?thesis using assms(1) by (simp add: write3_def D list_update_append nth_append)
qed

lemma fold_store_prefix:
  assumes "k \<le> length outs" "length (particlePositions s) = length outs" "length (posAttr s) = 3 * length outs"
  shows "particlePositions (fold store_particle (zip [0..<k] (take k outs)) s) =
           map opos (take k outs) @ drop k (particlePositions s) \<and>
         posAttr (fold store_particle (zip [0..<k] (take k outs)) s) =
           flat3 (map opos (take k outs)) @ drop (3 * k) (posAttr s)"
  using assms(1)
proof (induction k)
  case 0
  then show ?case by (simp add: flat3_def)
next
  case (Suc k)
  have k: "k < length outs" using Suc.prems by simp
  have z: "zip [0..<Suc k] (take (Suc k) outs) = zip [0..<k] (take k outs) @ [(k, outs ! k)]"
    using k by (simp add: take_Suc_conv_app_nth zip_append)
  define t where "t = fold store_particle (zip [0..<k] (take k outs)) s"
  have IH: "particlePositions t = map opos (take k outs) @ drop k (particlePositions s)"
    "posAttr t = flat3 (map opos (take k outs)) @ drop (3 * k) (posAttr s)"
    using Suc.IH k unfolding t_def by simp_all
  have d: "drop k (particlePositions s) = particlePositions s ! k # drop (Suc k) (particlePositions s)"
    using k assms(2) by (simp add: Cons_nth_drop_Suc)
  have P: "(map opos (take k outs) @ drop k (particlePositions s))[k := opos (outs ! k)] =
            map opos (take (Suc k) outs) @ drop (Suc k) (particlePositions s)"
    using k by (simp add: d list_update_append take_Suc_conv_app_nth)
  have B: "write3 (flat3 (map opos (take k outs)) @ drop (3 * k) (posAttr s)) k (opos (outs ! k)) =
           flat3 (map opos (take (Suc k) outs)) @ drop (3 * Suc k) (posAttr s)"
    using k assms(3) by (simp add: write3_split take_Suc_conv_app_nth add.commute)
  have f: "fold store_particle (zip [0..<Suc k] (take (Suc k) outs)) s = store_particle (k, outs ! k) t"
    unfolding z t_def by simp
  show ?case unfolding f using IH P B by (simp add: store_particle_def)
qed


lemma run_particles_redraws:
  assumes r: "run_particles f [0..<particleCount s] s = Some t" and ok: "field_ok s"
  shows "posAttr t = flat3 (particlePositions t)"
proof -
  obtain outs where outs: "those (map (\<lambda>i. do { p \<leftarrow> lget (particlePositions s) i;
                              v \<leftarrow> lget (particleVelocities s) i;
                              f i p v }) [0..<particleCount s]) = Some outs"
    and t: "t = fold store_particle (zip [0..<particleCount s] outs) s"
    using r by (auto simp: run_particles_def)
  have n: "length outs = particleCount s" using those_map_length [OF outs] by simp
  have "particlePositions t = map opos outs" "posAttr t = flat3 (map opos outs)"
    using fold_store_prefix [of "length outs" outs s] ok n unfolding t
    by (simp_all add: field_ok_def)
  then show ?thesis by simp
qed

end
