(* ===== verification/Modes.thy ===== *)
theory Modes
  imports Particles
begin

text \<open>
  The five visual modes of \<open>Visualizer\<close> (src/README.md): \<open>updateParticlesCosmic\<close>
  (lines 1002-1065), \<open>updateParticlesNeural\<close> (lines 1070-1114),
  \<open>updateParticlesPulse\<close> (lines 1119-1181), \<open>updateParticlesChaos\<close>
  (lines 1186-1249) and \<open>updateParticlesMinimal\<close> (lines 1254-1306), and the
  \<open>switch\<close> of \<open>update\<close> that picks one of them (lines 696-714).  Cosmic, Pulse
  and Chaos run the shared loop \<open>run_particles\<close> of \<open>Particles\<close> with their own
  per-particle rule; Neural runs the generic rule and then rebuilds the list of
  connections; Minimal has its own nested loop over 64 bars and moves positions
  directly, without velocities.  Chaos draws \<open>Math.random()\<close> three times per
  particle on a beat: \<open>rnd k\<close> is the \<open>k\<close>-th value the loop draws.
\<close>

subsection \<open>Cosmic\<close>

definition particle_cosmic ::
  "vis \<Rightarrow> byte list \<Rightarrow> bool \<Rightarrow> real \<Rightarrow> nat \<Rightarrow> vec3 \<Rightarrow> vec3 \<Rightarrow> pout option" where
  "particle_cosmic s fd beat beatIntensity i pos vel = do {
     palette \<leftarrow> current_palette s;
     freqValue \<leftarrow> freq_value fd i (particleCount s);
     let distance = sqrt (vx pos * vx pos + vz pos * vz pos);
     let angle = atan2 (vz pos) (vx pos) + spiralAngle s * spiralTightness s;
     let targetRadius = 100 + bassIntensity s * 80 + freqValue * 50;
     let targetX = cos angle * targetRadius;
     let targetZ = sin angle * targetRadius;
     let vel1 = \<lparr>vx = vx vel + (targetX - vx pos) * 0.01,
                 vy = vy vel + (freqValue * 50 - vy pos) * 0.01,
                 vz = vz vel + (targetZ - vz pos) * 0.01\<rparr>;
     vel2 \<leftarrow> (if beat \<or> pulseEffect s then do {
                let pulseStrength = (if pulseEffect s then pulseIntensity s else beatIntensity);
                directionX \<leftarrow> fdiv (vx pos) (max distance 1);
                directionZ \<leftarrow> fdiv (vz pos) (max distance 1);
                Some (vel1\<lparr>vx := vx vel1 + directionX * pulseStrength * 0.5,
                           vz := vz vel1 + directionZ * pulseStrength * 0.5\<rparr>) }
              else Some vel1);
     let pos1 = vadd pos vel2;
     let vel3 = vscale 0.92 vel2;
     let normalizedDist = min (distance / 200) 1;
     let hue = hueBase palette + normalizedDist * hueRange palette;
     Some \<lparr>opos = pos1, ovel = vel3, ocol = set_hsl hue (saturation palette) (0.5 + freqValue * 0.5),
           osize = 1 + freqValue * 4 + (if beat then beatIntensity else 0)\<rparr> }"

definition updateParticlesCosmic :: "byte list \<Rightarrow> real \<Rightarrow> bool \<Rightarrow> real \<Rightarrow> vis \<Rightarrow> vis option" where
  "updateParticlesCosmic fd average beat beatIntensity s =
     run_particles (particle_cosmic s fd beat beatIntensity) [0..<particleCount s] s"

subsection \<open>Pulse\<close>

definition particle_pulse ::
  "vis \<Rightarrow> byte list \<Rightarrow> bool \<Rightarrow> real \<Rightarrow> nat \<Rightarrow> vec3 \<Rightarrow> vec3 \<Rightarrow> pout option" where
  "particle_pulse s fd beat beatIntensity i pos vel = do {
     palette \<leftarrow> current_palette s;
     freqValue \<leftarrow> freq_value fd i (particleCount s);
     let distance = vlen pos;
     directionX \<leftarrow> fdiv (vx pos) (max distance 1);
     directionY \<leftarrow> fdiv (vy pos) (max distance 1);
     directionZ \<leftarrow> fdiv (vz pos) (max distance 1);
     let direction = \<lparr>vx = directionX, vy = directionY, vz = directionZ\<rparr>;
     let pulsePhase = sin (vis.time s * 2 + real i / real (particleCount s) * pi * 4);
     let targetDistance = 80 + pulsePhase * 40 + freqValue * 60 + bassIntensity s * 40;
     let force = (targetDistance - distance) * 0.05;
     let vel1 = vadd vel (vscale force direction);
     let vel2 = (if beat then vadd vel1 (vscale (beatIntensity * 2) direction) else vel1);
     let pos1 = vadd pos vel2;
     let vel3 = vscale 0.88 vel2;
     let hue = hueBase palette + (pulsePhase * 0.5 + 0.5) * hueRange palette;
     Some \<lparr>opos = pos1, ovel = vel3, ocol = set_hsl hue (saturation palette) (0.4 + freqValue * 0.6),
           osize = 2 + freqValue * 5 + \<bar>pulsePhase\<bar> * 2\<rparr> }"

definition updateParticlesPulse :: "byte list \<Rightarrow> real \<Rightarrow> bool \<Rightarrow> real \<Rightarrow> vis \<Rightarrow> vis option" where
  "updateParticlesPulse fd average beat beatIntensity s =
     run_particles (particle_pulse s fd beat beatIntensity) [0..<particleCount s] s"

subsection \<open>Chaos\<close>

definition particle_chaos ::
  "vis \<Rightarrow> byte list \<Rightarrow> bool \<Rightarrow> real \<Rightarrow> (nat \<Rightarrow> real) \<Rightarrow> nat \<Rightarrow> vec3 \<Rightarrow> vec3 \<Rightarrow> pout option" where
  "particle_chaos s fd beat beatIntensity rnd i pos vel = do {
     palette \<leftarrow> current_palette s;
     freqValue \<leftarrow> freq_value fd i (particleCount s);
     let t = vis.time s;
     let chaosX = sin (t * 3 + real i * 0.1) * freqValue * 5;
     let chaosY = cos (t * 4 + real i * 0.15) * freqValue * 5;
     let chaosZ = sin (t * 2.5 + real i * 0.12) * freqValue * 5;
     let vel1 = vadd vel (vscale 0.1 \<lparr>vx = chaosX, vy = chaosY, vz = chaosZ\<rparr>);
     let vel2 = (if beat then vadd vel1 \<lparr>vx = (rnd (3 * i) - 0.5) * beatIntensity * 3,
                                         vy = (rnd (3 * i + 1) - 0.5) * beatIntensity * 3,
                                         vz = (rnd (3 * i + 2) - 0.5) * beatIntensity * 3\<rparr>
                 else vel1);
     let distance = vlen pos;
     vel3 \<leftarrow> (if distance > 200 then do {
                ax \<leftarrow> fdiv (- vx pos) distance;
                ay \<leftarrow> fdiv (- vy pos) distance;
                az \<leftarrow> fdiv (- vz pos) distance;
                Some (vadd vel2 (vscale 0.5 \<lparr>vx = ax, vy = ay, vz = az\<rparr>)) }
              else Some vel2);
     let pos1 = vadd pos vel3;
     let vel4 = vscale 0.96 vel3;
     let hue = hueBase palette + sin (t * 5 + real i * 0.1) * hueRange palette;
     Some \<lparr>opos = pos1, ovel = vel4, ocol = set_hsl hue (saturation palette) (0.3 + freqValue * 0.7),
           osize = 1 + freqValue * 6\<rparr> }"

definition updateParticlesChaos ::
  "byte list \<Rightarrow> real \<Rightarrow> bool \<Rightarrow> real \<Rightarrow> (nat \<Rightarrow> real) \<Rightarrow> vis \<Rightarrow> vis option" where
  "updateParticlesChaos fd average beat beatIntensity rnd s =
     run_particles (particle_chaos s fd beat beatIntensity rnd) [0..<particleCount s] s"

subsection \<open>Minimal\<close>

text \<open>
  The grid target of particle \<open>p\<close> of bar \<open>bar\<close>: \<open>x = (bar - barCount / 2) * 8\<close>,
  \<open>y = (p / particlesPerBar) * barHeight - 50\<close>, \<open>z = 0\<close>.
\<close>

definition minimal_target :: "nat \<Rightarrow> nat \<Rightarrow> nat \<Rightarrow> real \<Rightarrow> vec3" where
  "minimal_target bar p particlesPerBar barHeight =
     \<lparr>vx = (real bar - 64 / 2) * 8, vy = real p / real particlesPerBar * barHeight - 50, vz = 0\<rparr>"

definition minimal_particle ::
  "real \<Rightarrow> real \<Rightarrow> nat \<Rightarrow> nat \<Rightarrow> nat \<Rightarrow> vis \<Rightarrow> vis option" where
  "minimal_particle freqValue barHeight particlesPerBar bar p s =
     (let i = bar * particlesPerBar + p in do {
        palette \<leftarrow> current_palette s;
        pos \<leftarrow> lget (particlePositions s) i;
        let target = minimal_target bar p particlesPerBar barHeight;
        let pos1 = \<lparr>vx = vx pos + (vx target - vx pos) * 0.15,
                    vy = vy pos + (vy target - vy pos) * 0.15,
                    vz = vz pos + (vz target - vz pos) * 0.15\<rparr>;
        let hue = hueBase palette + (vy target / 100 + 0.5) * hueRange palette;
        Some (s\<lparr>particlePositions := (particlePositions s)[i := pos1],
                posAttr := write3 (posAttr s) i pos1,
                particleColors := (particleColors s)[i :=
                  set_hsl hue (saturation palette) (0.5 + freqValue * 0.5)],
                sizeAttr := (sizeAttr s)[i := 3 + freqValue * 4]\<rparr>) })"

text \<open>
  One bar: the inner loop over \<open>p < particlesPerBar\<close> stops at the first index
  \<open>i \<ge> particleCount\<close> (the \<open>break\<close>).
\<close>

definition minimal_bar :: "byte list \<Rightarrow> nat \<Rightarrow> vis \<Rightarrow> vis option" where
  "minimal_bar fd bar s =
     (let particlesPerBar = particleCount s div 64 in do {
        freqValue \<leftarrow> freq_value fd bar 64;
        let barHeight = freqValue * 150;
        fold_opt (minimal_particle freqValue barHeight particlesPerBar bar)
          (takeWhile (\<lambda>p. bar * particlesPerBar + p < particleCount s) [0..<particlesPerBar]) s })"

definition updateParticlesMinimal :: "byte list \<Rightarrow> real \<Rightarrow> bool \<Rightarrow> real \<Rightarrow> vis \<Rightarrow> vis option" where
  "updateParticlesMinimal fd average beat beatIntensity s = fold_opt (minimal_bar fd) [0..<64] s"

subsection \<open>Neural\<close>

text \<open>
  The candidate pairs: \<open>i\<close> and \<open>j > i\<close> both stepping by 5 below
  \<open>min(particleCount, 200)\<close>.
\<close>

definition neural_pairs :: "nat \<Rightarrow> (nat \<times> nat) list" where
  "neural_pairs n =
     concat (map (\<lambda>i. map (Pair i) (strided 5 (i + 5) (min n 200))) (strided 5 0 (min n 200)))"

definition neural_edge :: "real list \<Rightarrow> real \<Rightarrow> nat \<times> nat \<Rightarrow> (nat \<times> nat \<times> real) list option" where
  "neural_edge positions connectionThreshold ij =
     (case ij of (i, j) \<Rightarrow> do {
        xi \<leftarrow> ta_get positions (int (i * 3)); yi \<leftarrow> ta_get positions (int (i * 3 + 1));
        zi \<leftarrow> ta_get positions (int (i * 3 + 2));
        xj \<leftarrow> ta_get positions (int (j * 3)); yj \<leftarrow> ta_get positions (int (j * 3 + 1));
        zj \<leftarrow> ta_get positions (int (j * 3 + 2));
        let dx = xi - xj; let dy = yi - yj; let dz = zi - zj;
        let distance = sqrt (dx * dx + dy * dy + dz * dz);
        if distance < connectionThreshold then do {
          q \<leftarrow> fdiv distance connectionThreshold;
          Some [(i, j, (1 - q) * 0.5)] }
        else Some [] })"

definition updateParticlesNeural :: "byte list \<Rightarrow> real \<Rightarrow> bool \<Rightarrow> real \<Rightarrow> vis \<Rightarrow> vis option" where
  "updateParticlesNeural fd average beat beatIntensity s = do {
     s1 \<leftarrow> updateParticles fd average beat beatIntensity s;
     let connectionThreshold = 60 + midIntensity s1 * 30;
     edges \<leftarrow> those (map (neural_edge (posAttr s1) connectionThreshold) (neural_pairs (particleCount s1)));
     Some (s1\<lparr>particleConnections := concat edges\<rparr>) }"

subsection \<open>The mode switch\<close>

definition mode_update ::
  "byte list \<Rightarrow> real \<Rightarrow> bool \<Rightarrow> real \<Rightarrow> (nat \<Rightarrow> real) \<Rightarrow> vis \<Rightarrow> vis option" where
  "mode_update fd average beat beatIntensity rnd s =
     (case visualMode s of
        Cosmic \<Rightarrow> updateParticlesCosmic fd average beat beatIntensity s
      | Neural \<Rightarrow> updateParticlesNeural fd average beat beatIntensity s
      | PulseMode \<Rightarrow> updateParticlesPulse fd average beat beatIntensity s
      | Chaos \<Rightarrow> updateParticlesChaos fd average beat beatIntensity rnd s
      | Minimal \<Rightarrow> updateParticlesMinimal fd average beat beatIntensity s
      | OtherMode _ \<Rightarrow> updateParticles fd average beat beatIntensity s)"

subsection \<open>Every mode but the generic one keeps its numbers finite\<close>

lemma particle_cosmic_Some:
  assumes "current_palette s = Some pal" "freq_value fd i (particleCount s) = Some v"
  shows "\<exists>r. particle_cosmic s fd beat beatIntensity i pos vel = Some r"
  using assms by (simp add: particle_cosmic_def Let_def)

lemma particle_pulse_Some:
  assumes "current_palette s = Some pal" "freq_value fd i (particleCount s) = Some v"
  shows "\<exists>r. particle_pulse s fd beat beatIntensity i pos vel = Some r"
  using assms by (simp add: particle_pulse_def Let_def)

lemma particle_chaos_Some:
  assumes "current_palette s = Some pal" "freq_value fd i (particleCount s) = Some v"
  shows "\<exists>r. particle_chaos s fd beat beatIntensity rnd i pos vel = Some r"
proof -
  have "200 < vlen pos \<Longrightarrow> vlen pos \<noteq> 0" by simp
  then show ?thesis using assms by (simp add: particle_chaos_def Let_def)
qed

lemma minimal_particle_Some:
  assumes "current_palette s = Some pal" "bar * particlesPerBar + p < length (particlePositions s)"
  shows "\<exists>t. minimal_particle freqValue barHeight particlesPerBar bar p s = Some t \<and>
             particleCount t = particleCount s \<and> currentPalette t = currentPalette s \<and>
             length (particlePositions t) = length (particlePositions s)"
  using assms by (simp add: minimal_particle_def Let_def)

lemma minimal_bar_Some:
  assumes "current_palette s = Some pal" "length (particlePositions s) = particleCount s"
    and "bar < 64" "0 < length fd"
  shows "\<exists>t. minimal_bar fd bar s = Some t \<and>
             particleCount t = particleCount s \<and> currentPalette t = currentPalette s \<and>
             length (particlePositions t) = length (particlePositions s)"
proof -
  obtain v where v: "freq_value fd bar 64 = Some v"
    using freq_value_Some [OF assms(3,4)] by blast
  let ?P = "\<lambda>t. particleCount t = particleCount s \<and> currentPalette t = currentPalette s \<and>
                length (particlePositions t) = length (particlePositions s)"
  let ?ps = "takeWhile (\<lambda>p. bar * (particleCount s div 64) + p < particleCount s) [0..<particleCount s div 64]"
  have "\<exists>t. fold_opt (minimal_particle v (v * 150) (particleCount s div 64) bar) ?ps s = Some t \<and> ?P t"
  proof (rule fold_opt_Some)
    fix p and t :: vis assume "p \<in> set ?ps" "?P t"
    moreover have "current_palette t = current_palette s" if "?P t"
      using that by (simp add: current_palette_def)
    ultimately show "\<exists>t'. minimal_particle v (v * 150) (particleCount s div 64) bar p t = Some t' \<and> ?P t'"
      using minimal_particle_Some [of t pal] assms(1,2) by (force dest: set_takeWhileD)
  qed simp
  with v show ?thesis by (simp add: minimal_bar_def Let_def)
qed

lemma updateParticlesMinimal_Some:
  assumes "current_palette s = Some pal" "length (particlePositions s) = particleCount s"
    and "0 < length fd"
  shows "\<exists>t. updateParticlesMinimal fd average beat beatIntensity s = Some t"
proof -
  let ?P = "\<lambda>t. particleCount t = particleCount s \<and> currentPalette t = currentPalette s \<and>
                length (particlePositions t) = length (particlePositions s)"
  have "\<exists>t. fold_opt (minimal_bar fd) [0..<64] s = Some t \<and> ?P t"
  proof (rule fold_opt_Some)
    fix bar and t :: vis assume "bar \<in> set [0..<64::nat]" "?P t"
    moreover have "current_palette t = current_palette s" if "?P t"
      using that by (simp add: current_palette_def)
    ultimately show "\<exists>t'. minimal_bar fd bar t = Some t' \<and> ?P t'"
      using minimal_bar_Some [of t pal bar fd] assms by force
  qed simp
  then show ?thesis unfolding updateParticlesMinimal_def by blast
qed

lemma particle_generic_origin:
  "vlen pos = 0 \<Longrightarrow> particle_generic s fd average beat beatIntensity i pos vel = None"
  by (simp add: particle_generic_def Let_def split: option.splits)

lemma particle_generic_Some:
  assumes "current_palette s = Some pal" "freq_value fd i (particleCount s) = Some v"
    and "vlen pos \<noteq> 0"
  shows "\<exists>r. particle_generic s fd average beat beatIntensity i pos vel = Some r"
  using assms by (simp add: particle_generic_def Let_def)

subsection \<open>Every mode keeps the particle field well formed\<close>

lemma minimal_particle_keeps:
  "minimal_particle freqValue barHeight particlesPerBar bar p s = Some t \<Longrightarrow> frame_keeps s t"
  by (auto simp: minimal_particle_def Let_def frame_keeps_def field_ok_def split: Option.bind_splits)

lemma minimal_bar_keeps: "minimal_bar fd bar s = Some t \<Longrightarrow> frame_keeps s t"
proof -
  assume A: "minimal_bar fd bar s = Some t"
  then obtain v where
    "fold_opt (minimal_particle v (v * 150) (particleCount s div 64) bar)
       (takeWhile (\<lambda>p. bar * (particleCount s div 64) + p < particleCount s) [0..<particleCount s div 64]) s
     = Some t"
    by (auto simp: minimal_bar_def Let_def split: Option.bind_splits)
  then show ?thesis
    by (rule fold_opt_invariant [where P = "frame_keeps s"])
       (simp_all, meson frame_keeps_trans minimal_particle_keeps)
qed

lemma updateParticlesMinimal_keeps:
  assumes "updateParticlesMinimal fd average beat beatIntensity s = Some t"
  shows "frame_keeps s t"
  using assms unfolding updateParticlesMinimal_def
  by (rule fold_opt_invariant [where P = "frame_keeps s"])
     (simp_all, meson frame_keeps_trans minimal_bar_keeps)

lemma updateParticlesNeural_keeps:
  "updateParticlesNeural fd average beat beatIntensity s = Some t \<Longrightarrow> frame_keeps s t"
proof -
  assume A: "updateParticlesNeural fd average beat beatIntensity s = Some t"
  then obtain s1 edges where s1: "updateParticles fd average beat beatIntensity s = Some s1"
    and t: "t = s1\<lparr>particleConnections := concat edges\<rparr>"
    by (auto simp: updateParticlesNeural_def Let_def split: Option.bind_splits)
  have "frame_keeps s s1" using s1 by (simp add: updateParticles_def run_particles_keeps)
  moreover have "frame_keeps s1 t" by (simp add: t frame_keeps_def field_ok_def)
  ultimately show ?thesis by (rule frame_keeps_trans)
qed

lemma mode_update_keeps:
  "mode_update fd average beat beatIntensity rnd s = Some t \<Longrightarrow> frame_keeps s t"
  by (cases "visualMode s")
     (auto simp: mode_update_def updateParticlesCosmic_def updateParticlesPulse_def
        updateParticlesChaos_def updateParticles_def
        intro: run_particles_keeps updateParticlesNeural_keeps updateParticlesMinimal_keeps)

subsection \<open>Finiteness of a frame's particle update\<close>

text \<open>C38: the two strided loops of \<open>updateParticlesNeural\<close> enumerate, in their
  order, exactly the pairs \<open>(5 i, 5 j)\<close> with \<open>i < j\<close> of the first
  \<open>min n 200\<close> particles: the optimised loops equal the reference list of pairs.\<close>

theorem neural_pairs_ref:
  "neural_pairs n =
     (let c = (min n 200 + 4) div 5 in concat (map (\<lambda>i. map (\<lambda>j. (5 * i, 5 * j)) [Suc i..<c]) [0..<c]))"
proof -
  let ?m = "min n 200"
  have outer: "strided 5 0 ?m = map (\<lambda>t. 5 * t) [0..<(?m + 4) div 5]"
    using strided_closed[of 5 0 ?m] by (simp add: add.commute)
  have inner: "strided 5 (5 * i + 5) ?m = map (\<lambda>j. 5 * j) [Suc i..<(?m + 4) div 5]" for i
  proof -
    have "(?m + 5 - 1 - (5 * i + 5)) div 5 = (?m + 4) div 5 - Suc i" by simp
    then have "strided 5 (5 * i + 5) ?m = map (\<lambda>t. 5 * i + 5 + 5 * t) [0..<(?m + 4) div 5 - Suc i]"
      by (simp add: strided_closed)
    also have "\<dots> = map (\<lambda>j. 5 * j) (map (\<lambda>t. t + Suc i) [0..<(?m + 4) div 5 - Suc i])"
      by (simp add: algebra_simps)
    also have "\<dots> = map (\<lambda>j. 5 * j) [Suc i..<(?m + 4) div 5]"
    proof (cases "Suc i \<le> (?m + 4) div 5")
      case True
      then show ?thesis unfolding map_add_upt by simp
    qed simp
    finally show ?thesis .
  qed
  have "neural_pairs n = concat (map (\<lambda>i. map (Pair i) (strided 5 (i + 5) ?m)) (map (\<lambda>t. 5 * t) [0..<(?m + 4) div 5]))"
    unfolding neural_pairs_def outer ..
  also have "\<dots> = concat (map (\<lambda>t. map (Pair (5 * t)) (strided 5 (5 * t + 5) ?m)) [0..<(?m + 4) div 5])"
    by (simp only: map_map comp_def)
  also have "\<dots> = concat (map (\<lambda>t. map (Pair (5 * t)) (map (\<lambda>j. 5 * j) [Suc t..<(?m + 4) div 5])) [0..<(?m + 4) div 5])"
    by (simp only: inner)
  also have "\<dots> = concat (map (\<lambda>i. map (\<lambda>j. (5 * i, 5 * j)) [Suc i..<(?m + 4) div 5]) [0..<(?m + 4) div 5])"
    by (simp only: map_map comp_def)
  finally show ?thesis unfolding Let_def .
qed

text \<open>With the default 2000 particles, 40 particles take part and 780 pairs are
  tested.\<close>

lemma neural_pairs_2000: "length (neural_pairs 2000) = 780"
proof -
  have "length (neural_pairs 2000) = (\<Sum>i<40. 39 - i)"
    by (simp add: neural_pairs_ref length_concat sum_list_sum_nth atLeast0LessThan comp_def)
  also have "\<dots> = 780" by (simp add: lessThan_Suc numeral_eq_Suc)
  finally show ?thesis .
qed

lemma updateParticles_origin:
  assumes "field_ok s" "i < particleCount s" "vlen (particlePositions s ! i) = 0"
  shows "updateParticles fd average beat beatIntensity s = None"
  unfolding updateParticles_def
  by (rule run_particles_None [of i]) (use assms in \<open>auto simp: field_ok_def particle_generic_origin\<close>)

lemma mode_update_Some:
  assumes "field_ok s" "currentPalette s < 3" "0 < length fd"
    and "visualMode s \<in> {Cosmic, PulseMode, Chaos, Minimal}"
  shows "\<exists>t. mode_update fd average beat beatIntensity rnd s = Some t"
proof -
  have inputs: "\<exists>pal v. current_palette s = Some pal \<and> freq_value fd i (particleCount s) = Some v"
    if "i < particleCount s" for i
    using frame_inputs_Some [OF assms(2) that assms(3)] .
  show ?thesis
  proof (cases "visualMode s")
    case Cosmic
    have "\<exists>t. run_particles (particle_cosmic s fd beat beatIntensity) [0..<particleCount s] s = Some t"
      using assms(1) by (rule run_particles_all_Some) (use inputs particle_cosmic_Some in blast)
    with Cosmic show ?thesis by (simp add: mode_update_def updateParticlesCosmic_def)
  next
    case PulseMode
    have "\<exists>t. run_particles (particle_pulse s fd beat beatIntensity) [0..<particleCount s] s = Some t"
      using assms(1) by (rule run_particles_all_Some) (use inputs particle_pulse_Some in blast)
    with PulseMode show ?thesis by (simp add: mode_update_def updateParticlesPulse_def)
  next
    case Chaos
    have "\<exists>t. run_particles (particle_chaos s fd beat beatIntensity rnd) [0..<particleCount s] s = Some t"
      using assms(1) by (rule run_particles_all_Some) (use inputs particle_chaos_Some in blast)
    with Chaos show ?thesis by (simp add: mode_update_def updateParticlesChaos_def)
  next
    case Minimal
    obtain pal where "current_palette s = Some pal"
      using assms(2) current_palette_Some_iff by blast
    with assms(1,3) updateParticlesMinimal_Some [of s pal fd average beat beatIntensity] Minimal
    show ?thesis by (simp add: mode_update_def field_ok_def)
  qed (use assms(4) in simp_all)
qed

text \<open>
  C1.  Distance-guard safety: in the Cosmic, Pulse, Chaos and Minimal modes one frame
  of particle updates always produces finite positions and velocities, whatever the
  positions are (a particle exactly at the origin included), as long as the palette
  index is valid and the spectrum is not empty.  Cosmic and Pulse divide by
  \<open>max(distance, 1)\<close>, Chaos divides only when \<open>distance > 200\<close>, and Minimal does
  not divide by a position at all.
\<close>

theorem mode_update_finite:
  assumes "field_ok s" "currentPalette s < 3" "0 < length fd"
    and "visualMode s \<in> {Cosmic, PulseMode, Chaos, Minimal}"
  shows "\<exists>t. mode_update fd average beat beatIntensity rnd s = Some t"
  using assms by (rule mode_update_Some)

theorem mode_update_finite_witness:
  "field_ok (one_particle vzero) \<and> currentPalette (one_particle vzero) < 3 \<and>
   0 < length [200::byte] \<and> visualMode (one_particle vzero) \<in> {Cosmic, PulseMode, Chaos, Minimal} \<and>
   (\<exists>t. mode_update [200] 0 True 1 (\<lambda>_. 0) (one_particle vzero) = Some t)"
proof -
  have h: "field_ok (one_particle vzero)" "currentPalette (one_particle vzero) < 3"
    "visualMode (one_particle vzero) \<in> {Cosmic, PulseMode, Chaos, Minimal}"
    by (simp_all add: one_particle_def vis_fields_def field_ok_def)
  show ?thesis using h mode_update_finite [OF h(1,2) _ h(3), of "[200]" 0 True 1 "\<lambda>_. 0"] by simp
qed

text \<open>
  C2.  The generic rule, which the Neural mode runs first and the \<open>default\<close> branch of
  the mode switch runs, divides by the particle's distance with no guard: one particle
  exactly at the origin makes the frame non-finite (\<open>0 / 0\<close> is \<open>NaN\<close>), against
  the design rule that every direction is normalised by a distance clamped to at
  least 1.
\<close>

theorem generic_rule_origin_nan:
  assumes "field_ok s" "i < particleCount s" "vlen (particlePositions s ! i) = 0"
    and "visualMode s \<notin> {Cosmic, PulseMode, Chaos, Minimal}"
  shows "mode_update fd average beat beatIntensity rnd s = None"
  using assms updateParticles_origin [OF assms(1-3)]
  by (cases "visualMode s") (simp_all add: mode_update_def updateParticlesNeural_def)

theorem generic_rule_origin_nan_witness:
  "field_ok ((one_particle vzero)\<lparr>visualMode := Neural\<rparr>) \<and> 0 < particleCount (one_particle vzero) \<and>
   vlen (particlePositions ((one_particle vzero)\<lparr>visualMode := Neural\<rparr>) ! 0) = 0 \<and>
   visualMode ((one_particle vzero)\<lparr>visualMode := Neural\<rparr>) \<notin> {Cosmic, PulseMode, Chaos, Minimal} \<and>
   mode_update [200] 0 True 1 (\<lambda>_. 0) ((one_particle vzero)\<lparr>visualMode := Neural\<rparr>) = None"
proof -
  have h: "field_ok ((one_particle vzero)\<lparr>visualMode := Neural\<rparr>)"
    "0 < particleCount ((one_particle vzero)\<lparr>visualMode := Neural\<rparr>)"
    "vlen (particlePositions ((one_particle vzero)\<lparr>visualMode := Neural\<rparr>) ! 0) = 0"
    "visualMode ((one_particle vzero)\<lparr>visualMode := Neural\<rparr>) \<notin> {Cosmic, PulseMode, Chaos, Minimal}"
    by (simp_all add: one_particle_def vis_fields_def field_ok_def)
  show ?thesis using h generic_rule_origin_nan [OF h, of "[200]" 0 True 1 "\<lambda>_. 0"]
    by (simp add: one_particle_def)
qed

end
