(* ===== verification/Interfaces.thy ===== *)
theory Interfaces
  imports Prelude
begin

text \<open>
  The data the components exchange once per frame.  \<open>audio_data\<close> is what
  \<open>AudioEngine.getFrequencyData\<close> returns (src/audio-engine.js, lines 206-212) and
  \<open>Visualizer.update\<close> consumes; a band value \<open>None\<close> is a band whose energy the
  engine computed as \<open>NaN\<close>.  \<open>gesture_commands\<close> is the object
  \<open>GestureController.commands\<close> (src/gesture-controller.js, lines 24-28) that
  \<open>Visualizer.processGestureCommands\<close> reads.
\<close>

record audio_data =
  frequencyData :: "byte list"
  average :: real
  beat :: bool
  beatIntensity :: real
  bands :: "(string \<times> real option) list"

record gesture_commands =
  freeze :: bool
  pulse :: bool
  colorPalette :: nat

text \<open>\<open>bands[name]\<close>: a missing key is \<open>undefined\<close>, hence \<open>NaN\<close> once multiplied.\<close>

definition band :: "audio_data \<Rightarrow> string \<Rightarrow> real option" where
  "band a name = (case map_of (bands a) name of None \<Rightarrow> None | Some v \<Rightarrow> v)"

text \<open>A steady audio frame: one spectrum bin at \<open>v\<close>, every band at \<open>v / 255\<close>, no beat.\<close>

definition steady_audio :: "byte \<Rightarrow> audio_data" where
  "steady_audio v =
     \<lparr>frequencyData = [v], average = byte_real v / 255, beat = False, beatIntensity = 0,
      bands = [(''bass'', Some (byte_real v / 255)), (''mid'', Some (byte_real v / 255)),
               (''treble'', Some (byte_real v / 255))]\<rparr>"

end
