(* ===== verification/GestureGate.thy ===== *)
theory GestureGate
  imports Particles Interfaces
begin

text \<open>
  How \<open>Visualizer\<close> applies the gesture commands (src/README.md):
  \<open>processGestureCommands\<close> (lines 861-876) and the pulse of \<open>triggerPulse\<close>
  (lines 881-896).  \<open>triggerPulse\<close> runs its \<open>decayPulse\<close> closure once at once;
  every later run is a callback that \<open>requestAnimationFrame\<close> schedules, so
  \<open>decayPulse\<close> returns the new state and whether it scheduled itself again.
  The callbacks interleave with the frames (theory \<open>Visualizer\<close>).
\<close>

definition decayPulse :: "vis \<Rightarrow> vis \<times> bool" where
  "decayPulse s =
     (let p = pulseIntensity s * 0.85
      in if p > 0.1 then (s\<lparr>pulseIntensity := p\<rparr>, True)
         else (s\<lparr>pulseIntensity := p, pulseEffect := False, pulseIntensity := 0\<rparr>, False))"

definition triggerPulse :: "real \<Rightarrow> vis \<Rightarrow> vis \<times> bool" where
  "triggerPulse intensity s = decayPulse (s\<lparr>pulseEffect := True, pulseIntensity := intensity + 1.5\<rparr>)"

definition processGestureCommands :: "gesture_commands \<Rightarrow> bool \<Rightarrow> real \<Rightarrow> vis \<Rightarrow> vis \<times> bool" where
  "processGestureCommands commands beatFlag level s =
     (let s1 = s\<lparr>isFrozen := freeze commands\<rparr>;
          r = (if pulse commands \<and> \<not> pulseEffect s1 then triggerPulse level s1 else (s1, False));
          s2 = fst r
      in (if colorPalette commands \<noteq> currentPalette s2
          then s2\<lparr>currentPalette := colorPalette commands\<rparr> else s2, snd r))"

text \<open>The chain of \<open>decayPulse\<close> callbacks: at most \<open>n\<close> of them, each run only if
  the one before scheduled it.\<close>

fun pulse_callbacks :: "nat \<Rightarrow> vis \<Rightarrow> vis" where
  "pulse_callbacks 0 s = s"
| "pulse_callbacks (Suc n) s =
     (let r = decayPulse s in if snd r then pulse_callbacks n (fst r) else fst r)"

text \<open>The same chain as a loop that runs until \<open>decayPulse\<close> stops rescheduling
  itself: the final state and the number of callbacks \<open>requestAnimationFrame\<close> ran
  after the first, synchronous, call.  Written as a \<open>partial_function\<close>, so that a
  chain that never ended would be \<open>None\<close>.\<close>

partial_function (option) decay_chain :: "vis \<Rightarrow> (vis \<times> nat) option" where
  "decay_chain s =
     (if snd (decayPulse s)
      then Option.bind (decay_chain (fst (decayPulse s))) (\<lambda>(t, n). Some (t, Suc n))
      else Some (fst (decayPulse s), 0))"

subsection \<open>Lemmas\<close>

lemma decayPulse_again:
  "pulseIntensity s * 0.85 > 0.1 \<Longrightarrow> decayPulse s = (s\<lparr>pulseIntensity := pulseIntensity s * 0.85\<rparr>, True)"
  by (simp add: decayPulse_def)

lemma decayPulse_stop:
  "\<not> pulseIntensity s * 0.85 > 0.1 \<Longrightarrow>
   decayPulse s = (s\<lparr>pulseEffect := False, pulseIntensity := 0\<rparr>, False)"
  by (simp add: decayPulse_def)

lemma decayPulse_frame:
  "particlePositions (fst (decayPulse s)) = particlePositions s \<and>
   particleVelocities (fst (decayPulse s)) = particleVelocities s \<and>
   posAttr (fst (decayPulse s)) = posAttr s \<and>
   particleColors (fst (decayPulse s)) = particleColors s \<and>
   sizeAttr (fst (decayPulse s)) = sizeAttr s \<and>
   particleCount (fst (decayPulse s)) = particleCount s \<and>
   currentPalette (fst (decayPulse s)) = currentPalette s \<and>
   isFrozen (fst (decayPulse s)) = isFrozen s"
  by (simp add: decayPulse_def Let_def)

lemma decayPulse_effect: "pulseEffect s \<Longrightarrow> pulseEffect (fst (decayPulse s)) = snd (decayPulse s)"
  by (simp add: decayPulse_def Let_def)

text \<open>
  Enough callbacks clear the pulse: if \<open>p * 0.85 ^ (n + 1) \<le> 0.1\<close> for the
  intensity \<open>p\<close> the chain starts from, then \<open>n + 1\<close> callbacks end it, with the
  effect off and the intensity exactly 0.
\<close>

lemma pulse_callbacks_clear:
  "pulseIntensity s * 0.85 ^ Suc n \<le> 0.1 \<Longrightarrow>
   pulse_callbacks (Suc n) s = s\<lparr>pulseEffect := False, pulseIntensity := 0\<rparr>"
proof (induction n arbitrary: s)
  case 0
  then show ?case by (simp add: decayPulse_stop)
next
  case (Suc n)
  show ?case
  proof (cases "pulseIntensity s * 0.85 > 0.1")
    case True
    let ?s' = "s\<lparr>pulseIntensity := pulseIntensity s * 0.85\<rparr>"
    have "pulseIntensity ?s' * 0.85 ^ Suc n \<le> 0.1"
      using Suc.prems by (simp add: mult.assoc)
    then have "pulse_callbacks (Suc n) ?s' = ?s'\<lparr>pulseEffect := False, pulseIntensity := 0\<rparr>"
      by (rule Suc.IH)
    with True show ?thesis by (simp add: decayPulse_again)
  next
    case False
    then show ?thesis by (simp add: decayPulse_stop)
  qed
qed

lemma pulse_decreasing:
  "0 < pulseIntensity s \<Longrightarrow> snd (decayPulse s) \<Longrightarrow>
   0 < pulseIntensity (fst (decayPulse s)) \<and> pulseIntensity (fst (decayPulse s)) < pulseIntensity s"
  by (auto simp: decayPulse_def Let_def split: if_splits)

lemma processGestureCommands_frame:
  "particlePositions (fst (processGestureCommands c b bi s)) = particlePositions s \<and>
   particleVelocities (fst (processGestureCommands c b bi s)) = particleVelocities s \<and>
   posAttr (fst (processGestureCommands c b bi s)) = posAttr s \<and>
   particleColors (fst (processGestureCommands c b bi s)) = particleColors s \<and>
   sizeAttr (fst (processGestureCommands c b bi s)) = sizeAttr s \<and>
   particleCount (fst (processGestureCommands c b bi s)) = particleCount s \<and>
   isFrozen (fst (processGestureCommands c b bi s)) = freeze c \<and>
   currentPalette (fst (processGestureCommands c b bi s)) = colorPalette c"
  by (simp add: processGestureCommands_def triggerPulse_def decayPulse_frame Let_def)

lemma decay_chain_exact:
  "pulseIntensity s * 0.85 ^ Suc k \<le> 0.1 \<Longrightarrow> (\<forall>j<k. pulseIntensity s * 0.85 ^ Suc j > 0.1) \<Longrightarrow>
   decay_chain s = Some (s\<lparr>pulseEffect := False, pulseIntensity := 0\<rparr>, k)"
proof (induction k arbitrary: s)
  case 0
  then show ?case by (subst decay_chain.simps) (simp add: decayPulse_stop)
next
  case (Suc k)
  let ?s' = "s\<lparr>pulseIntensity := pulseIntensity s * 0.85\<rparr>"
  have gt: "pulseIntensity s * 0.85 > 0.1" using Suc.prems(2) by auto
  have "decay_chain ?s' = Some (?s'\<lparr>pulseEffect := False, pulseIntensity := 0\<rparr>, k)"
  proof (rule Suc.IH)
    show "pulseIntensity ?s' * 0.85 ^ Suc k \<le> 0.1" using Suc.prems(1) by (simp add: mult.assoc)
    show "\<forall>j<k. pulseIntensity ?s' * 0.85 ^ Suc j > 0.1"
      using Suc.prems(2) by (auto simp: mult.assoc)
  qed
  then show ?case using gt by (subst decay_chain.simps) (simp add: decayPulse_again)
qed

lemma decay_steps_exist: "\<exists>k. p * 0.85 ^ Suc k \<le> (0.1::real)"
proof (cases "p \<le> 0")
  case True
  then show ?thesis by (intro exI[of _ 0]) simp
next
  case False
  obtain n where "(0.85::real) ^ n < 0.1 / p"
    using real_arch_pow_inv[of "0.1 / p" "0.85::real"] False by auto
  then have "p * 0.85 ^ n \<le> 0.1" using False by (simp add: field_simps)
  then have "p * 0.85 ^ Suc n \<le> 0.1" using False by simp
  then show ?thesis by blast
qed

lemma least_decay_steps: "\<exists>k. p * 0.85 ^ Suc k \<le> (0.1::real) \<and> (\<forall>j<k. p * 0.85 ^ Suc j > 0.1)"
proof -
  define P where "P k \<longleftrightarrow> p * 0.85 ^ Suc k \<le> (0.1::real)" for k
  obtain k where "P k" using decay_steps_exist[of p] by (auto simp: P_def)
  then have "P (LEAST k. P k)" "\<forall>j<(LEAST k. P k). \<not> P j"
    by (auto intro: LeastI dest: not_less_Least)
  then show ?thesis unfolding P_def by (auto simp only: not_le)
qed

text \<open>C36: the \<open>decayPulse\<close> chain ends from every state: after finitely many
  callbacks the pulse is off, its intensity exactly 0, and nothing else has changed.\<close>

theorem decay_chain_terminates:
  "\<exists>n. decay_chain s = Some (s\<lparr>pulseEffect := False, pulseIntensity := 0\<rparr>, n)"
proof -
  obtain k where "pulseIntensity s * 0.85 ^ Suc k \<le> (0.1::real)"
    "\<forall>j<k. pulseIntensity s * 0.85 ^ Suc j > 0.1"
    using least_decay_steps by blast
  then show ?thesis using decay_chain_exact by blast
qed

text \<open>C37: how long a pulse lasts, for every trigger level \<open>x\<close>: with \<open>n\<close>
  the least number such that \<open>(x + 1.5) * 0.85 ^ (n + 1) \<le> 0.1\<close>, \<open>triggerPulse\<close>
  decays once at once and, when \<open>n = 0\<close>, clears the pulse there and schedules
  nothing; otherwise it schedules itself and the chain of animation-frame callbacks
  that follows clears the pulse after \<open>n\<close> more decays, \<open>n - 1\<close> of them
  rescheduling, leaving everything but the pulse fields as before.\<close>

theorem pulse_trigger_callbacks:
  "\<exists>n. (x + 1.5) * 0.85 ^ Suc n \<le> (0.1::real) \<and> (\<forall>j<n. (x + 1.5) * 0.85 ^ Suc j > 0.1) \<and>
       (if n = 0 then triggerPulse x s = (s\<lparr>pulseEffect := False, pulseIntensity := 0\<rparr>, False)
        else snd (triggerPulse x s) \<and>
             decay_chain (fst (triggerPulse x s)) = Some (s\<lparr>pulseEffect := False, pulseIntensity := 0\<rparr>, n - 1))"
proof -
  obtain n where le: "(x + 1.5) * 0.85 ^ Suc n \<le> (0.1::real)" and gt: "\<forall>j<n. (x + 1.5) * 0.85 ^ Suc j > 0.1"
    using least_decay_steps by blast
  let ?s = "s\<lparr>pulseEffect := True, pulseIntensity := x + 1.5\<rparr>"
  have "if n = 0 then triggerPulse x s = (s\<lparr>pulseEffect := False, pulseIntensity := 0\<rparr>, False)
        else snd (triggerPulse x s) \<and>
             decay_chain (fst (triggerPulse x s)) = Some (s\<lparr>pulseEffect := False, pulseIntensity := 0\<rparr>, n - 1)"
  proof (cases n)
    case 0
    then have "\<not> pulseIntensity ?s * 0.85 > 0.1" using le by simp
    then show ?thesis using 0 by (simp add: triggerPulse_def decayPulse_stop)
  next
    case (Suc k)
    let ?t = "?s\<lparr>pulseIntensity := pulseIntensity ?s * 0.85\<rparr>"
    have first: "triggerPulse x s = (?t, True)"
      unfolding triggerPulse_def using gt Suc by (intro decayPulse_again) auto
    have "decay_chain ?t = Some (?t\<lparr>pulseEffect := False, pulseIntensity := 0\<rparr>, k)"
    proof (rule decay_chain_exact)
      have "pulseIntensity ?t * 0.85 ^ Suc k = (x + 1.5) * 0.85 ^ Suc n"
        using Suc by (simp only: power_Suc mult.assoc) simp
      then show "pulseIntensity ?t * 0.85 ^ Suc k \<le> 0.1" using le by simp
      show "\<forall>j<k. pulseIntensity ?t * 0.85 ^ Suc j > 0.1"
      proof (intro allI impI)
        fix j assume "j < k"
        then have A: "(x + 1.5) * 0.85 ^ Suc (Suc j) > (0.1::real)" using gt [rule_format, of "Suc j"] Suc by simp
        have eq: "pulseIntensity ?t * 0.85 ^ Suc j = (x + 1.5) * 0.85 ^ Suc (Suc j)"
          by (simp only: power_Suc mult.assoc) simp
        show "pulseIntensity ?t * 0.85 ^ Suc j > 0.1" using A by (simp only: eq)
      qed
    qed
    then show ?thesis using first Suc by simp
  qed
  with le gt show ?thesis by blast
qed

theorem pulse_trigger_callbacks_witness:
  "snd (triggerPulse 1 vis_fields) \<and>
   decay_chain (fst (triggerPulse 1 vis_fields)) = Some (vis_fields\<lparr>pulseEffect := False, pulseIntensity := 0\<rparr>, 18)"
proof -
  obtain n where le: "(1 + 1.5) * 0.85 ^ Suc n \<le> (0.1::real)" and gt: "\<forall>j<n. (1 + 1.5) * 0.85 ^ Suc j > (0.1::real)"
    and r: "if n = 0 then triggerPulse 1 vis_fields = (vis_fields\<lparr>pulseEffect := False, pulseIntensity := 0\<rparr>, False)
            else snd (triggerPulse 1 vis_fields) \<and>
                 decay_chain (fst (triggerPulse 1 vis_fields)) = Some (vis_fields\<lparr>pulseEffect := False, pulseIntensity := 0\<rparr>, n - 1)"
    using pulse_trigger_callbacks [of 1 vis_fields] by blast
  have big: "(1 + 1.5) * 0.85 ^ Suc j > (0.1::real)" if "j < 19" for j
  proof -
    have "(0.85::real) ^ 19 \<le> 0.85 ^ Suc j" using that by (intro power_decreasing) simp_all
    moreover have "0.1 < (2.5::real) * 0.85 ^ 19" by (simp add: power_divide)
    ultimately show ?thesis by simp
  qed
  have small: "(1 + 1.5) * 0.85 ^ Suc 19 \<le> (0.1::real)" by (simp add: power_divide)
  have "n = 19"
  proof (rule ccontr)
    assume "n \<noteq> 19"
    then consider "n < 19" | "19 < n" by linarith
    then show False
    proof cases
      case 1 then show False using le big [of n] by simp
    next
      case 2 then show False using gt small by (meson not_le)
    qed
  qed
  then show ?thesis using r by simp
qed

end
