(* ===== verification/Camera.thy ===== *)
theory Camera
  imports Particles
begin

text \<open>
  The camera motion of \<open>Visualizer\<close> (src/README.md): \<open>updateCameraShake\<close>
  (lines 901-917) and \<open>updateCamera\<close> (lines 922-936).  The shake draws
  \<open>Math.random()\<close> three times when it is strong enough; \<open>rnd k\<close> is the
  \<open>k\<close>-th value drawn in the frame, and the function also returns how many it drew,
  so that the particle loop of the same frame draws the values after them.
  \<open>camera.lookAt\<close> is the renderer's and is not modelled; the camera's position is
  the field \<open>cameraPos\<close>.
\<close>

definition updateCameraShake :: "real \<Rightarrow> bool \<Rightarrow> (nat \<Rightarrow> real) \<Rightarrow> vis \<Rightarrow> vis \<times> nat" where
  "updateCameraShake bassLevel beatFlag rnd s =
     (let i0 = (if beatFlag then bassLevel * 10 else cameraShakeIntensity s);
          i1 = i0 * 0.9
      in if i1 > 0.1
         then (s\<lparr>cameraShakeIntensity := i1,
                 cameraShake := \<lparr>vx = (rnd 0 - 0.5) * i1, vy = (rnd 1 - 0.5) * i1,
                                 vz = (rnd 2 - 0.5) * i1\<rparr>\<rparr>, 3)
         else (s\<lparr>cameraShakeIntensity := i1, cameraShake := vzero\<rparr>, 0))"

definition updateCamera :: "real \<Rightarrow> vis \<Rightarrow> vis" where
  "updateCamera audioIntensity s =
     (let angle = cameraAngle s + (0.002 + audioIntensity * 0.001);
          dynamicRadius = cameraRadius s + audioIntensity * 50;
          dynamicHeight = cameraHeight s + bassIntensity s * 30
      in s\<lparr>cameraAngle := angle,
           cameraPos := \<lparr>vx = cos angle * dynamicRadius + vx (cameraShake s),
                         vy = dynamicHeight + vy (cameraShake s),
                         vz = sin angle * dynamicRadius + vz (cameraShake s)\<rparr>\<rparr>)"

subsection \<open>Lemmas\<close>

lemma updateCameraShake_frame:
  "particlePositions (fst (updateCameraShake b f rnd s)) = particlePositions s \<and>
   particleVelocities (fst (updateCameraShake b f rnd s)) = particleVelocities s \<and>
   posAttr (fst (updateCameraShake b f rnd s)) = posAttr s \<and>
   particleColors (fst (updateCameraShake b f rnd s)) = particleColors s \<and>
   sizeAttr (fst (updateCameraShake b f rnd s)) = sizeAttr s \<and>
   same_scalars s (fst (updateCameraShake b f rnd s)) \<and>
   pulseEffect (fst (updateCameraShake b f rnd s)) = pulseEffect s"
  by (simp add: updateCameraShake_def Let_def same_scalars_def)

lemma updateCamera_frame:
  "particlePositions (updateCamera a s) = particlePositions s \<and>
   particleVelocities (updateCamera a s) = particleVelocities s \<and>
   posAttr (updateCamera a s) = posAttr s \<and>
   particleColors (updateCamera a s) = particleColors s \<and>
   sizeAttr (updateCamera a s) = sizeAttr s \<and>
   same_scalars s (updateCamera a s) \<and>
   pulseEffect (updateCamera a s) = pulseEffect s"
  by (simp add: updateCamera_def Let_def same_scalars_def)

lemma updateCameraShake_intensity:
  "cameraShakeIntensity (fst (updateCameraShake b f rnd s)) =
     (if f then b * 10 else cameraShakeIntensity s) * 0.9"
  by (simp add: updateCameraShake_def Let_def)

lemma updateCameraShake_offset:
  "cameraShake (fst (updateCameraShake b f rnd s)) =
     (let i = cameraShakeIntensity (fst (updateCameraShake b f rnd s)) in
      if i > 0.1 then \<lparr>vx = (rnd 0 - 0.5) * i, vy = (rnd 1 - 0.5) * i, vz = (rnd 2 - 0.5) * i\<rparr>
      else vzero)"
  by (simp add: updateCameraShake_def Let_def)

lemma updateCameraShake_keeps: "frame_keeps s (fst (updateCameraShake b f rnd s))"
  by (simp add: updateCameraShake_def Let_def frame_keeps_def field_ok_def)

lemma updateCamera_keeps: "frame_keeps s (updateCamera a s)"
  by (simp add: updateCamera_def Let_def frame_keeps_def field_ok_def)

end
