(* ===== verification/Symmetry.thy ===== *)
theory Symmetry
  imports Particles
begin

text \<open>
  The kaleidoscope of \<open>Visualizer\<close>, \<open>applyRadialSymmetry\<close> (src/README.md,
  lines 941-964).  For each segment \<open>1 \<le> segment < symmetrySegments\<close> and each
  source particle \<open>i < particleCount / symmetrySegments\<close> it writes the source
  rotated about the vertical axis into the position buffer at the key
  \<open>(i + (particleCount / symmetrySegments) * segment) * 3\<close> and the two keys after
  it.  The key is a JavaScript number: a write at a key that is not a non-negative
  integer below the length is no write (\<open>ta_set\<close>).  The reads are of the buffer
  as the earlier writes left it.
\<close>

definition symmetry_write :: "nat \<Rightarrow> nat \<Rightarrow> real \<Rightarrow> real \<Rightarrow> nat \<Rightarrow> nat \<Rightarrow> real list \<Rightarrow> real list option" where
  "symmetry_write n segs c sn segment i buf = do {
     let sourceIdx = i * 3;
     let targetIdx = (real i + real n / real segs * real segment) * 3;
     x \<leftarrow> ta_get buf (int sourceIdx);
     z \<leftarrow> ta_get buf (int (sourceIdx + 2));
     let buf1 = ta_set buf targetIdx (x * c - z * sn);
     y \<leftarrow> ta_get buf1 (int (sourceIdx + 1));
     let buf2 = ta_set buf1 (targetIdx + 1) y;
     Some (ta_set buf2 (targetIdx + 2) (x * sn + z * c)) }"

definition symmetry_sources :: "nat \<Rightarrow> nat \<Rightarrow> nat list" where
  "symmetry_sources n segs = [0..<nat \<lceil>real n / real segs\<rceil>]"

definition symmetry_segment :: "nat \<Rightarrow> nat \<Rightarrow> nat \<Rightarrow> real list \<Rightarrow> real list option" where
  "symmetry_segment n segs segment buf =
     (let segmentAngle = pi * 2 / real segs;
          angle = segmentAngle * real segment
      in fold_opt (symmetry_write n segs (cos angle) (sin angle) segment) (symmetry_sources n segs) buf)"

definition applyRadialSymmetry :: "vis \<Rightarrow> vis option" where
  "applyRadialSymmetry s =
     map_option (\<lambda>buf. s\<lparr>posAttr := buf\<rparr>)
       (fold_opt (symmetry_segment (particleCount s) (symmetrySegments s))
          [1..<symmetrySegments s] (posAttr s))"

subsection \<open>Lemmas\<close>

lemma symmetry_write_length:
  "symmetry_write n segs c sn segment i buf = Some buf' \<Longrightarrow> length buf' = length buf"
  by (auto simp: symmetry_write_def Let_def split: Option.bind_splits)

lemma applyRadialSymmetry_frame:
  "applyRadialSymmetry s = Some t \<Longrightarrow>
   \<exists>buf. t = s\<lparr>posAttr := buf\<rparr> \<and> length buf = length (posAttr s)"
proof -
  assume A: "applyRadialSymmetry s = Some t"
  then obtain buf where buf: "fold_opt (symmetry_segment (particleCount s) (symmetrySegments s))
          [1..<symmetrySegments s] (posAttr s) = Some buf" and t: "t = s\<lparr>posAttr := buf\<rparr>"
    by (auto simp: applyRadialSymmetry_def)
  have seg: "length b' = length b"
    if "symmetry_segment (particleCount s) (symmetrySegments s) seg b = Some b'" for seg b b'
    using that unfolding symmetry_segment_def Let_def
    by (rule fold_opt_invariant [where P = "\<lambda>b'. length b' = length b"])
       (auto dest: symmetry_write_length)
  have "length buf = length (posAttr s)"
    using buf by (rule fold_opt_invariant [where P = "\<lambda>b. length b = length (posAttr s)"])
       (auto dest: seg)
  with t show ?thesis by blast
qed

lemma applyRadialSymmetry_keeps: "applyRadialSymmetry s = Some t \<Longrightarrow> frame_keeps s t"
proof -
  assume "applyRadialSymmetry s = Some t"
  then obtain buf where "t = s\<lparr>posAttr := buf\<rparr>" "length buf = length (posAttr s)"
    by (blast dest: applyRadialSymmetry_frame)
  then show ?thesis by (simp add: frame_keeps_def field_ok_def)
qed

end
