(* ===== verification/Visualizer.thy ===== *)
theory Visualizer
  imports Modes GestureGate Camera Symmetry
begin

text \<open>
  One frame of \<open>Visualizer.update(audioData, gestureCommands)\<close> (src/README.md,
  lines 667-730), the small state-changing methods \<open>start\<close>, \<open>stop\<close>,
  \<open>setVisualMode\<close>, \<open>toggleTrailEffect\<close> and \<open>toggleRadialSymmetry\<close>
  (lines 978-997, 1311-1327), and the viewer as a state machine: frames, the
  \<open>decayPulse\<close> callbacks that \<open>requestAnimationFrame\<close> runs between them, and
  the user's mode switches and toggles, in any interleaving.

  \<open>update\<close> returns \<open>None\<close> when the frame makes a number of the state
  non-finite or throws; otherwise the new state and whether the frame started a
  chain of pulse-decay callbacks.  The \<open>Math.random()\<close> values of the frame are
  the input \<open>rnd\<close>: the camera shake draws first, the Chaos loop after it.
\<close>

definition start :: "vis \<Rightarrow> vis" where
  "start s = s\<lparr>isRunning := True\<rparr>"

definition stop :: "vis \<Rightarrow> vis" where
  "stop s = s\<lparr>isRunning := False\<rparr>"

definition setVisualMode :: "visual_mode \<Rightarrow> vis \<Rightarrow> vis" where
  "setVisualMode m s = s\<lparr>visualMode := m\<rparr>"

definition toggleTrailEffect :: "vis \<Rightarrow> vis" where
  "toggleTrailEffect s = s\<lparr>trailEffect := \<not> trailEffect s\<rparr>"

definition toggleRadialSymmetry :: "vis \<Rightarrow> vis" where
  "toggleRadialSymmetry s = s\<lparr>radialSymmetry := \<not> radialSymmetry s\<rparr>"

text \<open>The gesture step of a frame (lines 680-683): only when commands were passed.\<close>

definition gesture_stage :: "gesture_commands option \<Rightarrow> audio_data \<Rightarrow> vis \<Rightarrow> vis \<times> bool" where
  "gesture_stage gestureCommands a s =
     (case gestureCommands of None \<Rightarrow> (s, False)
      | Some c \<Rightarrow> processGestureCommands c (beat a) (beatIntensity a) s)"

text \<open>The particle step of a frame (lines 694-718): the mode's rule, or colours only when frozen.\<close>

definition particle_stage :: "audio_data \<Rightarrow> (nat \<Rightarrow> real) \<Rightarrow> vis \<Rightarrow> vis option" where
  "particle_stage a rnd s =
     (if \<not> isFrozen s
      then mode_update (frequencyData a) (average a) (beat a) (beatIntensity a) rnd s
      else updateParticleColors (frequencyData a) (average a) s)"

definition update ::
  "audio_data option \<Rightarrow> gesture_commands option \<Rightarrow> (nat \<Rightarrow> real) \<Rightarrow> vis \<Rightarrow> (vis \<times> bool) option" where
  "update audio gestureCommands rnd s =
     (case audio of None \<Rightarrow> Some (s, False) | Some a \<Rightarrow>
      if \<not> isRunning s then Some (s, False) else do {
        bassBand \<leftarrow> band a ''bass'';
        midBand \<leftarrow> band a ''mid'';
        trebleBand \<leftarrow> band a ''treble'';
        let s1 = s\<lparr>time := vis.time s + 0.01, bassIntensity := bassBand * 2,
                   midIntensity := midBand * 1.5, trebleIntensity := trebleBand * 1.2\<rparr>;
        let r2 = gesture_stage gestureCommands a s1;
        let r3 = updateCameraShake bassBand (beat a) rnd (fst r2);
        let s4 = (fst r3)\<lparr>spikeIntensity := trebleBand * 3,
                           spiralAngle := spiralAngle (fst r3) + (0.01 + bassBand * 0.05)\<rparr>;
        s5 \<leftarrow> particle_stage a (\<lambda>k. rnd (snd r3 + k)) s4;
        let s6 = updateCamera (average a) s5;
        s7 \<leftarrow> (if radialSymmetry s6 then applyRadialSymmetry s6 else Some s6);
        Some (s7, snd r2) })"

subsection \<open>The viewer as a state machine\<close>

record viewer =
  vstate :: vis
  pendingDecays :: nat

datatype vis_event =
    Frame "audio_data option" "gesture_commands option" "nat \<Rightarrow> real"
  | DecayCallback
  | SetMode visual_mode
  | ToggleSymmetry
  | ToggleTrail
  | Start
  | Stop

definition viewer_step :: "viewer \<Rightarrow> vis_event \<Rightarrow> viewer option" where
  "viewer_step v e =
     (case e of
        Frame a c rnd \<Rightarrow>
          map_option (\<lambda>r. \<lparr>vstate = fst r, pendingDecays = pendingDecays v + (if snd r then 1 else 0)\<rparr>)
            (update a c rnd (vstate v))
      | DecayCallback \<Rightarrow>
          (if pendingDecays v = 0 then None
           else let r = decayPulse (vstate v)
                in Some \<lparr>vstate = fst r, pendingDecays = pendingDecays v - 1 + (if snd r then 1 else 0)\<rparr>)
      | SetMode m \<Rightarrow> Some (v\<lparr>vstate := setVisualMode m (vstate v)\<rparr>)
      | ToggleSymmetry \<Rightarrow> Some (v\<lparr>vstate := toggleRadialSymmetry (vstate v)\<rparr>)
      | ToggleTrail \<Rightarrow> Some (v\<lparr>vstate := toggleTrailEffect (vstate v)\<rparr>)
      | Start \<Rightarrow> Some (v\<lparr>vstate := start (vstate v)\<rparr>)
      | Stop \<Rightarrow> Some (v\<lparr>vstate := stop (vstate v)\<rparr>))"

definition init_viewer :: "(nat \<Rightarrow> real) \<Rightarrow> viewer" where
  "init_viewer rnd = \<lparr>vstate = new_visualizer rnd, pendingDecays = 0\<rparr>"

inductive reachable :: "viewer \<Rightarrow> bool" where
  init: "reachable (init_viewer rnd)"
| step: "reachable v \<Longrightarrow> viewer_step v e = Some w \<Longrightarrow> reachable w"

definition viewer_inv :: "viewer \<Rightarrow> bool" where
  "viewer_inv v \<longleftrightarrow> field_ok (vstate v) \<and> particleCount (vstate v) = 2000 \<and>
     pendingDecays v = (if pulseEffect (vstate v) then 1 else 0) \<and>
     (pulseEffect (vstate v) \<longrightarrow> pulseIntensity (vstate v) > 0.1)"

subsection \<open>The steps of a frame\<close>

lemma gesture_stage_frame:
  "particlePositions (fst (gesture_stage c a s)) = particlePositions s \<and>
   particleVelocities (fst (gesture_stage c a s)) = particleVelocities s \<and>
   (field_ok s \<longrightarrow> field_ok (fst (gesture_stage c a s))) \<and>
   particleCount (fst (gesture_stage c a s)) = particleCount s \<and>
   radialSymmetry (fst (gesture_stage c a s)) = radialSymmetry s"
  by (cases c) (simp_all add: gesture_stage_def field_ok_def processGestureCommands_frame,
                simp add: processGestureCommands_def triggerPulse_def decayPulse_def Let_def)

lemma gesture_stage_frozen:
  "isFrozen (fst (gesture_stage c a s)) = (case c of None \<Rightarrow> isFrozen s | Some c' \<Rightarrow> freeze c')"
  by (cases c) (simp_all add: gesture_stage_def processGestureCommands_frame)

lemma triggerPulse_pulse:
  "pulseEffect (fst (triggerPulse l s)) = snd (triggerPulse l s) \<and>
   (snd (triggerPulse l s) \<longrightarrow> pulseIntensity (fst (triggerPulse l s)) > 0.1)"
  by (simp add: triggerPulse_def decayPulse_def Let_def)

lemma gesture_stage_pulse:
  "(pulseEffect s \<longrightarrow> \<not> snd (gesture_stage c a s) \<and> pulseEffect (fst (gesture_stage c a s)) \<and>
       pulseIntensity (fst (gesture_stage c a s)) = pulseIntensity s) \<and>
   (\<not> pulseEffect s \<longrightarrow> pulseEffect (fst (gesture_stage c a s)) = snd (gesture_stage c a s) \<and>
       (snd (gesture_stage c a s) \<longrightarrow> pulseIntensity (fst (gesture_stage c a s)) > 0.1))"
proof (cases c)
  case None
  then show ?thesis by (simp add: gesture_stage_def)
next
  case (Some c')
  let ?s1 = "s\<lparr>isFrozen := freeze c'\<rparr>"
  have "pulseEffect ?s1 = pulseEffect s" "pulseIntensity ?s1 = pulseIntensity s" by simp_all
  then show ?thesis using triggerPulse_pulse [of "beatIntensity a" ?s1] Some
    by (auto simp: gesture_stage_def processGestureCommands_def Let_def)
qed

lemma particle_stage_keeps: "particle_stage a rnd s = Some t \<Longrightarrow> frame_keeps s t"
  by (auto simp: particle_stage_def split: if_splits
           intro: mode_update_keeps updateParticleColors_keeps)

lemma update_SomeE:
  assumes U: "update (Some a) c rnd s = Some (t, sched)" and R: "isRunning s"
  obtains bassB midB trebleB where
    "sched = snd (gesture_stage c a (s\<lparr>time := vis.time s + 0.01, bassIntensity := bassB * 2,
        midIntensity := midB * 1.5, trebleIntensity := trebleB * 1.2\<rparr>))"
    "frame_keeps (fst (gesture_stage c a (s\<lparr>time := vis.time s + 0.01, bassIntensity := bassB * 2,
        midIntensity := midB * 1.5, trebleIntensity := trebleB * 1.2\<rparr>))) t"
    "isFrozen (fst (gesture_stage c a (s\<lparr>time := vis.time s + 0.01, bassIntensity := bassB * 2,
        midIntensity := midB * 1.5, trebleIntensity := trebleB * 1.2\<rparr>))) \<longrightarrow>
       particlePositions t = particlePositions s \<and> particleVelocities t = particleVelocities s"
proof -
  from U R obtain bassB midB trebleB s5 s7 where
    b: "band a ''bass'' = Some bassB" "band a ''mid'' = Some midB" "band a ''treble'' = Some trebleB"
    and s5: "particle_stage a (\<lambda>k. rnd (snd (updateCameraShake bassB (beat a) rnd
               (fst (gesture_stage c a (s\<lparr>time := vis.time s + 0.01, bassIntensity := bassB * 2,
                  midIntensity := midB * 1.5, trebleIntensity := trebleB * 1.2\<rparr>)))) + k))
             ((fst (updateCameraShake bassB (beat a) rnd
               (fst (gesture_stage c a (s\<lparr>time := vis.time s + 0.01, bassIntensity := bassB * 2,
                  midIntensity := midB * 1.5, trebleIntensity := trebleB * 1.2\<rparr>)))))
               \<lparr>spikeIntensity := trebleB * 3,
                spiralAngle := spiralAngle (fst (updateCameraShake bassB (beat a) rnd
                  (fst (gesture_stage c a (s\<lparr>time := vis.time s + 0.01, bassIntensity := bassB * 2,
                     midIntensity := midB * 1.5, trebleIntensity := trebleB * 1.2\<rparr>))))) +
                  (0.01 + bassB * 0.05)\<rparr>) = Some s5"
    and s7: "(if radialSymmetry (updateCamera (average a) s5)
              then applyRadialSymmetry (updateCamera (average a) s5)
              else Some (updateCamera (average a) s5)) = Some s7"
    and t: "t = s7"
    and sched: "sched = snd (gesture_stage c a (s\<lparr>time := vis.time s + 0.01, bassIntensity := bassB * 2,
        midIntensity := midB * 1.5, trebleIntensity := trebleB * 1.2\<rparr>))"
    unfolding update_def Let_def
    by (simp only: option.case bind_eq_Some_conv if_False not_True_eq_False simp_thms) blast
  let ?s2 = "fst (gesture_stage c a (s\<lparr>time := vis.time s + 0.01, bassIntensity := bassB * 2,
        midIntensity := midB * 1.5, trebleIntensity := trebleB * 1.2\<rparr>))"
  let ?s3 = "fst (updateCameraShake bassB (beat a) rnd ?s2)"
  let ?s4 = "?s3\<lparr>spikeIntensity := trebleB * 3, spiralAngle := spiralAngle ?s3 + (0.01 + bassB * 0.05)\<rparr>"
  have k3: "frame_keeps ?s2 ?s3" by (rule updateCameraShake_keeps)
  have k4: "frame_keeps ?s3 ?s4" by (simp add: frame_keeps_def field_ok_def)
  have k5: "frame_keeps ?s4 s5" using s5 by (rule particle_stage_keeps)
  have k6: "frame_keeps s5 (updateCamera (average a) s5)" by (rule updateCamera_keeps)
  have k7: "frame_keeps (updateCamera (average a) s5) s7"
    using s7 by (auto split: if_splits intro: applyRadialSymmetry_keeps)
  have keeps: "frame_keeps ?s2 t"
    unfolding t by (rule frame_keeps_trans [OF frame_keeps_trans [OF frame_keeps_trans
                     [OF frame_keeps_trans [OF k3 k4] k5] k6] k7])
  have still: "particlePositions t = particlePositions s \<and> particleVelocities t = particleVelocities s"
    if frozen: "isFrozen ?s2"
  proof -
    have p2: "particlePositions ?s2 = particlePositions s" "particleVelocities ?s2 = particleVelocities s"
      using gesture_stage_frame [of c a] by simp_all
    have p4: "particlePositions ?s4 = particlePositions s" "particleVelocities ?s4 = particleVelocities s"
      using p2 updateCameraShake_frame [of bassB "beat a" rnd ?s2] by simp_all
    have "isFrozen ?s4" using frozen updateCameraShake_frame [of bassB "beat a" rnd ?s2]
      by (simp add: same_scalars_def)
    then have "updateParticleColors (frequencyData a) (average a) ?s4 = Some s5"
      using s5 by (simp add: particle_stage_def)
    from updateParticleColors_frame [OF this]
    have p5: "particlePositions s5 = particlePositions s" "particleVelocities s5 = particleVelocities s"
      using p4 by simp_all
    have p6: "particlePositions (updateCamera (average a) s5) = particlePositions s"
      "particleVelocities (updateCamera (average a) s5) = particleVelocities s"
      using p5 updateCamera_frame [of "average a" s5] by simp_all
    show ?thesis
    proof (cases "radialSymmetry (updateCamera (average a) s5)")
      case True
      with s7 obtain buf where "s7 = (updateCamera (average a) s5)\<lparr>posAttr := buf\<rparr>"
        by (auto dest: applyRadialSymmetry_frame)
      with p6 show ?thesis by (simp add: t)
    next
      case False
      with s7 p6 show ?thesis by (simp add: t)
    qed
  qed
  show ?thesis using that sched keeps still by blast
qed

subsection \<open>Invariants of the viewer\<close>

lemma createParticleSystem_field_ok:
  "particlePositions s = [] \<Longrightarrow> particleVelocities s = [] \<Longrightarrow> field_ok (createParticleSystem rnd s)"
  by (simp add: createParticleSystem_def Let_def field_ok_def length_concat_const)

lemma init_viewer_inv: "viewer_inv (init_viewer rnd)"
proof -
  have "field_ok (new_visualizer rnd)"
    unfolding new_visualizer_def by (rule createParticleSystem_field_ok) (simp_all add: vis_fields_def)
  moreover have "particleCount (new_visualizer rnd) = 2000" "\<not> pulseEffect (new_visualizer rnd)"
    by (simp_all add: new_visualizer_def createParticleSystem_def Let_def vis_fields_def)
  ultimately show ?thesis by (simp add: viewer_inv_def init_viewer_def)
qed

lemma viewer_step_inv:
  assumes inv: "viewer_inv v" and st: "viewer_step v e = Some w"
  shows "viewer_inv w"
proof (cases e)
  case (Frame audio c rnd)
  show ?thesis
  proof (cases "audio = None \<or> \<not> isRunning (vstate v)")
    case True
    with st Frame inv show ?thesis
      by (auto simp: viewer_step_def update_def viewer_inv_def split: option.splits)
  next
    case False
    then obtain a where a: "audio = Some a" and R: "isRunning (vstate v)" by auto
    from st Frame a obtain t sched where U: "update (Some a) c rnd (vstate v) = Some (t, sched)"
      and w: "w = \<lparr>vstate = t, pendingDecays = pendingDecays v + (if sched then 1 else 0)\<rparr>"
      by (auto simp: viewer_step_def)
    from U R obtain bassB midB trebleB where
      sched: "sched = snd (gesture_stage c a ((vstate v)\<lparr>time := vis.time (vstate v) + 0.01,
          bassIntensity := bassB * 2, midIntensity := midB * 1.5, trebleIntensity := trebleB * 1.2\<rparr>))"
      and keeps: "frame_keeps (fst (gesture_stage c a ((vstate v)\<lparr>time := vis.time (vstate v) + 0.01,
          bassIntensity := bassB * 2, midIntensity := midB * 1.5, trebleIntensity := trebleB * 1.2\<rparr>))) t"
      by (rule update_SomeE)
    let ?s1 = "(vstate v)\<lparr>time := vis.time (vstate v) + 0.01,
          bassIntensity := bassB * 2, midIntensity := midB * 1.5, trebleIntensity := trebleB * 1.2\<rparr>"
    have f1: "field_ok ?s1" using inv by (simp add: viewer_inv_def field_ok_def)
    then have "field_ok (fst (gesture_stage c a ?s1))" using gesture_stage_frame by blast
    then have ft: "field_ok t" "particleCount t = particleCount (fst (gesture_stage c a ?s1))"
      using keeps by (simp_all add: frame_keeps_def)
    have "particleCount (fst (gesture_stage c a ?s1)) = particleCount (vstate v)"
      using gesture_stage_frame [of c a ?s1] by simp
    moreover have "pulseEffect t = pulseEffect (fst (gesture_stage c a ?s1))"
      "pulseIntensity t = pulseIntensity (fst (gesture_stage c a ?s1))"
      using keeps by (simp_all add: frame_keeps_def)
    moreover note gesture_stage_pulse [of ?s1 c a]
    ultimately show ?thesis using inv ft sched
      by (auto simp: viewer_inv_def w)
  qed
next
  case DecayCallback
  with st inv have P: "pendingDecays v = 1" "pulseEffect (vstate v)"
    by (auto simp: viewer_step_def viewer_inv_def split: if_splits)
  with st DecayCallback have w: "w = \<lparr>vstate = fst (decayPulse (vstate v)),
      pendingDecays = (if snd (decayPulse (vstate v)) then 1 else 0)\<rparr>"
    by (simp add: viewer_step_def Let_def)
  have "snd (decayPulse (vstate v)) \<longrightarrow> pulseIntensity (fst (decayPulse (vstate v))) > 0.1"
    by (simp add: decayPulse_def Let_def)
  with inv P show ?thesis
    by (simp add: w viewer_inv_def field_ok_def decayPulse_frame decayPulse_effect)
qed (use st inv in \<open>auto simp: viewer_step_def viewer_inv_def field_ok_def setVisualMode_def
        toggleRadialSymmetry_def toggleTrailEffect_def start_def stop_def\<close>)

lemma reachable_viewer_inv: "reachable v \<Longrightarrow> viewer_inv v"
  by (induction rule: reachable.induct) (auto intro: init_viewer_inv viewer_step_inv)

subsection \<open>Properties of frames and of the viewer\<close>

text \<open>
  C3.  Freeze: in a frame whose gesture commands say \<open>freeze\<close>, no particle moves
  and no velocity changes; the frame only recomputes colours and sizes
  (\<open>updateParticleColors\<close>), moves the camera and, with radial symmetry on, rewrites
  the drawn position buffer.
\<close>

theorem frozen_frame_keeps_particles:
  assumes "update (Some a) (Some c) rnd s = Some (t, sched)" "freeze c"
  shows "particlePositions t = particlePositions s \<and> particleVelocities t = particleVelocities s"
proof (cases "isRunning s")
  case True
  show ?thesis
    by (rule update_SomeE [OF assms(1) True]) (simp add: gesture_stage_frozen assms(2))
next
  case False
  with assms(1) show ?thesis by (simp add: update_def)
qed

theorem frozen_frame_witness:
  "\<exists>r. update (Some (steady_audio 128)) (Some \<lparr>freeze = True, pulse = False, colorPalette = 0\<rparr>)
         (\<lambda>_. 0) (one_particle vzero) = Some r \<and>
       particlePositions (fst r) = particlePositions (one_particle vzero) \<and>
       particleVelocities (fst r) = particleVelocities (one_particle vzero)"
proof -
  have "update (Some (steady_audio 128)) (Some \<lparr>freeze = True, pulse = False, colorPalette = 0\<rparr>)
         (\<lambda>_. 0) (one_particle vzero) \<noteq> None"
    by (simp add: update_def steady_audio_def band_def one_particle_def vis_fields_def
        gesture_stage_def processGestureCommands_def updateCameraShake_def particle_stage_def
        updateParticleColors_def particle_colour_def current_palette_def colorPalettes_def
        paletteNames_def freq_value_def ta_get_def freq_index_def store_colour_def updateCamera_def
        Let_def)
  then obtain r where r: "update (Some (steady_audio 128)) (Some \<lparr>freeze = True, pulse = False, colorPalette = 0\<rparr>)
         (\<lambda>_. 0) (one_particle vzero) = Some r" by blast
  have "freeze \<lparr>freeze = True, pulse = False, colorPalette = 0\<rparr>" by simp
  with r frozen_frame_keeps_particles [of "steady_audio 128" _ "\<lambda>_. 0" "one_particle vzero" "fst r" "snd r"]
  show ?thesis by auto
qed



text \<open>
  C5.  One pulse at a time: in every reachable state at most one \<open>decayPulse\<close>
  callback is pending, there is one exactly while \<open>pulseEffect\<close> is set, and then the
  intensity is above the cut-off 0.1.  A pulse command during a pulse is ignored, so two
  decay chains never run together.
\<close>

theorem reachable_single_decay_chain:
  "reachable v \<Longrightarrow> pendingDecays v \<le> 1 \<and> (pendingDecays v = 1 \<longleftrightarrow> pulseEffect (vstate v)) \<and>
     (pulseEffect (vstate v) \<longrightarrow> 0.1 < pulseIntensity (vstate v))"
  using reachable_viewer_inv by (simp add: viewer_inv_def)

theorem reachable_single_decay_chain_witness:
  "pendingDecays (init_viewer (\<lambda>_. 0)) \<le> 1 \<and>
   (pendingDecays (init_viewer (\<lambda>_. 0)) = 1 \<longleftrightarrow> pulseEffect (vstate (init_viewer (\<lambda>_. 0))))"
  using reachable_single_decay_chain [OF reachable.init [of "\<lambda>_. 0"]] by simp

end
