(* ===== verification/PresetManager.thy ===== *)
theory PresetManager
  imports Visualizer
begin

text \<open>
  \<open>PresetManager\<close> (src/audio-engine.js, lines 484-844): five presets of the
  visualizer, keyboard shortcuts and the eased transition of the camera radius.  The
  manager writes the visualizer's fields directly (\<open>applyPresetImmediate\<close>) and
  animates a transition with a \<open>requestAnimationFrame\<close> callback, which is a pending
  event of the state \<open>pm_app\<close> here, the clock \<open>Date.now()\<close> being its argument.
  Icons are kept as their Unicode code points.  Renderer calls (\<open>setClearColor\<close>) are
  not modelled; the notification and the highlighted button are in the theory
  \<open>Overlays\<close>, over a model of the page.
\<close>

record preset =
  p_name :: string
  p_description :: string
  p_visualMode :: visual_mode
  p_trailEffect :: bool
  p_trailOpacity :: real
  p_radialSymmetry :: bool
  p_cameraRadius :: real
  p_particleCount :: nat
  p_icon :: "nat list"

record preset_manager =
  currentPreset :: string
  isTransitioning :: bool
  transitionDuration :: int
  transitionStart :: int

text \<open>The manager, the visualizer it drives, and the pending \<open>animate\<close> closure
  with what it captured: the target preset and the initial radius.\<close>

record pm_app =
  mgr :: preset_manager
  view :: vis
  pendingAnimate :: "(preset \<times> real) option"

definition presets :: "string \<Rightarrow> preset option" where
  "presets =
     [''cosmic'' \<mapsto> \<lparr>p_name = ''Cosmic'', p_description = ''Spiral galaxy particles'',
        p_visualMode = Cosmic, p_trailEffect = True, p_trailOpacity = 0.15,
        p_radialSymmetry = False, p_cameraRadius = 150, p_particleCount = 2000,
        p_icon = [127756]\<rparr>,
      ''neural'' \<mapsto> \<lparr>p_name = ''Neural'', p_description = ''Connected node network'',
        p_visualMode = Neural, p_trailEffect = False, p_trailOpacity = 1.0,
        p_radialSymmetry = False, p_cameraRadius = 180, p_particleCount = 2000,
        p_icon = [129504]\<rparr>,
      ''pulse'' \<mapsto> \<lparr>p_name = ''Pulse'', p_description = ''Expanding rings from center'',
        p_visualMode = PulseMode, p_trailEffect = True, p_trailOpacity = 0.2,
        p_radialSymmetry = False, p_cameraRadius = 140, p_particleCount = 2000,
        p_icon = [128171]\<rparr>,
      ''chaos'' \<mapsto> \<lparr>p_name = ''Chaos'', p_description = ''Erratic particle swarm'',
        p_visualMode = Chaos, p_trailEffect = True, p_trailOpacity = 0.1,
        p_radialSymmetry = False, p_cameraRadius = 160, p_particleCount = 2000,
        p_icon = [9889]\<rparr>,
      ''minimal'' \<mapsto> \<lparr>p_name = ''Minimal'', p_description = ''Clean frequency bars'',
        p_visualMode = Minimal, p_trailEffect = False, p_trailOpacity = 1.0,
        p_radialSymmetry = False, p_cameraRadius = 200, p_particleCount = 2000,
        p_icon = [128202]\<rparr>]"

text \<open>\<open>Object.keys(this.presets)\<close>, in insertion order.\<close>

definition presetNames :: "string list" where
  "presetNames = [''cosmic'', ''neural'', ''pulse'', ''chaos'', ''minimal'']"

definition keyMap :: "string \<Rightarrow> string option" where
  "keyMap =
     [''1'' \<mapsto> ''cosmic'', ''2'' \<mapsto> ''neural'', ''3'' \<mapsto> ''pulse'', ''4'' \<mapsto> ''chaos'',
      ''5'' \<mapsto> ''minimal'', ''t'' \<mapsto> ''toggleTrail'', ''k'' \<mapsto> ''toggleKaleidoscope'',
      ''r'' \<mapsto> ''randomize'']"

definition new_preset_manager :: preset_manager where
  "new_preset_manager =
     \<lparr>currentPreset = ''cosmic'', isTransitioning = False, transitionDuration = 1000,
      transitionStart = 0\<rparr>"

text \<open>\<open>String.prototype.toLowerCase\<close> on the 8-bit characters: ASCII and Latin-1
  capitals (but the multiplication sign) move up by 32.\<close>

definition lower_char :: "char \<Rightarrow> char" where
  "lower_char c =
     (let n = (of_char c :: nat)
      in if 65 \<le> n \<and> n \<le> 90 \<or> 192 \<le> n \<and> n \<le> 222 \<and> n \<noteq> 215 then char_of (n + 32) else c)"

definition toLowerCase :: "string \<Rightarrow> string" where
  "toLowerCase s = map lower_char s"

subsection \<open>Applying a preset\<close>

definition applyPresetImmediate :: "preset \<Rightarrow> vis \<Rightarrow> vis" where
  "applyPresetImmediate p v =
     (setVisualMode (p_visualMode p) v)\<lparr>trailEffect := p_trailEffect p,
        trailOpacity := p_trailOpacity p, radialSymmetry := p_radialSymmetry p,
        cameraRadius := p_cameraRadius p\<rparr>"

text \<open>The ease-in-out curve of \<open>smoothTransition\<close>.\<close>

definition eased :: "real \<Rightarrow> real" where
  "eased progress =
     (if progress < 0.5 then 2 * progress * progress else 1 - (-2 * progress + 2)\<^sup>2 / 2)"

text \<open>One run of the \<open>animate\<close> closure at time \<open>now\<close>: the new state, and whether it
  called \<open>requestAnimationFrame(animate)\<close> again.\<close>

definition animate :: "preset \<Rightarrow> real \<Rightarrow> int \<Rightarrow> pm_app \<Rightarrow> pm_app" where
  "animate targetPreset initialRadius now a =
     (let elapsed = now - transitionStart (mgr a);
          progress = min (real_of_int elapsed / real_of_int (transitionDuration (mgr a))) 1;
          v = (view a)\<lparr>cameraRadius := initialRadius +
                         (p_cameraRadius targetPreset - initialRadius) * eased progress\<rparr>
      in if progress < 1
         then a\<lparr>view := v, pendingAnimate := Some (targetPreset, initialRadius)\<rparr>
         else a\<lparr>mgr := (mgr a)\<lparr>isTransitioning := False\<rparr>,
                view := applyPresetImmediate targetPreset v, pendingAnimate := None\<rparr>)"

definition smoothTransition :: "preset \<Rightarrow> int \<Rightarrow> pm_app \<Rightarrow> pm_app" where
  "smoothTransition targetPreset now a =
     (let a1 = a\<lparr>mgr := (mgr a)\<lparr>isTransitioning := True, transitionStart := now\<rparr>\<rparr>
      in animate targetPreset (cameraRadius (view a)) now a1)"

text \<open>What \<open>applyPreset\<close> did: it may log an unknown name, or log that a transition is
  running, and return; otherwise it switches.\<close>

datatype apply_outcome = PresetNotFound | TransitionBusy | Switched

definition applyPreset :: "string \<Rightarrow> bool \<Rightarrow> int \<Rightarrow> pm_app \<Rightarrow> apply_outcome \<times> pm_app" where
  "applyPreset presetName animateFlag now a =
     (case presets presetName of
        None \<Rightarrow> (PresetNotFound, a)
      | Some p \<Rightarrow>
          if isTransitioning (mgr a) then (TransitionBusy, a)
          else let previousPreset = currentPreset (mgr a);
                   a1 = a\<lparr>mgr := (mgr a)\<lparr>currentPreset := presetName\<rparr>\<rparr>
               in (Switched,
                   if animateFlag \<and> previousPreset \<noteq> presetName then smoothTransition p now a1
                   else a1\<lparr>view := applyPresetImmediate p (view a1)\<rparr>))"

text \<open>\<open>presetNames[Math.floor(Math.random() * presetNames.length)]\<close>; the draw \<open>r\<close>
  is in \<open>[0, 1)\<close>.\<close>

definition randomizePreset :: "real \<Rightarrow> int \<Rightarrow> pm_app \<Rightarrow> apply_outcome \<times> pm_app" where
  "randomizePreset r now a =
     applyPreset (presetNames ! nat \<lfloor>r * real (length presetNames)\<rfloor>) True now a"

text \<open>A key press: the key, the tag of the focused element, the random draw a
  \<open>randomize\<close> would use, and the clock.\<close>

definition handleKeyPress :: "string \<Rightarrow> string \<Rightarrow> real \<Rightarrow> int \<Rightarrow> pm_app \<Rightarrow> pm_app" where
  "handleKeyPress eventKey tagName r now a =
     (let key = toLowerCase eventKey
      in if tagName = ''INPUT'' \<or> tagName = ''TEXTAREA'' then a
         else case keyMap key of
           None \<Rightarrow> a
         | Some action \<Rightarrow>
             if action = ''toggleTrail'' then a\<lparr>view := toggleTrailEffect (view a)\<rparr>
             else if action = ''toggleKaleidoscope'' then a\<lparr>view := toggleRadialSymmetry (view a)\<rparr>
             else if action = ''randomize'' then snd (randomizePreset r now a)
             else if presets action \<noteq> None then snd (applyPreset action True now a)
             else a)"

text \<open>\<open>updatePresetDisplay\<close>: the icon and name shown, and the opacities of the trail
  and symmetry indicators.\<close>

record preset_display =
  shownIcon :: "nat list"
  shownName :: string
  trailIndicator :: string
  symmetryIndicator :: string

definition updatePresetDisplay :: "pm_app \<Rightarrow> preset_display option" where
  "updatePresetDisplay a =
     map_option (\<lambda>p. \<lparr>shownIcon = p_icon p, shownName = p_name p,
                       trailIndicator = (if trailEffect (view a) then ''1'' else ''0.3''),
                       symmetryIndicator = (if radialSymmetry (view a) then ''1'' else ''0.3'')\<rparr>)
       (presets (currentPreset (mgr a)))"

subsection \<open>The manager as a state machine\<close>

datatype pm_event =
    KeyPress string string real int
  | PresetButton string int
  | AnimateFrame int

definition pm_step :: "pm_app \<Rightarrow> pm_event \<Rightarrow> pm_app option" where
  "pm_step a e =
     (case e of
        KeyPress k tag r now \<Rightarrow> Some (handleKeyPress k tag r now a)
      | PresetButton name now \<Rightarrow> Some (snd (applyPreset name True now a))
      | AnimateFrame now \<Rightarrow>
          (case pendingAnimate a of None \<Rightarrow> None
           | Some (p, r0) \<Rightarrow> Some (animate p r0 now a)))"

text \<open>Start-up: \<open>init\<close> applies \<open>cosmic\<close> without animation.\<close>

definition init_pm_app :: "vis \<Rightarrow> pm_app" where
  "init_pm_app v =
     snd (applyPreset ''cosmic'' False 0 \<lparr>mgr = new_preset_manager, view = v, pendingAnimate = None\<rparr>)"

text \<open>The clock of an event; \<open>Date.now()\<close> is assumed not to run backwards.\<close>

definition event_time :: "pm_event \<Rightarrow> int" where
  "event_time e = (case e of KeyPress _ _ _ now \<Rightarrow> now | PresetButton _ now \<Rightarrow> now | AnimateFrame now \<Rightarrow> now)"

text \<open>States reached from start-up on the visualizer \<open>v\<close>, the last clock reading being \<open>t\<close>.\<close>

inductive pm_reachable :: "vis \<Rightarrow> int \<Rightarrow> pm_app \<Rightarrow> bool" where
  init: "0 \<le> t \<Longrightarrow> pm_reachable v t (init_pm_app v)"
| step: "pm_reachable v t a \<Longrightarrow> t \<le> event_time e \<Longrightarrow> pm_step a e = Some b \<Longrightarrow>
         pm_reachable v (event_time e) b"

text \<open>The visualizer with the five fields the manager writes set to fixed values:
  two states that agree on it differ at most in what presets and toggles write.\<close>

definition preset_blind :: "vis \<Rightarrow> vis" where
  "preset_blind w = w\<lparr>visualMode := Cosmic, trailEffect := False, trailOpacity := 0,
                       radialSymmetry := False, cameraRadius := 0\<rparr>"

definition pm_inv :: "vis \<Rightarrow> int \<Rightarrow> pm_app \<Rightarrow> bool" where
  "pm_inv v t a \<longleftrightarrow>
     transitionDuration (mgr a) = 1000 \<and> transitionStart (mgr a) \<le> t \<and>
     (pendingAnimate a = None \<longleftrightarrow> \<not> isTransitioning (mgr a)) \<and>
     preset_blind (view a) = preset_blind v \<and>
     (case pendingAnimate a of
        None \<Rightarrow>
          (case presets (currentPreset (mgr a)) of None \<Rightarrow> False
           | Some p \<Rightarrow> visualMode (view a) = p_visualMode p \<and> cameraRadius (view a) = p_cameraRadius p)
      | Some pr \<Rightarrow>
          presets (currentPreset (mgr a)) = Some (fst pr) \<and>
          min (snd pr) (p_cameraRadius (fst pr)) \<le> cameraRadius (view a) \<and>
          cameraRadius (view a) \<le> max (snd pr) (p_cameraRadius (fst pr)))"

subsection \<open>Lemmas\<close>

lemma eased_bounds:
  assumes "0 \<le> x" "x \<le> 1"
  shows "0 \<le> eased x \<and> eased x \<le> 1"
proof (cases "x < 0.5")
  case True
  then show ?thesis using assms mult_mono [of x "0.5" x "0.5"] by (simp add: eased_def)
next
  case False
  have "0 \<le> -2 * x + 2" "-2 * x + 2 \<le> 1" using assms False by linarith+
  then have "(-2 * x + 2)\<^sup>2 \<le> 1" by (simp add: power_le_one)
  with False show ?thesis by (simp add: eased_def)
qed

lemma eased_0 [simp]: "eased 0 = 0" and eased_1 [simp]: "eased 1 = 1"
  by (simp_all add: eased_def)

lemma between_interp:
  fixes e r0 r1 :: real
  assumes "0 \<le> e" "e \<le> 1"
  shows "min r0 r1 \<le> r0 + (r1 - r0) * e \<and> r0 + (r1 - r0) * e \<le> max r0 r1"
proof (cases "r0 \<le> r1")
  case True
  then have "0 \<le> (r1 - r0) * e" "(r1 - r0) * e \<le> r1 - r0"
    using assms mult_left_mono [of e 1 "r1 - r0"] by simp_all
  with True show ?thesis by simp
next
  case False
  have "r1 - r0 \<le> 0" using False by simp
  moreover have "0 \<le> 1 - e" using assms by simp
  ultimately have "(r1 - r0) * e \<le> 0" "(r1 - r0) * (1 - e) \<le> 0"
    using assms(1) by (simp_all only: mult_nonpos_nonneg)
  moreover have "(r1 - r0) * (1 - e) = (r1 - r0) - (r1 - r0) * e" by (simp add: algebra_simps)
  ultimately have "(r1 - r0) * e \<le> 0" "r1 - r0 \<le> (r1 - r0) * e" by linarith+
  moreover have "min r0 r1 = r1" "max r0 r1 = r0" using False by simp_all
  ultimately show ?thesis by linarith
qed

lemma preset_blind_upd [simp]:
  "preset_blind (w\<lparr>cameraRadius := r\<rparr>) = preset_blind w"
  "preset_blind (applyPresetImmediate p w) = preset_blind w"
  "preset_blind (toggleTrailEffect w) = preset_blind w"
  "preset_blind (toggleRadialSymmetry w) = preset_blind w"
  by (simp_all add: preset_blind_def applyPresetImmediate_def setVisualMode_def
                    toggleTrailEffect_def toggleRadialSymmetry_def)

lemma applyPresetImmediate_sel [simp]:
  "visualMode (applyPresetImmediate p w) = p_visualMode p"
  "cameraRadius (applyPresetImmediate p w) = p_cameraRadius p"
  "trailEffect (applyPresetImmediate p w) = p_trailEffect p"
  "radialSymmetry (applyPresetImmediate p w) = p_radialSymmetry p"
  by (simp_all add: applyPresetImmediate_def setVisualMode_def)

lemma toggle_sel [simp]:
  "visualMode (toggleTrailEffect w) = visualMode w"
  "cameraRadius (toggleTrailEffect w) = cameraRadius w"
  "visualMode (toggleRadialSymmetry w) = visualMode w"
  "cameraRadius (toggleRadialSymmetry w) = cameraRadius w"
  by (simp_all add: toggleTrailEffect_def toggleRadialSymmetry_def)

lemma pm_inv_mono: "pm_inv v t a \<Longrightarrow> t \<le> t' \<Longrightarrow> pm_inv v t' a"
  by (simp add: pm_inv_def)

lemma pm_inv_current:
  assumes "pm_inv v t a"
  obtains p where "presets (currentPreset (mgr a)) = Some p"
  using assms by (auto simp: pm_inv_def split: option.splits)

lemma animate_inv:
  assumes inv: "pm_inv v t a" and pend: "pendingAnimate a = Some (p, r0)" and le: "t \<le> now"
  shows "pm_inv v now (animate p r0 now a)"
proof -
  have cur: "presets (currentPreset (mgr a)) = Some p" and tr: "isTransitioning (mgr a)"
    and dur: "transitionDuration (mgr a) = 1000"
    and st: "transitionStart (mgr a) \<le> t" and bl: "preset_blind (view a) = preset_blind v"
    using inv pend by (simp_all add: pm_inv_def)
  define prog where
    "prog = min (real_of_int (now - transitionStart (mgr a)) / real_of_int (transitionDuration (mgr a))) 1"
  have "0 \<le> prog" "prog \<le> 1" using dur st le by (simp_all add: prog_def)
  then have e: "0 \<le> eased prog" "eased prog \<le> 1" using eased_bounds by blast+
  note mid = between_interp [OF e, of r0 "p_cameraRadius p"]
  show ?thesis
  proof (cases "prog < 1")
    case True
    then show ?thesis using cur tr dur st le bl pend mid
      unfolding animate_def Let_def prog_def [symmetric] by (simp add: pm_inv_def)
  next
    case False
    then show ?thesis using cur dur st le bl
      unfolding animate_def Let_def prog_def [symmetric] by (simp add: pm_inv_def)
  qed
qed

lemma applyPreset_inv:
  assumes inv: "pm_inv v t a" and le: "t \<le> now"
  shows "pm_inv v now (snd (applyPreset n f now a))"
proof (cases "presets n")
  case None
  then show ?thesis using pm_inv_mono [OF inv le] by (simp add: applyPreset_def)
next
  case (Some p)
  show ?thesis
  proof (cases "isTransitioning (mgr a)")
    case True
    then show ?thesis using Some pm_inv_mono [OF inv le] by (simp add: applyPreset_def)
  next
    case False
    have pend: "pendingAnimate a = None" and dur: "transitionDuration (mgr a) = 1000"
      and st: "transitionStart (mgr a) \<le> t" and bl: "preset_blind (view a) = preset_blind v"
      using inv False by (simp_all add: pm_inv_def)
    show ?thesis
    proof (cases "f \<and> currentPreset (mgr a) \<noteq> n")
      case True
      then show ?thesis using Some False pend dur bl
        by (simp add: applyPreset_def smoothTransition_def animate_def pm_inv_def Let_def)
    next
      case nf: False
      then show ?thesis using Some False pend dur st le bl
        by (auto simp: applyPreset_def pm_inv_def)
    qed
  qed
qed

lemma handleKeyPress_inv:
  assumes inv: "pm_inv v t a" and le: "t \<le> now"
  shows "pm_inv v now (handleKeyPress k tag r now a)"
proof -
  have toggles: "pm_inv v now (a\<lparr>view := toggleTrailEffect (view a)\<rparr>)"
                "pm_inv v now (a\<lparr>view := toggleRadialSymmetry (view a)\<rparr>)"
    using pm_inv_mono [OF inv le] by (auto simp: pm_inv_def split: option.splits)
  show ?thesis
    using toggles pm_inv_mono [OF inv le] applyPreset_inv [OF inv le]
    by (simp add: handleKeyPress_def randomizePreset_def Let_def split: option.split)
qed

lemma pm_step_inv:
  assumes "pm_inv v t a" "t \<le> event_time e" "pm_step a e = Some b"
  shows "pm_inv v (event_time e) b"
  using assms
  by (cases e) (auto simp: pm_step_def event_time_def handleKeyPress_inv applyPreset_inv
                     animate_inv split: option.splits)

lemma init_pm_app_inv: "0 \<le> t \<Longrightarrow> pm_inv v t (init_pm_app v)"
  by (simp add: init_pm_app_def applyPreset_def new_preset_manager_def pm_inv_def presets_def)

lemma pm_reachable_inv: "pm_reachable v t a \<Longrightarrow> pm_inv v t a"
  by (induction rule: pm_reachable.induct) (auto intro: init_pm_app_inv pm_step_inv)

lemma animate_done:
  assumes "transitionDuration (mgr a) = 1000" "transitionStart (mgr a) + 1000 \<le> now"
  shows "\<not> isTransitioning (mgr (animate p r0 now a)) \<and> pendingAnimate (animate p r0 now a) = None \<and>
         visualMode (view (animate p r0 now a)) = p_visualMode p \<and>
         cameraRadius (view (animate p r0 now a)) = p_cameraRadius p"
proof -
  have "1 \<le> real_of_int (now - transitionStart (mgr a)) / 1000" using assms(2) by simp
  then show ?thesis using assms(1) by (simp add: animate_def Let_def)
qed

lemma eased_mono:
  assumes "0 \<le> x" "x \<le> y" "y \<le> 1"
  shows "eased x \<le> eased y"
proof -
  have sq: "a * a \<le> b * b" if "0 \<le> a" "a \<le> b" for a b :: real
    using mult_mono [OF that(2) that(2)] that by simp
  consider "y < 0.5" | "x < 0.5" "\<not> y < 0.5" | "\<not> x < 0.5" by linarith
  then show ?thesis
  proof cases
    case 1
    then show ?thesis using sq [of x y] assms by (simp add: eased_def)
  next
    case 2
    have "2 * x * x \<le> 2 * 0.5 * 0.5" using sq [of x "0.5"] assms 2 by simp
    moreover have "0.5 \<le> eased y" using eased_bounds [of y] assms 2
      sq [of "-2 * y + 2" 1] by (simp add: eased_def power2_eq_square)
    ultimately show ?thesis using 2 by (simp add: eased_def)
  next
    case 3
    have "(-2 * y + 2) * (-2 * y + 2) \<le> (-2 * x + 2) * (-2 * x + 2)"
      using sq [of "-2 * y + 2" "-2 * x + 2"] assms by simp
    then show ?thesis using 3 assms by (simp add: eased_def power2_eq_square)
  qed
qed

subsection \<open>Properties of the preset manager\<close>

text \<open>
  C6.  Presets only touch their own fields, and the camera radius is always between
  the two radii of a transition: in every reachable state the manager has changed the
  visualizer only in its mode, trail, trail opacity, symmetry and camera radius; while a
  transition from radius \<open>r0\<close> to a preset is pending the radius lies between the two;
  with none pending the visualizer shows the current preset's mode and radius.
\<close>

theorem pm_reachable_presets_consistent:
  assumes "pm_reachable v t a"
  shows "preset_blind (view a) = preset_blind v \<and>
         (pendingAnimate a = Some (p, r0) \<longrightarrow>
            min r0 (p_cameraRadius p) \<le> cameraRadius (view a) \<and>
            cameraRadius (view a) \<le> max r0 (p_cameraRadius p)) \<and>
         (pendingAnimate a = None \<longrightarrow>
            (\<exists>q. presets (currentPreset (mgr a)) = Some q \<and> visualMode (view a) = p_visualMode q \<and>
                 cameraRadius (view a) = p_cameraRadius q))"
  using pm_reachable_inv [OF assms] by (auto simp: pm_inv_def split: option.splits)

theorem pm_reachable_presets_consistent_witness:
  "preset_blind (view (init_pm_app vis_fields)) = preset_blind vis_fields \<and>
   visualMode (view (init_pm_app vis_fields)) = Cosmic"
proof -
  have "pm_reachable vis_fields 0 (init_pm_app vis_fields)" by (rule pm_reachable.init) simp
  from pm_reachable_presets_consistent [OF this, of "the (presets ''cosmic'')" 150]
  show ?thesis by (simp add: init_pm_app_def applyPreset_def new_preset_manager_def presets_def)
qed

text \<open>
  C7.  A transition ends: from every reachable state with an \<open>animate\<close> callback
  pending, the first animation frame at least \<open>transitionDuration\<close> (1000 ms) after the
  transition started runs the callback to its end: no callback is pending any more, the
  lock is released, and the visualizer has the target preset's mode and radius.
\<close>

theorem pm_transition_completes:
  assumes "pm_reachable v t a" "pendingAnimate a = Some (p, r0)"
    and "transitionStart (mgr a) + 1000 \<le> now"
  shows "\<exists>b. pm_step a (AnimateFrame now) = Some b \<and> pendingAnimate b = None \<and>
             \<not> isTransitioning (mgr b) \<and> visualMode (view b) = p_visualMode p \<and>
             cameraRadius (view b) = p_cameraRadius p"
proof -
  have "transitionDuration (mgr a) = 1000" using pm_reachable_inv [OF assms(1)] by (simp add: pm_inv_def)
  then show ?thesis using assms(2) animate_done [OF _ assms(3)] by (simp add: pm_step_def)
qed

theorem pm_transition_completes_witness:
  "\<exists>b. pm_step (snd (applyPreset ''chaos'' True 10 (init_pm_app vis_fields))) (AnimateFrame 1010) = Some b \<and>
       pendingAnimate b = None \<and> visualMode (view b) = Chaos \<and> cameraRadius (view b) = 160"
proof -
  let ?a = "snd (applyPreset ''chaos'' True 10 (init_pm_app vis_fields))"
  have r0: "pm_reachable vis_fields 0 (init_pm_app vis_fields)" by (rule pm_reachable.init) simp
  have "pm_step (init_pm_app vis_fields) (PresetButton ''chaos'' 10) = Some ?a"
    by (simp add: pm_step_def)
  from pm_reachable.step [OF r0 _ this] have r: "pm_reachable vis_fields 10 ?a"
    by (simp add: event_time_def)
  have facts: "pendingAnimate ?a = Some (the (presets ''chaos''), 150)" "transitionStart (mgr ?a) + 1000 \<le> 1010"
    by (simp_all add: init_pm_app_def applyPreset_def new_preset_manager_def presets_def
                      smoothTransition_def animate_def applyPresetImmediate_def setVisualMode_def
                      vis_fields_def)
  from pm_transition_completes [OF r facts] show ?thesis by (simp add: presets_def) blast
qed

text \<open>
  C8.  A preset switch is not instantaneous, and requests during it are lost: switching
  to another preset with animation sets \<open>currentPreset\<close> at once but leaves the
  visualizer in its old mode until the transition ends (the particle rule changes only
  after 1000 ms), and while it runs every further \<open>applyPreset\<close> returns without
  effect.
\<close>

theorem preset_switch_deferred:
  assumes "pm_reachable v t a" "\<not> isTransitioning (mgr a)" "presets n = Some p"
    and "currentPreset (mgr a) \<noteq> n"
  shows "fst (applyPreset n True now a) = Switched \<and>
         currentPreset (mgr (snd (applyPreset n True now a))) = n \<and>
         visualMode (view (snd (applyPreset n True now a))) = visualMode (view a) \<and>
         snd (applyPreset m f now' (snd (applyPreset n True now a))) = snd (applyPreset n True now a)"
proof -
  have "transitionDuration (mgr a) = 1000" using pm_reachable_inv [OF assms(1)] by (simp add: pm_inv_def)
  then show ?thesis using assms(2-4)
    by (simp add: applyPreset_def smoothTransition_def animate_def Let_def split: option.split)
qed

theorem preset_switch_deferred_witness:
  "visualMode (view (snd (applyPreset ''chaos'' True 10 (init_pm_app vis_fields)))) = Cosmic \<and>
   snd (applyPreset ''minimal'' True 20 (snd (applyPreset ''chaos'' True 10 (init_pm_app vis_fields)))) =
     snd (applyPreset ''chaos'' True 10 (init_pm_app vis_fields))"
proof -
  have r: "pm_reachable vis_fields 0 (init_pm_app vis_fields)" by (rule pm_reachable.init) simp
  have h: "\<not> isTransitioning (mgr (init_pm_app vis_fields))" "presets ''chaos'' = Some (the (presets ''chaos''))"
    "currentPreset (mgr (init_pm_app vis_fields)) \<noteq> ''chaos''"
    by (simp_all add: init_pm_app_def applyPreset_def new_preset_manager_def presets_def)
  from preset_switch_deferred [OF r h, of 10 "''minimal''" True 20] show ?thesis
    by (simp add: init_pm_app_def applyPreset_def new_preset_manager_def presets_def
                  applyPresetImmediate_def setVisualMode_def)
qed

text \<open>
  C9.  The ease-in-out curve of a transition stays in \<open>[0, 1]\<close> and never goes back:
  on \<open>[0, 1]\<close> it is monotone, from 0 at the start to 1 at the end, so the camera
  radius moves from the old to the new value without overshoot.
\<close>

theorem eased_monotone_bounded:
  assumes "0 \<le> x" "x \<le> y" "y \<le> 1"
  shows "0 \<le> eased x \<and> eased x \<le> eased y \<and> eased y \<le> 1 \<and> eased 0 = 0 \<and> eased 1 = 1"
  using eased_bounds [of x] eased_bounds [of y] eased_mono [OF assms] assms by simp

theorem eased_monotone_bounded_witness:
  "0 \<le> eased 0.25 \<and> eased 0.25 \<le> eased 0.75 \<and> eased 0.75 \<le> 1"
  using eased_monotone_bounded [of "0.25" "0.75"] by simp

text \<open>
  \<open>randomizePreset\<close> always names an existing preset: for every draw of
  \<open>Math.random()\<close> in \<open>[0, 1)\<close> the index \<open>floor(r * 5)\<close> is one of the five names,
  so \<open>applyPreset\<close> never reports an unknown preset.
\<close>

theorem randomizePreset_valid:
  assumes "0 \<le> r" "r < 1"
  shows "fst (randomizePreset r now a) \<noteq> PresetNotFound"
proof -
  have valid: "presets (presetNames ! k) \<noteq> None" if k5: "k < 5" for k
  proof -
    have "k = 0 \<or> k = 1 \<or> k = 2 \<or> k = 3 \<or> k = 4" using k5 by presburger
    then show ?thesis by (elim disjE) (simp_all add: presetNames_def presets_def)
  qed
  have "nat \<lfloor>r * 5\<rfloor> < 5" using assms by linarith
  then have "presets (presetNames ! nat \<lfloor>r * 5\<rfloor>) \<noteq> None" by (rule valid)
  then show ?thesis
    by (auto simp: randomizePreset_def applyPreset_def presetNames_def Let_def split: option.split)
qed

theorem randomizePreset_valid_witness:
  "0 \<le> (0.5::real) \<and> (0.5::real) < 1 \<and>
   fst (randomizePreset 0.5 0 (init_pm_app vis_fields)) \<noteq> PresetNotFound"
  using randomizePreset_valid [of "0.5" 0 "init_pm_app vis_fields"] by simp

end
