(* ===== verification/BeatDetector.thy ===== *)
theory BeatDetector
  imports Prelude
begin

text \<open>
  The adaptive-threshold beat detector of \<open>AudioEngine\<close> (src/audio-engine.js):
  its configuration and state fields (constructor, lines 19-24) and
  \<open>detectBeat\<close> (lines 219-238).  The detector is called once per frame with the
  raw mean magnitude of the spectrum (a number in \<open>[0, 255]\<close>) and the clock
  \<open>Date.now()\<close> in integer milliseconds.  A run of calls is the list of
  \<open>(now, average)\<close> inputs of successive frames.
\<close>

record beat_config =
  beatThreshold :: real
  beatDecayRate :: real
  beatMinInterval :: int

record beat_state =
  lastBeatTime :: int
  currentBeat :: real

definition default_beat_config :: beat_config where
  "default_beat_config = \<lparr>beatThreshold = 1.3, beatDecayRate = 0.98, beatMinInterval = 200\<rparr>"

definition init_beat_state :: beat_state where
  "init_beat_state = \<lparr>lastBeatTime = 0, currentBeat = 0\<rparr>"

definition detectBeat :: "beat_config \<Rightarrow> int \<Rightarrow> real \<Rightarrow> beat_state \<Rightarrow> bool \<times> beat_state" where
  "detectBeat cfg now currentAverage s =
     (let fire = (now - lastBeatTime s > beatMinInterval cfg
                  \<and> currentAverage > currentBeat s * beatThreshold cfg);
          s1 = (if fire then s\<lparr>lastBeatTime := now, currentBeat := currentAverage\<rparr> else s);
          decayed = currentBeat s1 * beatDecayRate cfg
      in (fire, s1\<lparr>currentBeat := max decayed (currentAverage * 0.5)\<rparr>))"

text \<open>Successive calls, one per frame, threading the detector's state.\<close>

fun beat_run :: "beat_config \<Rightarrow> beat_state \<Rightarrow> (int \<times> real) list \<Rightarrow> bool list \<times> beat_state" where
  "beat_run cfg s [] = ([], s)"
| "beat_run cfg s ((now, a) # ins) =
     (let r = detectBeat cfg now a s; rest = beat_run cfg (snd r) ins in (fst r # fst rest, snd rest))"

definition level_ok :: "beat_state \<Rightarrow> bool" where
  "level_ok s \<longleftrightarrow> 0 \<le> currentBeat s \<and> currentBeat s \<le> 255"

definition config_ok :: "beat_config \<Rightarrow> bool" where
  "config_ok cfg \<longleftrightarrow> 0 \<le> beatDecayRate cfg \<and> beatDecayRate cfg \<le> 1 \<and> 0 \<le> beatMinInterval cfg"

text \<open>The detector of the specification (section 4.1), on averages normalised to
  \<open>[0, 1]\<close>: a beat fires when \<^emph>\<open>at least\<close> the minimum interval has elapsed, and the
  running level is returned as the intensity.  \<open>beat_abs\<close> reads the code's state on
  that scale.\<close>

record spec_beat =
  sLast :: int
  sLevel :: real

definition spec_detect :: "beat_config \<Rightarrow> int \<Rightarrow> real \<Rightarrow> spec_beat \<Rightarrow> (bool \<times> real) \<times> spec_beat" where
  "spec_detect cfg now a st =
     (let fire = (now - sLast st \<ge> beatMinInterval cfg \<and> a > sLevel st * beatThreshold cfg);
          st1 = (if fire then st\<lparr>sLast := now, sLevel := a\<rparr> else st);
          st2 = st1\<lparr>sLevel := max (sLevel st1 * beatDecayRate cfg) (a * 0.5)\<rparr>
      in ((fire, sLevel st2), st2))"

definition beat_abs :: "beat_state \<Rightarrow> spec_beat" where
  "beat_abs s = \<lparr>sLast = lastBeatTime s, sLevel = currentBeat s / 255\<rparr>"

subsection \<open>One call\<close>

lemma detectBeat_fire_iff:
  "fst (detectBeat cfg now a s) \<longleftrightarrow>
     now - lastBeatTime s > beatMinInterval cfg \<and> a > currentBeat s * beatThreshold cfg"
  by (simp add: detectBeat_def Let_def)

lemma detectBeat_lastBeatTime:
  "lastBeatTime (snd (detectBeat cfg now a s)) =
     (if fst (detectBeat cfg now a s) then now else lastBeatTime s)"
  by (simp add: detectBeat_def Let_def)

lemma detectBeat_currentBeat:
  "currentBeat (snd (detectBeat cfg now a s)) =
     max ((if fst (detectBeat cfg now a s) then a else currentBeat s) * beatDecayRate cfg) (a * 0.5)"
  by (simp add: detectBeat_def Let_def)

lemma detectBeat_gap:
  "fst (detectBeat cfg now a s) \<Longrightarrow> now - lastBeatTime s > beatMinInterval cfg"
  by (simp add: detectBeat_fire_iff)

lemma detectBeat_quiet:
  "\<not> fst (detectBeat cfg now a s) \<Longrightarrow>
   snd (detectBeat cfg now a s) = s\<lparr>currentBeat := max (currentBeat s * beatDecayRate cfg) (a * 0.5)\<rparr>"
  by (auto simp: detectBeat_def Let_def)

lemmas detectBeat_facts = detectBeat_fire_iff detectBeat_lastBeatTime detectBeat_currentBeat

lemma detectBeat_level_ok:
  assumes "config_ok cfg" "level_ok s" "0 \<le> a" "a \<le> 255"
  shows "level_ok (snd (detectBeat cfg now a s))"
proof -
  let ?c = "if fst (detectBeat cfg now a s) then a else currentBeat s"
  have c: "0 \<le> ?c" "?c \<le> 255" using assms by (auto simp: level_ok_def)
  have "?c * beatDecayRate cfg \<le> ?c" using c assms(1)
    by (simp add: config_ok_def mult_left_le)
  moreover have "0 \<le> ?c * beatDecayRate cfg" using c assms(1) by (simp add: config_ok_def)
  ultimately show ?thesis using c assms(3,4)
    by (simp add: level_ok_def detectBeat_currentBeat)
qed

subsection \<open>Runs of calls\<close>

lemma beat_run_Cons_fst [simp]:
  "fst (beat_run cfg s ((now, a) # ins)) =
     fst (detectBeat cfg now a s) # fst (beat_run cfg (snd (detectBeat cfg now a s)) ins)"
  by (simp add: Let_def)

lemma beat_run_length [simp]: "length (fst (beat_run cfg s ins)) = length ins"
  by (induction cfg s ins rule: beat_run.induct) (simp_all add: Let_def)

lemma beat_run_Cons_snd [simp]:
  "snd (beat_run cfg s ((now, a) # ins)) = snd (beat_run cfg (snd (detectBeat cfg now a s)) ins)"
  by (simp add: Let_def)

declare beat_run.simps(2) [simp del]

text \<open>
  The spacing lemma: every beat of a run comes more than \<open>beatMinInterval\<close> after
  the time the run starts from, and any two beats of the run are more than
  \<open>beatMinInterval\<close> apart.  The clock need not be monotonic.
\<close>

lemma beat_run_spacing:
  assumes "0 \<le> beatMinInterval cfg"
  shows "(\<forall>j < length ins. fst (beat_run cfg s ins) ! j \<longrightarrow>
            fst (ins ! j) - lastBeatTime s > beatMinInterval cfg)
       \<and> (\<forall>i j. i < j \<longrightarrow> j < length ins \<longrightarrow> fst (beat_run cfg s ins) ! i \<longrightarrow>
            fst (beat_run cfg s ins) ! j \<longrightarrow> fst (ins ! j) - fst (ins ! i) > beatMinInterval cfg)"
proof (induction ins arbitrary: s)
  case Nil
  then show ?case by simp
next
  case (Cons x ins)
  obtain now a where x: "x = (now, a)" by fastforce
  let ?s' = "snd (detectBeat cfg now a s)"
  let ?b = "fst (detectBeat cfg now a s)"
  have IH1: "\<And>j. j < length ins \<Longrightarrow> fst (beat_run cfg ?s' ins) ! j \<Longrightarrow>
               fst (ins ! j) - lastBeatTime ?s' > beatMinInterval cfg"
    using Cons.IH by blast
  have IH2: "\<And>i j. i < j \<Longrightarrow> j < length ins \<Longrightarrow> fst (beat_run cfg ?s' ins) ! i \<Longrightarrow>
               fst (beat_run cfg ?s' ins) ! j \<Longrightarrow> fst (ins ! j) - fst (ins ! i) > beatMinInterval cfg"
    using Cons.IH by blast
  have first: "\<And>j. j < length ins \<Longrightarrow> fst (beat_run cfg ?s' ins) ! j \<Longrightarrow>
                 fst (ins ! j) - lastBeatTime s > beatMinInterval cfg"
  proof -
    fix j assume j: "j < length ins" "fst (beat_run cfg ?s' ins) ! j"
    show "fst (ins ! j) - lastBeatTime s > beatMinInterval cfg"
    proof (cases ?b)
      case True
      with detectBeat_gap [OF True] IH1 [OF j] assms show ?thesis
        by (simp add: detectBeat_lastBeatTime)
    next
      case False
      with IH1 [OF j] show ?thesis by (simp add: detectBeat_lastBeatTime)
    qed
  qed
  show ?case
  proof (intro conjI allI impI)
    fix j assume "j < length (x # ins)" "fst (beat_run cfg s (x # ins)) ! j"
    then show "fst ((x # ins) ! j) - lastBeatTime s > beatMinInterval cfg"
      using first detectBeat_gap
      by (cases j) (auto simp: x beat_run_Cons_fst)
  next
    fix i j assume ij: "i < j" "j < length (x # ins)"
      and bi: "fst (beat_run cfg s (x # ins)) ! i" and bj: "fst (beat_run cfg s (x # ins)) ! j"
    obtain j' where j': "j = Suc j'" using ij by (cases j) auto
    show "fst ((x # ins) ! j) - fst ((x # ins) ! i) > beatMinInterval cfg"
    proof (cases i)
      case 0
      with bi have "?b" by (simp add: x beat_run_Cons_fst)
      moreover from bj j' have "fst (beat_run cfg ?s' ins) ! j'" by (simp add: x beat_run_Cons_fst)
      ultimately show ?thesis using IH1 [of j'] ij j' 0
        by (simp add: x detectBeat_lastBeatTime)
    next
      case (Suc i')
      with bi bj j' ij IH2 [of i' j'] show ?thesis by (simp add: x beat_run_Cons_fst)
    qed
  qed
qed

lemma beat_run_level_ok:
  "config_ok cfg \<Longrightarrow> level_ok s \<Longrightarrow> \<forall>(t, a) \<in> set ins. 0 \<le> a \<and> a \<le> 255 \<Longrightarrow>
   level_ok (snd (beat_run cfg s ins))"
proof (induction ins arbitrary: s)
  case Nil
  then show ?case by simp
next
  case (Cons x ins)
  obtain now a where x: "x = (now, a)" by fastforce
  with Cons.prems have "level_ok (snd (detectBeat cfg now a s))"
    by (auto intro: detectBeat_level_ok)
  with Cons x show ?case by (simp add: beat_run_Cons_snd)
qed

subsection \<open>Constant input\<close>

text \<open>
  After a beat at a constant level \<open>a > 0\<close>, the running level is \<open>0.98 * a\<close> and
  decays by \<open>0.98\<close> per quiet call; it stays above the floor \<open>a / 2\<close>, and the
  threshold test \<open>a > level * 1.3\<close> fails for twelve calls and succeeds at the
  thirteenth, since \<open>0.98 ^ 12 * 1.3 > 1 > 0.98 ^ 13 * 1.3\<close>.
\<close>

lemma decay_power_bounds:
  "k \<le> 12 \<Longrightarrow> 1 \<le> (1.3::real) * 0.98 ^ k"
  "(1.3::real) * 0.98 ^ 13 < 1"
  "k \<le> 13 \<Longrightarrow> (0.5::real) \<le> 0.98 ^ k"
proof -
  assume "k \<le> 12"
  then have "(0.98::real) ^ 12 \<le> 0.98 ^ k" by (rule power_decreasing) simp_all
  moreover have "1 \<le> (1.3::real) * 0.98 ^ 12" by (simp add: power_divide)
  ultimately show "1 \<le> (1.3::real) * 0.98 ^ k" by linarith
next
  show "(1.3::real) * 0.98 ^ 13 < 1" by (simp add: power_divide)
next
  assume "k \<le> 13"
  then have "(0.98::real) ^ 13 \<le> 0.98 ^ k" by (rule power_decreasing) simp_all
  moreover have "(0.5::real) \<le> 0.98 ^ 13" by (simp add: power_divide)
  ultimately show "(0.5::real) \<le> 0.98 ^ k" by linarith
qed

lemma constant_quiet_calls:
  assumes "0 < a" "m + length ts \<le> 12" "currentBeat s = a * 0.98 ^ Suc m"
  shows "beat_run default_beat_config s (map (\<lambda>t. (t, a)) ts) =
           (replicate (length ts) False, s\<lparr>currentBeat := a * 0.98 ^ Suc (m + length ts)\<rparr>)"
  using assms(2,3)
proof (induction ts arbitrary: m s)
  case Nil
  then show ?case by simp
next
  case (Cons t ts)
  have "1 \<le> (1.3::real) * 0.98 ^ Suc m"
    using Cons.prems(1) by (intro decay_power_bounds(1)) simp
  then have "a \<le> a * ((1.3::real) * 0.98 ^ Suc m)"
    using assms(1) by (simp add: mult_le_cancel_left1)
  moreover have "currentBeat s * beatThreshold default_beat_config = a * ((1.3::real) * 0.98 ^ Suc m)"
    using Cons.prems(2) by (simp add: default_beat_config_def ac_simps)
  ultimately have nofire: "\<not> fst (detectBeat default_beat_config t a s)"
    by (simp add: detectBeat_fire_iff)
  have "(0.5::real) \<le> 0.98 ^ Suc (Suc m)"
    using Cons.prems(1) by (intro decay_power_bounds(3)) simp
  then have "a * 0.5 \<le> a * 0.98 ^ Suc (Suc m)"
    using assms(1) by (intro mult_left_mono) simp_all
  moreover have "currentBeat s * beatDecayRate default_beat_config = a * 0.98 ^ Suc (Suc m)"
    using Cons.prems(2) by (simp add: default_beat_config_def ac_simps)
  ultimately have s': "snd (detectBeat default_beat_config t a s) = s\<lparr>currentBeat := a * 0.98 ^ Suc (Suc m)\<rparr>"
    using detectBeat_quiet [OF nofire] by (simp add: max_def del: power_Suc)
  have "beat_run default_beat_config (s\<lparr>currentBeat := a * 0.98 ^ Suc (Suc m)\<rparr>) (map (\<lambda>t. (t, a)) ts) =
          (replicate (length ts) False,
           s\<lparr>currentBeat := a * 0.98 ^ Suc (Suc m + length ts)\<rparr>)"
    using Cons.IH [of "Suc m"] Cons.prems(1) by simp
  then show ?case using nofire s' by (simp add: prod_eq_iff)
qed

lemma beat_run_append:
  "beat_run cfg s (xs @ ys) =
     (fst (beat_run cfg s xs) @ fst (beat_run cfg (snd (beat_run cfg s xs)) ys),
      snd (beat_run cfg (snd (beat_run cfg s xs)) ys))"
proof (induction xs arbitrary: s)
  case Nil
  then show ?case by simp
next
  case (Cons x xs)
  obtain now a where x: "x = (now, a)" by fastforce
  show ?case using Cons.IH [of "snd (detectBeat cfg now a s)"] by (simp add: x prod_eq_iff)
qed

subsection \<open>Properties of the beat detector\<close>

text \<open>
  C21.  Beats are spaced: in any run of frames, any two detected beats are more than
  \<open>beatMinInterval\<close> (200 ms) apart, whatever the input levels and even if the clock
  were not monotonic.
\<close>

theorem beats_min_spacing:
  assumes "i < j" "j < length ins"
    and "fst (beat_run default_beat_config s ins) ! i" "fst (beat_run default_beat_config s ins) ! j"
  shows "fst (ins ! j) - fst (ins ! i) > 200"
proof -
  have "0 \<le> beatMinInterval default_beat_config" by (simp add: default_beat_config_def)
  from beat_run_spacing [OF this, where s = s and ins = ins] assms show ?thesis
    by (simp add: default_beat_config_def)
qed

theorem beats_min_spacing_witness:
  "fst (beat_run default_beat_config init_beat_state [(1000, 100), (1300, 200)]) ! 0 \<and>
   fst (beat_run default_beat_config init_beat_state [(1000, 100), (1300, 200)]) ! 1 \<and>
   fst ([(1000, 100), (1300, 200)] ! 1) - fst ([(1000::int, 100::real), (1300, 200)] ! 0) > 200"
proof -
  have b: "fst (beat_run default_beat_config init_beat_state [(1000, 100), (1300, 200)]) ! 0"
          "fst (beat_run default_beat_config init_beat_state [(1000, 100), (1300, 200)]) ! 1"
    by (simp_all add: beat_run.simps detectBeat_def default_beat_config_def init_beat_state_def)
  from beats_min_spacing [where i = 0 and j = 1 and ins = "[(1000, 100), (1300, 200)]"
         and s = init_beat_state, OF _ _ b] b show ?thesis by simp
qed

text \<open>
  C22.  A steady level keeps producing beats, so the running level does not converge
  to the input as the design notes claim: right after a beat at level \<open>a > 0\<close>,
  feeding the same level every 16 ms (60 frames per second) gives twelve quiet frames,
  during which the level decays to \<open>a * 0.98 ^ 13 < a / 1.3\<close>, and a new beat at the
  thirteenth frame (208 ms later), after which the state is the same as after the first
  beat; the pattern repeats for as long as the level lasts.
\<close>

theorem constant_input_refires:
  assumes "0 < a" "currentBeat s = a * 0.98"
  shows "beat_run default_beat_config s (map (\<lambda>k. (lastBeatTime s + 16 * int k, a)) [1..<14]) =
           (replicate 12 False @ [True], s\<lparr>lastBeatTime := lastBeatTime s + 208, currentBeat := a * 0.98\<rparr>)"
proof -
  let ?t0 = "lastBeatTime s"
  have split: "map (\<lambda>k. (?t0 + 16 * int k, a)) [1..<14] =
               map (\<lambda>t. (t, a)) (map (\<lambda>k. ?t0 + 16 * int k) [1..<13]) @ [(?t0 + 208, a)]"
    by (simp add: upt_rec)
  have quiet: "beat_run default_beat_config s (map (\<lambda>t. (t, a)) (map (\<lambda>k. ?t0 + 16 * int k) [1..<13])) =
                 (replicate 12 False, s\<lparr>currentBeat := a * 0.98 ^ Suc 12\<rparr>)"
    using constant_quiet_calls [OF assms(1), of 0 "map (\<lambda>k. ?t0 + 16 * int k) [1..<13]" s] assms(2)
    by simp
  have "a * ((1.3::real) * 0.98 ^ 13) < a * 1"
    using decay_power_bounds(2) assms(1) by (intro mult_strict_left_mono) simp_all
  then have fire: "a > a * 0.98 ^ Suc 12 * 1.3" by (simp add: ac_simps)
  have "a * 0.5 \<le> a * 0.98" using assms(1) by simp
  then show ?thesis
    unfolding split beat_run_append quiet
    using fire by (simp add: beat_run.simps detectBeat_def default_beat_config_def Let_def max_def
                        del: power_Suc)
qed

theorem constant_input_refires_witness:
  "fst (beat_run default_beat_config \<lparr>lastBeatTime = 1000, currentBeat = 98\<rparr>
          (map (\<lambda>k. (1000 + 16 * int k, 100)) [1..<14])) = replicate 12 False @ [True]"
proof -
  have "(0::real) < 100" "currentBeat \<lparr>lastBeatTime = 1000, currentBeat = 98\<rparr> = 100 * 0.98" by simp_all
  from constant_input_refires [OF this] show ?thesis by simp
qed

text \<open>
  C23.  A beat exactly \<open>beatMinInterval\<close> after the last one is suppressed: the code
  tests \<open>now - lastBeatTime > 200\<close>, while the design asks for at least 200 ms to have
  elapsed.
\<close>

theorem beat_at_exact_interval_suppressed:
  "\<not> fst (detectBeat default_beat_config (lastBeatTime s + 200) a s)"
  by (simp add: detectBeat_fire_iff default_beat_config_def)

text \<open>
  Silence never fires: from any state with a level in \<open>[0, 255]\<close>, a run of
  frames with average 0 detects no beat, and the level stays in range.
\<close>

theorem silence_never_fires:
  assumes "level_ok s"
  shows "fst (beat_run default_beat_config s (map (\<lambda>t. (t, 0)) ts)) = replicate (length ts) False"
  using assms
proof (induction ts arbitrary: s)
  case Nil
  then show ?case by simp
next
  case (Cons t ts)
  have nofire: "\<not> fst (detectBeat default_beat_config t 0 s)"
    using Cons.prems by (simp add: detectBeat_fire_iff level_ok_def default_beat_config_def)
  have "level_ok (snd (detectBeat default_beat_config t 0 s))"
    by (rule detectBeat_level_ok) (use Cons.prems in \<open>simp_all add: config_ok_def default_beat_config_def\<close>)
  with Cons.IH nofire show ?case by simp
qed

theorem silence_never_fires_witness:
  "fst (beat_run default_beat_config init_beat_state (map (\<lambda>t. (t, 0)) [500, 1000, 1500])) = [False, False, False]"
proof -
  have "level_ok init_beat_state" by (simp add: level_ok_def init_beat_state_def)
  from silence_never_fires [OF this, of "[500, 1000, 1500]"] show ?thesis by simp
qed

lemma max_div_255: "max (x / 255) (y / 255) = max x y / (255::real)"
  by (simp add: max_def divide_right_mono)

text \<open>C39: the code refines the specified detector: fed the raw average, \<open>detectBeat\<close>
  gives the beat flag and the normalised intensity the specification gives for the
  normalised average, and its new state reads as the specification's new state, on every
  frame that does not fall exactly \<open>beatMinInterval\<close> after the last beat.\<close>

theorem detectBeat_refines_spec:
  assumes "now - lastBeatTime s \<noteq> beatMinInterval cfg"
  shows "spec_detect cfg now (a / 255) (beat_abs s) =
         ((fst (detectBeat cfg now a s), currentBeat (snd (detectBeat cfg now a s)) / 255),
          beat_abs (snd (detectBeat cfg now a s)))"
proof -
  have iff: "a / 255 > currentBeat s / 255 * beatThreshold cfg \<longleftrightarrow> a > currentBeat s * beatThreshold cfg"
    by (simp add: divide_simps)
  have ge: "now - lastBeatTime s \<ge> beatMinInterval cfg \<longleftrightarrow> now - lastBeatTime s > beatMinInterval cfg"
    using assms by auto
  have m1: "max (a / 255 * beatDecayRate cfg) (a / 255 * 0.5) = max (a * beatDecayRate cfg) (a * 0.5) / 255"
    and m2: "max (currentBeat s / 255 * beatDecayRate cfg) (a / 255 * 0.5) =
             max (currentBeat s * beatDecayRate cfg) (a * 0.5) / 255"
    using max_div_255 by (simp_all add: mult.commute mult.left_commute)
  show ?thesis
    using iff ge m1 m2 by (simp add: spec_detect_def detectBeat_def beat_abs_def Let_def)
qed

theorem detectBeat_refines_spec_witness:
  "spec_detect default_beat_config 1000 (100 / 255) (beat_abs init_beat_state) =
   ((True, 98 / 255), beat_abs \<lparr>lastBeatTime = 1000, currentBeat = 98\<rparr>)"
proof -
  have "spec_detect default_beat_config 1000 (100 / 255) (beat_abs init_beat_state) =
        ((fst (detectBeat default_beat_config 1000 100 init_beat_state),
          currentBeat (snd (detectBeat default_beat_config 1000 100 init_beat_state)) / 255),
         beat_abs (snd (detectBeat default_beat_config 1000 100 init_beat_state)))"
    by (rule detectBeat_refines_spec) (simp add: init_beat_state_def default_beat_config_def)
  then show ?thesis
    by (simp add: detectBeat_def init_beat_state_def default_beat_config_def Let_def)
qed

end
