(* ===== verification/AudioEngine.thy ===== *)
theory AudioEngine
  imports BeatDetector Interfaces
begin

text \<open>
  \<open>AudioEngine\<close> (src/audio-engine.js, lines 5-278): the Web Audio context and
  analyser, the audio source (a file through the page's audio element, or the
  microphone), and the per-frame feature extraction \<open>getFrequencyData\<close> with
  \<open>detectBeat\<close> (theory \<open>BeatDetector\<close>) and \<open>extractFrequencyBands\<close>.

  The browser objects the engine holds are records of the properties the code reads or
  sets.  Two facts of the Web Audio and media APIs matter for the code and are part of
  the model: \<open>createMediaElementSource\<close> throws \<open>InvalidStateError\<close> for an audio element
  that already has a source node, and a microphone stream captures until its tracks are
  stopped (the browser's set of live streams is the field \<open>liveStreams\<close>).  An
  exception is \<open>Inl\<close> of the error together with the state at the throw, since the
  mutations before it persist.  \<open>toggleMicrophone\<close> is \<open>async\<close>: its start branch waits
  for \<open>getUserMedia\<close>, so it is a request and a later completion (theory part below).
\<close>

datatype ctx_state = Suspended | Running

record audio_context =
  ctxState :: ctx_state
  sampleRate :: real

record analyser_node =
  fftSize :: nat
  smoothingTimeConstant :: real
  toDestination :: bool

record media_element =
  elemSrc :: string
  paused :: bool
  currentTime :: real
  hasSourceNode :: bool

datatype source_kind = ElementSource | MicSource nat

text \<open>A source node: its kind and whether it is connected to the analyser.\<close>

record band_range =
  bstart :: real
  bend :: real

record engine =
  audioContext :: "audio_context option"
  analyser :: "analyser_node option"
  dataArray :: "byte list option"
  bufferLength :: "nat option"
  audioElement :: media_element
  sourceNode :: "(source_kind \<times> bool) option"
  micStream :: "nat option"
  isMicActive :: bool
  beatCfg :: beat_config
  beatSt :: beat_state
  frequencyBands :: "(string \<times> band_range) list"
  liveStreams :: "nat list"
  pendingMic :: nat

datatype engine_error = TypeError string | InvalidStateError string

type_synonym 'a engine_result = "(engine_error \<times> engine) + 'a"

subsection \<open>Construction\<close>

definition default_frequencyBands :: "(string \<times> band_range) list" where
  "default_frequencyBands =
     [(''sub'', \<lparr>bstart = 0, bend = 60\<rparr>), (''bass'', \<lparr>bstart = 60, bend = 250\<rparr>),
      (''low'', \<lparr>bstart = 250, bend = 500\<rparr>), (''mid'', \<lparr>bstart = 500, bend = 2000\<rparr>),
      (''high'', \<lparr>bstart = 2000, bend = 4000\<rparr>), (''treble'', \<lparr>bstart = 4000, bend = 8000\<rparr>)]"

text \<open>The fields set by the constructor before \<open>initAudioContext\<close> (lines 6-34).\<close>

definition engine_fields :: engine where
  "engine_fields =
     \<lparr>audioContext = None, analyser = None, dataArray = None, bufferLength = None,
      audioElement = \<lparr>elemSrc = [], paused = True, currentTime = 0, hasSourceNode = False\<rparr>,
      sourceNode = None, micStream = None, isMicActive = False,
      beatCfg = default_beat_config, beatSt = init_beat_state,
      frequencyBands = default_frequencyBands, liveStreams = [], pendingMic = 0\<rparr>"

text \<open>\<open>initAudioContext\<close> (lines 42-61).  \<open>ok\<close> says whether \<open>new AudioContext()\<close>
  succeeds; when it throws, the \<open>catch\<close> only logs.  A new context starts in state
  \<open>cs\<close> (browsers suspend it until a user gesture) at sample rate \<open>sr\<close>.  The
  analyser's \<open>frequencyBinCount\<close> is half its \<open>fftSize\<close>.\<close>

definition initAudioContext :: "bool \<Rightarrow> ctx_state \<Rightarrow> real \<Rightarrow> engine \<Rightarrow> engine" where
  "initAudioContext ok cs sr e =
     (if \<not> ok then e
      else let an = \<lparr>fftSize = 2048, smoothingTimeConstant = 0.8, toDestination = False\<rparr>;
               n = fftSize an div 2
           in e\<lparr>audioContext := Some \<lparr>ctxState = cs, sampleRate = sr\<rparr>, analyser := Some an,
                bufferLength := Some n, dataArray := Some (replicate n 0)\<rparr>)"

definition new_engine :: "bool \<Rightarrow> ctx_state \<Rightarrow> real \<Rightarrow> engine" where
  "new_engine ok cs sr = initAudioContext ok cs sr engine_fields"

subsection \<open>Frequency bands\<close>

text \<open>\<open>sum += this.dataArray[i]\<close> for \<open>startBin \<le> i < endBin\<close>: a read past the array is
  \<open>undefined\<close> and makes the sum \<open>NaN\<close>.\<close>

definition bin_sum :: "byte list \<Rightarrow> int \<Rightarrow> int \<Rightarrow> real option" where
  "bin_sum xs startBin endBin =
     map_option (\<lambda>vs. sum_list (map byte_real vs)) (those (map (ta_get xs) [startBin..endBin - 1]))"

definition band_bins :: "real \<Rightarrow> nat \<Rightarrow> band_range \<Rightarrow> int \<times> int" where
  "band_bins nyquist n r =
     (\<lfloor>bstart r / nyquist * real n\<rfloor>, \<lfloor>bend r / nyquist * real n\<rfloor>)"

definition band_energy :: "byte list \<Rightarrow> real \<Rightarrow> nat \<Rightarrow> band_range \<Rightarrow> real option" where
  "band_energy xs nyquist n r =
     (case band_bins nyquist n r of (startBin, endBin) \<Rightarrow> do {
        s \<leftarrow> bin_sum xs startBin endBin;
        m \<leftarrow> fdiv s (real_of_int (endBin - startBin));
        Some (m / 255) })"

definition extractFrequencyBands :: "engine \<Rightarrow> (string \<times> real option) list option" where
  "extractFrequencyBands e = do {
     ctx \<leftarrow> audioContext e;
     xs \<leftarrow> dataArray e;
     n \<leftarrow> bufferLength e;
     let nyquist = sampleRate ctx / 2;
     Some (map (\<lambda>(name, r). (name, band_energy xs nyquist n r)) (frequencyBands e)) }"

subsection \<open>Per-frame features\<close>

text \<open>\<open>getByteFrequencyData(array)\<close> writes the first \<open>min(array.length, spectrum
  length)\<close> entries and leaves the rest of the array.\<close>

definition copy_into :: "'a list \<Rightarrow> 'a list \<Rightarrow> 'a list" where
  "copy_into dst src = take (length dst) src @ drop (length src) dst"

definition default_audio_data :: audio_data where
  "default_audio_data =
     \<lparr>frequencyData = replicate 1024 0, average = 0, beat = False, beatIntensity = 0,
      bands = [(''sub'', Some 0), (''bass'', Some 0), (''low'', Some 0), (''mid'', Some 0),
               (''high'', Some 0), (''treble'', Some 0)]\<rparr>"

text \<open>\<open>getFrequencyData\<close> (lines 175-213) at clock \<open>now\<close> on the analyser's current
  spectrum: the frame's features and the engine with the copied spectrum and the new
  beat state.  \<open>None\<close> is a thrown \<open>TypeError\<close> (no context, which \<open>initAudioContext\<close>
  never leaves with an analyser) or a non-finite average.\<close>

definition getFrequencyData :: "byte list \<Rightarrow> int \<Rightarrow> engine \<Rightarrow> (audio_data \<times> engine) option" where
  "getFrequencyData spectrum now e =
     (case (analyser e, dataArray e) of
        (Some _, Some arr) \<Rightarrow> do {
          n \<leftarrow> bufferLength e;
          let xs = copy_into arr spectrum;
          let e1 = e\<lparr>dataArray := Some xs\<rparr>;
          avg \<leftarrow> fdiv (sum_list (map byte_real xs)) (real n);
          let r = detectBeat (beatCfg e1) now avg (beatSt e1);
          let e2 = e1\<lparr>beatSt := snd r\<rparr>;
          bs \<leftarrow> extractFrequencyBands e2;
          Some (\<lparr>frequencyData = xs, average = avg / 255, beat = fst r,
                 beatIntensity = currentBeat (snd r) / 255, bands = bs\<rparr>, e2) }
      | _ \<Rightarrow> Some (default_audio_data, e))"

subsection \<open>Sources: file, microphone, playback\<close>

text \<open>\<open>if (this.audioContext.state === 'suspended') this.audioContext.resume()\<close>;
  reading \<open>state\<close> of a null context throws.\<close>

definition resume_if_suspended :: "engine \<Rightarrow> engine engine_result" where
  "resume_if_suspended e =
     (case audioContext e of
        None \<Rightarrow> Inl (TypeError ''audioContext is null'', e)
      | Some c \<Rightarrow> Inr (if ctxState c = Suspended
                      then e\<lparr>audioContext := Some (c\<lparr>ctxState := Running\<rparr>)\<rparr> else e))"

text \<open>The stop branch of \<open>toggleMicrophone\<close> (lines 98-110): it runs to its
  \<open>return false\<close> without waiting.\<close>

definition mic_stop :: "engine \<Rightarrow> engine" where
  "mic_stop e =
     (let e1 = (case micStream e of None \<Rightarrow> e
                | Some k \<Rightarrow> e\<lparr>liveStreams := removeAll k (liveStreams e), micStream := None\<rparr>);
          e2 = (case sourceNode e1 of None \<Rightarrow> e1 | Some _ \<Rightarrow> e1\<lparr>sourceNode := None\<rparr>)
      in e2\<lparr>isMicActive := False\<rparr>)"

text \<open>\<open>toggleMicrophone\<close> as far as it runs synchronously: the stop branch, or the
  call of \<open>getUserMedia\<close>, whose promise is then pending.\<close>

definition toggleMicrophone :: "engine \<Rightarrow> engine" where
  "toggleMicrophone e =
     (if isMicActive e then mic_stop e else e\<lparr>pendingMic := pendingMic e + 1\<rparr>)"

text \<open>The rest of the start branch (lines 115-142) once \<open>getUserMedia\<close> resolves
  with the stream \<open>k\<close>; an exception in it (a null context) lands in the \<open>catch\<close>,
  which only alerts.  When the promise rejects, the \<open>catch\<close> alone runs.\<close>

definition mic_granted :: "nat \<Rightarrow> engine \<Rightarrow> engine" where
  "mic_granted k e =
     (let e0 = e\<lparr>pendingMic := pendingMic e - 1, micStream := Some k, liveStreams := k # liveStreams e\<rparr>
      in case resume_if_suspended e0 of
           Inl (_, e1) \<Rightarrow> e1
         | Inr e1 \<Rightarrow>
             let e2 = (case sourceNode e1 of None \<Rightarrow> e1
                       | Some (kind, _) \<Rightarrow> e1\<lparr>sourceNode := Some (kind, False)\<rparr>);
                 e3 = e2\<lparr>audioElement := (audioElement e2)\<lparr>paused := True\<rparr>\<rparr>
             in e3\<lparr>sourceNode := Some (MicSource k, True), isMicActive := True\<rparr>)"

definition mic_denied :: "engine \<Rightarrow> engine" where
  "mic_denied e = e\<lparr>pendingMic := pendingMic e - 1\<rparr>"

text \<open>\<open>loadAudioFile\<close> (lines 66-92).  \<open>createMediaElementSource\<close> on an element
  that already has a source node throws \<open>InvalidStateError\<close>.\<close>

definition loadAudioFile :: "string \<Rightarrow> engine \<Rightarrow> engine engine_result" where
  "loadAudioFile url e =
     (case resume_if_suspended e of
        Inl r \<Rightarrow> Inl r
      | Inr e1 \<Rightarrow>
          let e2 = (if isMicActive e1 then mic_stop e1 else e1);
              e3 = e2\<lparr>audioElement := (audioElement e2)\<lparr>elemSrc := url\<rparr>\<rparr>;
              e4 = (case sourceNode e3 of None \<Rightarrow> e3
                    | Some (kind, _) \<Rightarrow> e3\<lparr>sourceNode := Some (kind, False)\<rparr>)
          in if hasSourceNode (audioElement e4)
             then Inl (InvalidStateError ''element already has a source node'', e4)
             else let e5 = e4\<lparr>audioElement := (audioElement e4)\<lparr>hasSourceNode := True\<rparr>,
                              sourceNode := Some (ElementSource, False)\<rparr>
                  in case analyser e5 of
                       None \<Rightarrow> Inl (TypeError ''analyser is null'', e5)
                     | Some an \<Rightarrow> Inr (e5\<lparr>sourceNode := Some (ElementSource, True),
                                          analyser := Some (an\<lparr>toDestination := True\<rparr>)\<rparr>))"

definition play :: "engine \<Rightarrow> engine engine_result" where
  "play e =
     (case resume_if_suspended e of
        Inl r \<Rightarrow> Inl r
      | Inr e1 \<Rightarrow> Inr (e1\<lparr>audioElement := (audioElement e1)\<lparr>paused := False\<rparr>\<rparr>))"

definition stop_audio :: "engine \<Rightarrow> engine" where
  "stop_audio e = e\<lparr>audioElement := (audioElement e)\<lparr>paused := True, currentTime := 0\<rparr>\<rparr>"

subsection \<open>The engine as a state machine\<close>

datatype engine_event =
    LoadFile string
  | ToggleMic
  | MicGranted nat
  | MicDenied
  | PlayAudio
  | StopAudio
  | AnalyseFrame "byte list" int

text \<open>A thrown exception ends the handler; the state it leaves is the next state.
  A completion needs a pending request, and a granted stream is a new one.\<close>

definition result_state :: "engine engine_result \<Rightarrow> engine" where
  "result_state r = (case r of Inl (_, e) \<Rightarrow> e | Inr e \<Rightarrow> e)"

definition engine_step :: "engine \<Rightarrow> engine_event \<Rightarrow> engine option" where
  "engine_step e ev =
     (case ev of
        LoadFile url \<Rightarrow> Some (result_state (loadAudioFile url e))
      | ToggleMic \<Rightarrow> Some (toggleMicrophone e)
      | MicGranted k \<Rightarrow>
          if pendingMic e = 0 \<or> k \<in> set (liveStreams e) then None else Some (mic_granted k e)
      | MicDenied \<Rightarrow> if pendingMic e = 0 then None else Some (mic_denied e)
      | PlayAudio \<Rightarrow> Some (result_state (play e))
      | StopAudio \<Rightarrow> Some (stop_audio e)
      | AnalyseFrame spectrum now \<Rightarrow> map_option snd (getFrequencyData spectrum now e))"

fun engine_run :: "engine \<Rightarrow> engine_event list \<Rightarrow> engine option" where
  "engine_run e [] = Some e"
| "engine_run e (ev # evs) = (case engine_step e ev of None \<Rightarrow> None | Some e' \<Rightarrow> engine_run e' evs)"

inductive engine_reachable :: "engine \<Rightarrow> bool" where
  init: "engine_reachable (new_engine ok cs sr)"
| step: "engine_reachable e \<Longrightarrow> engine_step e ev = Some e' \<Longrightarrow> engine_reachable e'"

text \<open>What holds of the engine in every reachable state.\<close>

definition engine_inv :: "engine \<Rightarrow> bool" where
  "engine_inv e \<longleftrightarrow>
     beatCfg e = default_beat_config \<and> level_ok (beatSt e) \<and>
     frequencyBands e = default_frequencyBands \<and>
     (analyser e \<noteq> None \<longrightarrow> audioContext e \<noteq> None \<and> bufferLength e = Some 1024 \<and>
        (\<exists>xs. dataArray e = Some xs \<and> length xs = 1024)) \<and>
     (isMicActive e \<longrightarrow> audioContext e \<noteq> None \<and>
        (\<exists>k. micStream e = Some k \<and> sourceNode e = Some (MicSource k, True) \<and> k \<in> set (liveStreams e)))"

subsection \<open>Lemmas on the band energies\<close>

lemma bin_sum_in_range:
  assumes "0 \<le> a" "a \<le> b" "b \<le> int (length xs)"
  shows "\<exists>s. bin_sum xs a b = Some s \<and> 0 \<le> s \<and> s \<le> 255 * real_of_int (b - a)"
proof -
  have "\<exists>v. ta_get xs i = Some v" if "i \<in> set [a..b - 1]" for i
    using that assms by (auto simp: ta_get_def)
  then obtain vs where vs: "those (map (ta_get xs) [a..b - 1]) = Some vs"
    using those_map_all_Some by meson
  have "length vs = nat (b - a)" using those_map_length [OF vs] by simp
  then have "real (length vs) = real_of_int (b - a)" using assms(2) by simp
  with vs sum_list_byte_bounds [of vs] show ?thesis by (simp add: bin_sum_def)
qed

lemma bin_sum_past_end:
  assumes "a < b" "int (length xs) < b"
  shows "bin_sum xs a b = None"
proof -
  have "b - 1 \<in> set [a..b - 1]" using assms(1) by simp
  moreover have "ta_get xs (b - 1) = None" using assms(2) by (simp add: ta_get_None)
  ultimately show ?thesis by (simp add: bin_sum_def those_map_None [of "b - 1"])
qed

lemma band_energy_unit:
  assumes "0 \<le> bstart r" "bend r \<le> nyquist" "nyquist / real n \<le> bend r - bstart r"
    and "0 < nyquist" "length xs = n" and n0: "0 < n"
  shows "\<exists>v. band_energy xs nyquist n r = Some v \<and> 0 \<le> v \<and> v \<le> 1"
proof -
  define a where "a = \<lfloor>bstart r / nyquist * real n\<rfloor>"
  define b where "b = \<lfloor>bend r / nyquist * real n\<rfloor>"
  have a0: "0 \<le> a" using assms(1,4) by (simp add: a_def)
  have "bend r / nyquist \<le> 1" using assms(2,4) by simp
  then have "bend r / nyquist * real n \<le> 1 * real n" by (rule mult_right_mono) simp
  then have "bend r / nyquist * real n \<le> real n" by simp
  then have bn: "b \<le> int n" unfolding b_def by linarith
  have "bend r / nyquist * real n - bstart r / nyquist * real n = (bend r - bstart r) / nyquist * real n"
    by (simp add: diff_divide_distrib left_diff_distrib)
  moreover have "1 \<le> (bend r - bstart r) / nyquist * real n"
    using assms(3,4) n0 by (simp add: field_simps)
  ultimately have ab: "a < b" unfolding a_def b_def by linarith
  obtain s where s: "bin_sum xs a b = Some s" "0 \<le> s" "s \<le> 255 * real_of_int (b - a)"
    using bin_sum_in_range [of a b xs] a0 ab bn assms(5) by auto
  have pos: "0 < real_of_int (b - a)" using ab by simp
  have "s / real_of_int (b - a) \<le> 255" using s(3) pos by (simp add: divide_le_eq mult.commute)
  then have v1: "s / real_of_int (b - a) / 255 \<le> 1" by (simp only: divide_le_eq_1) simp
  have v0: "0 \<le> s / real_of_int (b - a) / 255" using s(2) pos by simp
  have "band_energy xs nyquist n r = Some (s / real_of_int (b - a) / 255)"
    using s(1) pos unfolding band_energy_def band_bins_def a_def [symmetric] b_def [symmetric] by simp
  then show ?thesis using v0 v1 by blast
qed

lemma band_energy_empty:
  "\<lfloor>bstart r / nyquist * real n\<rfloor> = \<lfloor>bend r / nyquist * real n\<rfloor> \<Longrightarrow> band_energy xs nyquist n r = None"
  by (simp add: band_energy_def band_bins_def bin_sum_def)

lemma band_energy_past_end:
  "\<lfloor>bstart r / nyquist * real n\<rfloor> < \<lfloor>bend r / nyquist * real n\<rfloor> \<Longrightarrow>
   int (length xs) < \<lfloor>bend r / nyquist * real n\<rfloor> \<Longrightarrow> band_energy xs nyquist n r = None"
  by (simp add: band_energy_def band_bins_def bin_sum_past_end)

lemma extractFrequencyBands_default:
  assumes "audioContext e = Some ctx" "dataArray e = Some xs" "bufferLength e = Some n"
    "frequencyBands e = default_frequencyBands"
  shows "extractFrequencyBands e =
           Some (map (\<lambda>(name, r). (name, band_energy xs (sampleRate ctx / 2) n r)) default_frequencyBands)"
  using assms by (simp add: extractFrequencyBands_def)

lemma new_engine_sel:
  "audioContext (new_engine True cs sr) = Some \<lparr>ctxState = cs, sampleRate = sr\<rparr>"
  "dataArray (new_engine True cs sr) = Some (replicate 1024 0)"
  "bufferLength (new_engine True cs sr) = Some 1024"
  "frequencyBands (new_engine True cs sr) = default_frequencyBands"
  "analyser (new_engine True cs sr) \<noteq> None"
  by (simp_all add: new_engine_def initAudioContext_def engine_fields_def)

subsection \<open>Properties of the band energies\<close>

lemma extractFrequencyBands_unit:
  assumes "audioContext e = Some ctx" "16000 \<le> sampleRate ctx" "sampleRate ctx \<le> 122880"
    and "dataArray e = Some xs" "length xs = 1024" "bufferLength e = Some 1024"
    and "frequencyBands e = default_frequencyBands"
  shows "\<exists>bs. extractFrequencyBands e = Some bs \<and>
              map fst bs = [''sub'', ''bass'', ''low'', ''mid'', ''high'', ''treble''] \<and>
              (\<forall>(name, v) \<in> set bs. \<exists>x. v = Some x \<and> 0 \<le> x \<and> x \<le> 1)"
proof -
  have each: "\<exists>x. band_energy xs (sampleRate ctx / 2) 1024 r = Some x \<and> 0 \<le> x \<and> x \<le> 1"
    if "r \<in> snd ` set default_frequencyBands" for r
  proof (rule band_energy_unit)
    show "0 \<le> bstart r" "bend r \<le> sampleRate ctx / 2"
      "sampleRate ctx / 2 / real 1024 \<le> bend r - bstart r"
      using that assms(2,3) by (auto simp: default_frequencyBands_def)
  qed (use assms(2,5) in simp_all)
  show ?thesis
    using extractFrequencyBands_default [OF assms(1,4,6,7)] each
    by (auto simp: default_frequencyBands_def)
qed

text \<open>
  C11.  Band energies are normalised: at every sample rate from 16 kHz to 122.88 kHz
  (so at 22.05, 44.1, 48, 88.2 and 96 kHz) each of the six bands covers at least one
  bin inside the 1024-bin spectrum, and \<open>extractFrequencyBands\<close> gives the six bands,
  in order, each with a finite energy in \<open>[0, 1]\<close>.
\<close>

theorem bands_unit_interval:
  assumes "audioContext e = Some ctx" "16000 \<le> sampleRate ctx" "sampleRate ctx \<le> 122880"
    and "dataArray e = Some xs" "length xs = 1024" "bufferLength e = Some 1024"
    and "frequencyBands e = default_frequencyBands"
  shows "\<exists>bs. extractFrequencyBands e = Some bs \<and>
              map fst bs = [''sub'', ''bass'', ''low'', ''mid'', ''high'', ''treble''] \<and>
              (\<forall>(name, v) \<in> set bs. \<exists>x. v = Some x \<and> 0 \<le> x \<and> x \<le> 1)"
  using assms by (rule extractFrequencyBands_unit)

theorem bands_unit_interval_witness:
  "\<exists>bs. extractFrequencyBands (new_engine True Running 48000) = Some bs \<and>
        map fst bs = [''sub'', ''bass'', ''low'', ''mid'', ''high'', ''treble''] \<and>
        (\<forall>(name, v) \<in> set bs. \<exists>x. v = Some x \<and> 0 \<le> x \<and> x \<le> 1)"
  by (rule bands_unit_interval [where ctx = "\<lparr>ctxState = Running, sampleRate = 48000\<rparr>"
                                and xs = "replicate 1024 0"]) (simp_all add: new_engine_sel)

text \<open>
  C12.  Outside that range some band is \<open>NaN\<close>, against the documented range
  \<open>[0, 1]\<close>: above 122.88 kHz (176.4 and 192 kHz interfaces) the \<open>sub\<close> band
  \<open>0-60 Hz\<close> covers no bin and its energy is \<open>0 / 0\<close>; at or below about 15.98 kHz
  (8, 11.025 and 12 kHz) the \<open>treble\<close> band reaches past the spectrum and reads
  \<open>undefined\<close>.
\<close>

theorem bands_nan_outside_rates:
  assumes "audioContext e = Some ctx" "dataArray e = Some xs" "length xs = 1024"
    and "bufferLength e = Some 1024" "frequencyBands e = default_frequencyBands"
  shows "\<exists>bs. extractFrequencyBands e = Some bs \<and>
              (122880 < sampleRate ctx \<longrightarrow> map_of bs ''sub'' = Some None) \<and>
              (0 < sampleRate ctx \<and> sampleRate ctx * 1025 \<le> 16384000 \<longrightarrow>
                 map_of bs ''treble'' = Some None)"
proof -
  let ?sr = "sampleRate ctx"
  have sub: "band_energy xs (?sr / 2) 1024 \<lparr>bstart = 0, bend = 60\<rparr> = None" if hi: "122880 < ?sr"
  proof (rule band_energy_empty)
    have "0 \<le> 60 / (?sr / 2) * 1024" "60 / (?sr / 2) * 1024 < 1" using hi by (simp_all add: field_simps)
    then show "\<lfloor>bstart \<lparr>bstart = 0, bend = 60\<rparr> / (?sr / 2) * real 1024\<rfloor> =
               \<lfloor>bend \<lparr>bstart = 0, bend = 60\<rparr> / (?sr / 2) * real 1024\<rfloor>" by (simp add: floor_eq_iff)
  qed
  have treble: "band_energy xs (?sr / 2) 1024 \<lparr>bstart = 4000, bend = 8000\<rparr> = None"
    if lo: "0 < ?sr" "?sr * 1025 \<le> 16384000"
  proof (rule band_energy_past_end)
    have "1025 \<le> 8000 / (?sr / 2) * 1024" using lo by (simp add: field_simps)
    then have e: "1025 \<le> \<lfloor>8000 / (?sr / 2) * 1024\<rfloor>" by linarith
    then show "int (length xs) < \<lfloor>bend \<lparr>bstart = 4000, bend = 8000\<rparr> / (?sr / 2) * real 1024\<rfloor>"
      using assms(3) by simp
    have "8000 / (?sr / 2) * 1024 = 4000 / (?sr / 2) * 1024 + 4000 / (?sr / 2) * 1024" by simp
    moreover have "1 \<le> 4000 / (?sr / 2) * 1024" using lo by (simp add: field_simps)
    ultimately show "\<lfloor>bstart \<lparr>bstart = 4000, bend = 8000\<rparr> / (?sr / 2) * real 1024\<rfloor> <
                     \<lfloor>bend \<lparr>bstart = 4000, bend = 8000\<rparr> / (?sr / 2) * real 1024\<rfloor>" by simp linarith
  qed
  show ?thesis
    using extractFrequencyBands_default [OF assms(1,2,4,5)] sub treble
    by (simp add: default_frequencyBands_def)
qed

theorem bands_nan_outside_rates_witness:
  "\<exists>bs. extractFrequencyBands (new_engine True Running 192000) = Some bs \<and>
        map_of bs ''sub'' = Some None"
proof -
  from bands_nan_outside_rates [of "new_engine True Running 192000"
         "\<lparr>ctxState = Running, sampleRate = 192000\<rparr>" "replicate 1024 0"]
  show ?thesis by (simp add: new_engine_sel)
qed

subsection \<open>Lemmas on the engine\<close>

lemma length_copy_into [simp]: "length (copy_into dst src) = length dst"
  by (simp add: copy_into_def)

lemma resume_if_suspended_cases:
  "resume_if_suspended e = Inl (err, e') \<Longrightarrow> e' = e \<and> audioContext e = None"
  "resume_if_suspended e = Inr e' \<Longrightarrow>
     audioContext e \<noteq> None \<and> audioContext e' \<noteq> None \<and> e' = e\<lparr>audioContext := audioContext e'\<rparr>"
  by (auto simp: resume_if_suspended_def split: option.splits if_splits)

lemma engine_inv_ctx [simp]:
  "audioContext e \<noteq> None \<Longrightarrow> audioContext e' \<noteq> None \<Longrightarrow>
   engine_inv (e\<lparr>audioContext := audioContext e'\<rparr>) = engine_inv e"
  by (simp add: engine_inv_def)

lemma mic_stop_inv: "engine_inv e \<Longrightarrow> engine_inv (mic_stop e)"
  by (simp add: engine_inv_def mic_stop_def Let_def split: option.split)

lemma toggleMicrophone_inv: "engine_inv e \<Longrightarrow> engine_inv (toggleMicrophone e)"
  by (simp add: toggleMicrophone_def mic_stop_inv) (simp add: engine_inv_def)

lemma mic_granted_inv: "engine_inv e \<Longrightarrow> engine_inv (mic_granted k e)"
  by (auto simp: mic_granted_def engine_inv_def resume_if_suspended_def Let_def
           split: option.splits if_splits prod.splits)

lemma loadAudioFile_inv: "engine_inv e \<Longrightarrow> engine_inv (result_state (loadAudioFile url e))"
  by (auto simp: loadAudioFile_def result_state_def engine_inv_def resume_if_suspended_def
                 mic_stop_def Let_def split: option.splits if_splits prod.splits)

lemma play_inv: "engine_inv e \<Longrightarrow> engine_inv (result_state (play e))"
  by (auto simp: play_def result_state_def engine_inv_def resume_if_suspended_def
           split: option.splits if_splits)

lemma stop_audio_inv: "engine_inv e \<Longrightarrow> engine_inv (stop_audio e)"
  by (simp add: stop_audio_def engine_inv_def)

lemma average_bounds:
  assumes "length xs = 1024"
  shows "0 \<le> sum_list (map byte_real xs) / 1024 \<and> sum_list (map byte_real xs) / 1024 \<le> 255"
  using sum_list_byte_bounds [of xs] assms by simp

lemma getFrequencyData_inv:
  assumes inv: "engine_inv e"
  shows "\<exists>a e'. getFrequencyData spectrum now e = Some (a, e') \<and> engine_inv e' \<and>
           length (frequencyData a) = 1024 \<and> 0 \<le> average a \<and> average a \<le> 1 \<and>
           0 \<le> beatIntensity a \<and> beatIntensity a \<le> 1"
proof (cases "analyser e")
  case None
  then show ?thesis using inv by (simp add: getFrequencyData_def default_audio_data_def)
next
  case (Some an)
  with inv obtain xs ctx where xs: "dataArray e = Some xs" "length xs = 1024"
    and n: "bufferLength e = Some 1024" and ctx: "audioContext e = Some ctx"
    and cfg: "beatCfg e = default_beat_config" "level_ok (beatSt e)"
    "frequencyBands e = default_frequencyBands"
    by (auto simp: engine_inv_def)
  let ?xs = "copy_into xs spectrum"
  let ?avg = "sum_list (map byte_real ?xs) / 1024"
  have avg: "0 \<le> ?avg" "?avg \<le> 255" using average_bounds [of ?xs] xs(2) by simp_all
  have lvl: "level_ok (snd (detectBeat default_beat_config now ?avg (beatSt e)))"
    by (rule detectBeat_level_ok) (use avg cfg in \<open>simp_all add: config_ok_def default_beat_config_def\<close>)
  then have "0 \<le> currentBeat (snd (detectBeat default_beat_config now ?avg (beatSt e)))"
    "currentBeat (snd (detectBeat default_beat_config now ?avg (beatSt e))) \<le> 255"
    by (simp_all add: level_ok_def)
  then show ?thesis using Some xs n ctx cfg avg lvl inv
    by (simp add: getFrequencyData_def extractFrequencyBands_def engine_inv_def Let_def)
qed

lemma getFrequencyData_bands:
  assumes inv: "engine_inv e" and fr: "getFrequencyData spectrum now e = Some (a, e')"
    and rate: "\<And>ctx. audioContext e = Some ctx \<Longrightarrow> 16000 \<le> sampleRate ctx \<and> sampleRate ctx \<le> 122880"
  shows "map fst (bands a) = [''sub'', ''bass'', ''low'', ''mid'', ''high'', ''treble''] \<and>
         (\<forall>(name, v) \<in> set (bands a). \<exists>x. v = Some x \<and> 0 \<le> x \<and> x \<le> 1)"
proof (cases "analyser e")
  case None
  then show ?thesis using fr by (auto simp: getFrequencyData_def default_audio_data_def)
next
  case (Some an)
  with inv obtain xs ctx where xs: "dataArray e = Some xs" "length xs = 1024"
    and n: "bufferLength e = Some 1024" and ctx: "audioContext e = Some ctx"
    and fb: "frequencyBands e = default_frequencyBands"
    by (auto simp: engine_inv_def)
  define e2 where "e2 = e\<lparr>dataArray := Some (copy_into xs spectrum),
    beatSt := snd (detectBeat (beatCfg e) now (sum_list (map byte_real (copy_into xs spectrum)) / 1024) (beatSt e))\<rparr>"
  obtain bs where bs: "extractFrequencyBands e2 = Some bs"
    "map fst bs = [''sub'', ''bass'', ''low'', ''mid'', ''high'', ''treble'']"
    "\<forall>(name, v) \<in> set bs. \<exists>x. v = Some x \<and> 0 \<le> x \<and> x \<le> 1"
    using extractFrequencyBands_unit [of e2 ctx "copy_into xs spectrum"] rate [OF ctx] xs n ctx fb
    by (auto simp: e2_def)
  have "bands a = bs"
    using fr Some xs n bs(1) by (auto simp: getFrequencyData_def e2_def Let_def)
  then show ?thesis using bs by simp
qed

lemma mic_denied_inv: "engine_inv e \<Longrightarrow> engine_inv (mic_denied e)"
  by (simp add: mic_denied_def engine_inv_def)

lemma engine_step_inv:
  assumes "engine_inv e" "engine_step e ev = Some e'"
  shows "engine_inv e'"
proof (cases ev)
  case (AnalyseFrame spectrum now)
  with assms getFrequencyData_inv [of e spectrum now] show ?thesis
    by (auto simp: engine_step_def)
qed (use assms in \<open>auto simp: engine_step_def loadAudioFile_inv toggleMicrophone_inv mic_granted_inv
                play_inv stop_audio_inv mic_denied_inv split: if_splits\<close>)

lemma new_engine_inv: "engine_inv (new_engine ok cs sr)"
  by (simp add: new_engine_def initAudioContext_def engine_fields_def engine_inv_def
                init_beat_state_def level_ok_def)

lemma engine_reachable_inv: "engine_reachable e \<Longrightarrow> engine_inv e"
  by (induction rule: engine_reachable.induct) (auto intro: new_engine_inv engine_step_inv)

lemma engine_run_reachable:
  "engine_reachable e \<Longrightarrow> engine_run e evs = Some e' \<Longrightarrow> engine_reachable e'"
proof (induction evs arbitrary: e)
  case Nil
  then show ?case by simp
next
  case (Cons ev evs)
  then obtain e1 where "engine_step e ev = Some e1" "engine_run e1 evs = Some e'"
    by (auto split: option.splits)
  with Cons show ?case by (blast intro: engine_reachable.step)
qed

lemma new_engine_reachable: "engine_reachable (new_engine True Running 48000)"
  by (rule engine_reachable.init)

lemmas engine_eval = new_engine_def initAudioContext_def engine_fields_def engine_step_def
  toggleMicrophone_def mic_granted_def mic_stop_def resume_if_suspended_def loadAudioFile_def
  result_state_def Let_def

subsection \<open>Properties of the engine\<close>

text \<open>
  Every frame's features are finite and normalised: in every reachable state
  of the engine (any interleaving of file loads, microphone toggles and their
  completions, playback and frames) \<open>getFrequencyData\<close> returns, for any spectrum the
  analyser delivers, 1024 bins, an average in \<open>[0, 1]\<close> and a beat intensity in
  \<open>[0, 1]\<close>, also before the analyser exists (the default branch).
\<close>

theorem frame_features_bounded:
  assumes "engine_reachable e"
  shows "\<exists>a e'. getFrequencyData spectrum now e = Some (a, e') \<and> length (frequencyData a) = 1024 \<and>
                0 \<le> average a \<and> average a \<le> 1 \<and> 0 \<le> beatIntensity a \<and> beatIntensity a \<le> 1"
  using getFrequencyData_inv [OF engine_reachable_inv [OF assms]] by blast

theorem frame_features_bounded_witness:
  "\<exists>a e'. getFrequencyData [255] 1000 (new_engine True Running 48000) = Some (a, e') \<and>
          length (frequencyData a) = 1024 \<and> 0 \<le> average a \<and> average a \<le> 1 \<and>
          0 \<le> beatIntensity a \<and> beatIntensity a \<le> 1"
  using frame_features_bounded [OF new_engine_reachable] .

text \<open>
  C14.  A second audio file is never heard: once the audio element has a media source
  node (after the first \<open>loadAudioFile\<close>), \<open>loadAudioFile\<close> disconnects that node and
  then throws \<open>InvalidStateError\<close> from \<open>createMediaElementSource\<close>, leaving no source
  connected to the analyser.
\<close>

theorem second_load_disconnects:
  assumes "engine_reachable e" "hasSourceNode (audioElement e)" "audioContext e \<noteq> None"
  shows "\<exists>msg e'. loadAudioFile url e = Inl (InvalidStateError msg, e') \<and>
                  (\<forall>k. sourceNode e' \<noteq> Some (k, True))"
  using assms(2,3) by (auto simp: loadAudioFile_def resume_if_suspended_def mic_stop_def Let_def
                           split: option.splits)

theorem second_load_disconnects_witness:
  "\<exists>msg e'. loadAudioFile ''b.mp3'' (result_state (loadAudioFile ''a.mp3'' (new_engine True Running 48000))) =
              Inl (InvalidStateError msg, e') \<and> (\<forall>k. sourceNode e' \<noteq> Some (k, True))"
proof -
  let ?e = "result_state (loadAudioFile ''a.mp3'' (new_engine True Running 48000))"
  have "engine_step (new_engine True Running 48000) (LoadFile ''a.mp3'') = Some ?e"
    by (simp add: engine_step_def)
  then have r: "engine_reachable ?e" by (rule engine_reachable.step [OF new_engine_reachable])
  have "hasSourceNode (audioElement ?e)" "audioContext ?e \<noteq> None" by (simp_all add: engine_eval)
  from second_load_disconnects [OF r this] show ?thesis .
qed

text \<open>
  C15.  Two quick microphone toggles leak a live microphone: \<open>toggleMicrophone\<close>
  tests \<open>isMicActive\<close> before awaiting \<open>getUserMedia\<close>, so a second toggle while the
  first request is pending starts a second request.  When both resolve, the second
  stream replaces the first in \<open>micStream\<close> without stopping it, and the next toggle
  stops only the second: the first stream keeps capturing with the microphone shown as
  off and nothing left that refers to it.
\<close>

theorem double_toggle_leaks_stream:
  assumes "engine_reachable e" "\<not> isMicActive e" "audioContext e \<noteq> None"
    and "k1 \<noteq> k2" "k1 \<notin> set (liveStreams e)" "k2 \<notin> set (liveStreams e)"
  shows "\<exists>e'. engine_run e [ToggleMic, ToggleMic, MicGranted k1, MicGranted k2, ToggleMic] = Some e' \<and>
              k1 \<in> set (liveStreams e') \<and> micStream e' = None \<and> \<not> isMicActive e'"
  using assms(2-6) by (auto simp: engine_eval split: option.splits)

theorem double_toggle_leaks_stream_witness:
  "\<exists>e'. engine_run (new_engine True Running 48000)
          [ToggleMic, ToggleMic, MicGranted 1, MicGranted 2, ToggleMic] = Some e' \<and>
        1 \<in> set (liveStreams e') \<and> micStream e' = None \<and> \<not> isMicActive e'"
proof -
  have "\<not> isMicActive (new_engine True Running 48000)" "audioContext (new_engine True Running 48000) \<noteq> None"
    "(1::nat) \<noteq> 2" "1 \<notin> set (liveStreams (new_engine True Running 48000))"
    "2 \<notin> set (liveStreams (new_engine True Running 48000))"
    by (simp_all add: engine_eval)
  from double_toggle_leaks_stream [OF new_engine_reachable this] show ?thesis .
qed

text \<open>
  C16.  The microphone flag tells the truth about the graph: in every reachable state,
  while \<open>isMicActive\<close> is set the engine holds a live stream in \<open>micStream\<close> and the
  analyser's connected source is that stream's source node; a file load first stops the
  microphone.
\<close>

theorem mic_active_consistent:
  assumes "engine_reachable e" "isMicActive e"
  shows "\<exists>k. micStream e = Some k \<and> sourceNode e = Some (MicSource k, True) \<and> k \<in> set (liveStreams e)"
  using engine_reachable_inv [OF assms(1)] assms(2) by (simp add: engine_inv_def)

theorem mic_active_consistent_witness:
  "\<exists>k. micStream (mic_granted 7 (toggleMicrophone (new_engine True Suspended 44100))) = Some k \<and>
       sourceNode (mic_granted 7 (toggleMicrophone (new_engine True Suspended 44100))) = Some (MicSource k, True) \<and>
       k \<in> set (liveStreams (mic_granted 7 (toggleMicrophone (new_engine True Suspended 44100))))"
proof -
  let ?e1 = "toggleMicrophone (new_engine True Suspended 44100)"
  have r0: "engine_reachable (new_engine True Suspended 44100)" by (rule engine_reachable.init)
  have "engine_step (new_engine True Suspended 44100) ToggleMic = Some ?e1" by (simp add: engine_step_def)
  from engine_reachable.step [OF r0 this] have r1: "engine_reachable ?e1" .
  have "engine_step ?e1 (MicGranted 7) = Some (mic_granted 7 ?e1)" by (simp add: engine_eval)
  from engine_reachable.step [OF r1 this] have r2: "engine_reachable (mic_granted 7 ?e1)" .
  have "isMicActive (mic_granted 7 ?e1)" by (simp add: engine_eval)
  from mic_active_consistent [OF r2 this] show ?thesis .
qed

end
