(* ===== verification/GestureController.thy ===== *)
theory GestureController
  imports Interfaces
begin

text \<open>
  \<open>GestureController\<close> (src/gesture-controller.js, lines 5-470): the hand-pose
  classifier of gestures, the smoothing over the last five detections, and the commands
  it derives (\<open>commands\<close>, read by the visualizer each frame).  The hand-pose model is
  the input: one detection is \<open>None\<close> (no hand) or the 21 landmarks of the first
  hand, each an \<open>(x, y)\<close> pair.  \<open>start\<close> awaits \<open>getUserMedia\<close>, so it is a request
  and a later completion; the webcam streams and the timers the browser holds are the
  fields \<open>liveCams\<close>, \<open>liveIntervals\<close> and \<open>pendingPulseResets\<close>.  Drawing on the
  canvas and the status text are DOM calls and not modelled.
\<close>

datatype gesture = GNone | Fist | Palm | Peace | Unknown

type_synonym landmark = "real \<times> real"

record gctl =
  isModelLoaded :: bool
  currentGesture :: gesture
  lastGesture :: gesture
  gestureHistory :: "gesture list"
  gestureHistorySize :: nat
  commands :: gesture_commands
  calibrationMode :: bool
  gc_isRunning :: bool
  detectionInterval :: "nat option"
  videoSrc :: "nat option"
  liveCams :: "nat list"
  liveIntervals :: "nat list"
  pendingStart :: nat
  pendingPulseResets :: nat

definition new_gctl :: gctl where
  "new_gctl =
     \<lparr>isModelLoaded = False, currentGesture = GNone, lastGesture = GNone, gestureHistory = [],
      gestureHistorySize = 5, commands = \<lparr>freeze = False, pulse = False, colorPalette = 0\<rparr>,
      calibrationMode = False, gc_isRunning = False, detectionInterval = None, videoSrc = None,
      liveCams = [], liveIntervals = [], pendingStart = 0, pendingPulseResets = 0\<rparr>"

text \<open>\<open>init\<close> (lines 53-70): the awaited \<open>handpose.load()\<close>; a failure is only
  reported.\<close>

definition model_loaded :: "bool \<Rightarrow> gctl \<Rightarrow> gctl" where
  "model_loaded ok g = (if ok then g\<lparr>isModelLoaded := True\<rparr> else g)"

subsection \<open>Recognition\<close>

text \<open>\<open>getFingerExtensions\<close> (lines 342-367): \<open>[thumb, index, middle, ring, pinky]\<close>.
  Reading a coordinate of a missing landmark throws a \<open>TypeError\<close>: \<open>None\<close>.\<close>

definition finger_extended :: "landmark list \<Rightarrow> nat \<times> nat \<Rightarrow> bool option" where
  "finger_extended lm ij =
     (case ij of (tipIdx, pipIdx) \<Rightarrow> do {
        tip \<leftarrow> lget lm tipIdx;
        pip \<leftarrow> lget lm pipIdx;
        Some (snd tip < snd pip) })"

definition getFingerExtensions :: "landmark list \<Rightarrow> bool list option" where
  "getFingerExtensions lm = do {
     thumbTip \<leftarrow> lget lm 4;
     thumbBase \<leftarrow> lget lm 2;
     let thumbExtended = \<bar>fst thumbTip - fst thumbBase\<bar> > 30;
     others \<leftarrow> those (map (finger_extended lm) [(8, 6), (12, 10), (16, 14), (20, 18)]);
     Some (thumbExtended # others) }"

definition recognizeGesture :: "landmark list \<Rightarrow> gesture option" where
  "recognizeGesture lm = do {
     fingers \<leftarrow> getFingerExtensions lm;
     let extendedCount = length (filter id fingers);
     Some (if extendedCount = 0 then Fist
           else if extendedCount = 5 then Palm
           else if extendedCount = 2 \<and> fingers ! 1 \<and> fingers ! 2 then Peace
           else Unknown) }"

subsection \<open>Drawing the landmarks\<close>

text \<open>\<open>drawHandLandmarks\<close> (lines 270-308) as the list of canvas commands it issues: a dot
  per landmark, scaled from the 640 x 480 video to the 240 x 180 canvas, then a line per
  connection of the hand skeleton.  Destructuring a missing landmark throws a
  \<open>TypeError\<close> after the commands already issued; the flag says whether the drawing
  completed.\<close>

datatype draw_cmd = Dot real real | Segment real real real real

definition scale_pt :: "landmark \<Rightarrow> real \<times> real" where
  "scale_pt p = (fst p / 640 * 240, snd p / 480 * 180)"

definition hand_connections :: "(nat \<times> nat) list" where
  "hand_connections =
     [(0, 1), (1, 2), (2, 3), (3, 4), (0, 5), (5, 6), (6, 7), (7, 8),
      (0, 9), (9, 10), (10, 11), (11, 12), (0, 13), (13, 14), (14, 15), (15, 16),
      (0, 17), (17, 18), (18, 19), (19, 20), (5, 9), (9, 13), (13, 17)]"

definition connection_cmd :: "landmark list \<Rightarrow> nat \<times> nat \<Rightarrow> draw_cmd option" where
  "connection_cmd lm c =
     (case c of (start, end') \<Rightarrow> do {
        a \<leftarrow> lget lm start;
        b \<leftarrow> lget lm end';
        Some (Segment (fst (scale_pt a)) (snd (scale_pt a)) (fst (scale_pt b)) (snd (scale_pt b))) })"

definition drawHandLandmarks :: "landmark list \<Rightarrow> draw_cmd list \<times> bool" where
  "drawHandLandmarks lm =
     (let dots = map (\<lambda>p. Dot (fst (scale_pt p)) (snd (scale_pt p))) lm;
          segs = map (connection_cmd lm) hand_connections
      in (dots @ map the (takeWhile (\<lambda>c. c \<noteq> None) segs), list_all (\<lambda>c. c \<noteq> None) segs))"

definition on_canvas :: "draw_cmd \<Rightarrow> bool" where
  "on_canvas c =
     (case c of
        Dot x y \<Rightarrow> 0 \<le> x \<and> x \<le> 240 \<and> 0 \<le> y \<and> y \<le> 180
      | Segment x1 y1 x2 y2 \<Rightarrow> 0 \<le> x1 \<and> x1 \<le> 240 \<and> 0 \<le> y1 \<and> y1 \<le> 180 \<and>
                              0 \<le> x2 \<and> x2 \<le> 240 \<and> 0 \<le> y2 \<and> y2 \<le> 180)"

definition in_video :: "landmark \<Rightarrow> bool" where
  "in_video p \<longleftrightarrow> 0 \<le> fst p \<and> fst p \<le> 640 \<and> 0 \<le> snd p \<and> snd p \<le> 480"

subsection \<open>Smoothing and commands\<close>

text \<open>\<open>Object.keys(gestureCounts).reduce((a, b) => counts[a] > counts[b] ? a : b)\<close>:
  the keys in order of first occurrence in the history, and on a tie the later key.\<close>

fun reduce_most :: "(gesture \<Rightarrow> nat) \<Rightarrow> gesture \<Rightarrow> gesture list \<Rightarrow> gesture" where
  "reduce_most cnt a [] = a"
| "reduce_most cnt a (b # bs) = reduce_most cnt (if cnt a > cnt b then a else b) bs"

definition mostCommon :: "gesture list \<Rightarrow> gesture" where
  "mostCommon h = (let keys = rev (remdups (rev h)) in reduce_most (count_list h) (hd keys) (tl keys))"

text \<open>\<open>onGestureChange\<close> (lines 400-426).  A palm also starts a 500 ms timer that
  clears \<open>pulse\<close>.\<close>

definition onGestureChange :: "gesture \<Rightarrow> gctl \<Rightarrow> gctl" where
  "onGestureChange gs g =
     (case gs of
        Fist \<Rightarrow> g\<lparr>commands := (commands g)\<lparr>freeze := \<not> freeze (commands g)\<rparr>\<rparr>
      | Palm \<Rightarrow> g\<lparr>commands := (commands g)\<lparr>pulse := True\<rparr>,
                 pendingPulseResets := pendingPulseResets g + 1\<rparr>
      | Peace \<Rightarrow> g\<lparr>commands := (commands g)\<lparr>colorPalette := (colorPalette (commands g) + 1) mod 3\<rparr>\<rparr>
      | _ \<Rightarrow> g)"

text \<open>\<open>gestureHistory.push(gesture)\<close> and one \<open>shift()\<close> past the size.\<close>

definition push_history :: "nat \<Rightarrow> gesture list \<Rightarrow> gesture \<Rightarrow> gesture list" where
  "push_history historySize h gs = (let h1 = h @ [gs] in if length h1 > historySize then tl h1 else h1)"

definition updateGesture :: "gesture \<Rightarrow> gctl \<Rightarrow> gctl" where
  "updateGesture gs g =
     (let h2 = push_history (gestureHistorySize g) (gestureHistory g) gs;
          g1 = g\<lparr>gestureHistory := h2\<rparr>;
          mc = mostCommon h2
      in if mc \<noteq> currentGesture g1 \<and> mc \<noteq> Unknown \<and> mc \<noteq> GNone
         then onGestureChange mc (g1\<lparr>lastGesture := currentGesture g1, currentGesture := mc\<rparr>)
         else g1)"

text \<open>The callback of the 500 ms timer a palm started.\<close>

definition pulse_reset :: "gctl \<Rightarrow> gctl" where
  "pulse_reset g = g\<lparr>commands := (commands g)\<lparr>pulse := False\<rparr>, pendingPulseResets := pendingPulseResets g - 1\<rparr>"

text \<open>One run of \<open>detectGesture\<close> (lines 232-261) with the model's detection; an
  exception (malformed landmarks) is caught and logged.\<close>

definition detectGesture :: "landmark list option \<Rightarrow> gctl \<Rightarrow> gctl" where
  "detectGesture prediction g =
     (if \<not> gc_isRunning g then g
      else case prediction of
             None \<Rightarrow> updateGesture GNone g
           | Some lm \<Rightarrow> (case recognizeGesture lm of None \<Rightarrow> g | Some gs \<Rightarrow> updateGesture gs g))"

subsection \<open>Starting and stopping\<close>

text \<open>\<open>start\<close> (lines 155-195) up to its \<open>await\<close>: the result it returns at once, if
  any, and the new state.\<close>

definition start_request :: "gctl \<Rightarrow> bool option \<times> gctl" where
  "start_request g =
     (if \<not> isModelLoaded g then (Some False, g)
      else if gc_isRunning g then (Some True, g)
      else (None, g\<lparr>pendingStart := pendingStart g + 1\<rparr>))"

text \<open>The rest of \<open>start\<close> once the webcam stream \<open>k\<close> arrives, with
  \<open>startDetectionLoop\<close> (lines 231-265) registering the interval \<open>i\<close>.\<close>

definition startDetectionLoop :: "nat \<Rightarrow> gctl \<Rightarrow> gctl" where
  "startDetectionLoop i g = g\<lparr>detectionInterval := Some i, liveIntervals := i # liveIntervals g\<rparr>"

definition start_granted :: "nat \<Rightarrow> nat \<Rightarrow> gctl \<Rightarrow> gctl" where
  "start_granted k i g =
     startDetectionLoop i
       (g\<lparr>pendingStart := pendingStart g - 1, videoSrc := Some k, liveCams := k # liveCams g,
          gc_isRunning := True\<rparr>)"

definition start_denied :: "gctl \<Rightarrow> gctl" where
  "start_denied g = g\<lparr>pendingStart := pendingStart g - 1\<rparr>"

text \<open>\<open>stop\<close> (lines 200-226).\<close>

definition stop_controller :: "gctl \<Rightarrow> gctl" where
  "stop_controller g =
     (if \<not> gc_isRunning g then g
      else let g1 = (case videoSrc g of None \<Rightarrow> g
                     | Some k \<Rightarrow> g\<lparr>liveCams := removeAll k (liveCams g), videoSrc := None\<rparr>);
               g2 = (case detectionInterval g1 of None \<Rightarrow> g1
                     | Some i \<Rightarrow> g1\<lparr>liveIntervals := removeAll i (liveIntervals g1),
                                    detectionInterval := None\<rparr>)
           in g2\<lparr>gc_isRunning := False, currentGesture := GNone,
                 commands := (commands g2)\<lparr>freeze := False, pulse := False\<rparr>\<rparr>)"

definition startCalibration :: "gctl \<Rightarrow> gctl" where
  "startCalibration g = g\<lparr>calibrationMode := True\<rparr>"

definition stopCalibration :: "gctl \<Rightarrow> gctl" where
  "stopCalibration g = g\<lparr>calibrationMode := False\<rparr>"

subsection \<open>The controller as a state machine\<close>

datatype gctl_event =
    ModelLoad bool
  | StartCall
  | StartGranted nat nat
  | StartDenied
  | StopCall
  | DetectTick "landmark list option"
  | PulseTimer
  | CalibrationOn
  | CalibrationOff

definition gctl_step :: "gctl \<Rightarrow> gctl_event \<Rightarrow> gctl option" where
  "gctl_step g ev =
     (case ev of
        ModelLoad ok \<Rightarrow> Some (model_loaded ok g)
      | StartCall \<Rightarrow> Some (snd (start_request g))
      | StartGranted k i \<Rightarrow>
          if pendingStart g = 0 \<or> k \<in> set (liveCams g) \<or> i \<in> set (liveIntervals g) then None
          else Some (start_granted k i g)
      | StartDenied \<Rightarrow> if pendingStart g = 0 then None else Some (start_denied g)
      | StopCall \<Rightarrow> Some (stop_controller g)
      | DetectTick p \<Rightarrow> if liveIntervals g = [] then None else Some (detectGesture p g)
      | PulseTimer \<Rightarrow> if pendingPulseResets g = 0 then None else Some (pulse_reset g)
      | CalibrationOn \<Rightarrow> Some (startCalibration g)
      | CalibrationOff \<Rightarrow> Some (stopCalibration g))"

fun gctl_run :: "gctl \<Rightarrow> gctl_event list \<Rightarrow> gctl option" where
  "gctl_run g [] = Some g"
| "gctl_run g (ev # evs) = (case gctl_step g ev of None \<Rightarrow> None | Some g' \<Rightarrow> gctl_run g' evs)"

inductive gctl_reachable :: "gctl \<Rightarrow> bool" where
  init: "gctl_reachable new_gctl"
| step: "gctl_reachable g \<Longrightarrow> gctl_step g ev = Some g' \<Longrightarrow> gctl_reachable g'"

definition gctl_inv :: "gctl \<Rightarrow> bool" where
  "gctl_inv g \<longleftrightarrow>
     colorPalette (commands g) < 3 \<and> gestureHistorySize g = 5 \<and>
     length (gestureHistory g) \<le> gestureHistorySize g \<and>
     (pulse (commands g) \<longrightarrow> 0 < pendingPulseResets g) \<and>
     (gc_isRunning g \<longrightarrow> (\<exists>k. videoSrc g = Some k \<and> k \<in> set (liveCams g)) \<and>
        (\<exists>i. detectionInterval g = Some i \<and> i \<in> set (liveIntervals g)))"

subsection \<open>Lemmas\<close>

lemma reduce_most_max:
  "reduce_most cnt a bs \<in> insert a (set bs) \<and>
   (\<forall>y \<in> insert a (set bs). cnt y \<le> cnt (reduce_most cnt a bs))"
proof (induction bs arbitrary: a)
  case Nil
  then show ?case by simp
next
  case (Cons b bs)
  let ?c = "if cnt a > cnt b then a else b"
  have "cnt a \<le> cnt ?c" "cnt b \<le> cnt ?c" by auto
  with Cons.IH [of ?c] show ?case by (auto split: if_splits)
qed

lemma mostCommon_majority:
  assumes "x \<in> set h" "\<And>y. y \<in> set h \<Longrightarrow> y \<noteq> x \<Longrightarrow> count_list h y < count_list h x"
  shows "mostCommon h = x"
proof -
  let ?keys = "rev (remdups (rev h))"
  have keys: "set ?keys = set h" "?keys \<noteq> []" using assms(1) by auto
  then have hk: "insert (hd ?keys) (set (tl ?keys)) = set h"
    by (metis list.collapse list.simps(15))
  let ?r = "reduce_most (count_list h) (hd ?keys) (tl ?keys)"
  have "?r \<in> set h" "\<forall>y \<in> set h. count_list h y \<le> count_list h ?r"
    using reduce_most_max [of "count_list h" "hd ?keys" "tl ?keys"] hk by simp_all
  then have "?r = x" using assms by (meson leD)
  then show ?thesis by (simp add: mostCommon_def)
qed

lemma updateGesture_inv: "gctl_inv g \<Longrightarrow> gctl_inv (updateGesture gs g)"
  by (auto simp: gctl_inv_def updateGesture_def push_history_def onGestureChange_def Let_def
           split: gesture.split)

lemma detectGesture_inv: "gctl_inv g \<Longrightarrow> gctl_inv (detectGesture p g)"
  by (auto simp: detectGesture_def updateGesture_inv split: option.split)

lemma stop_controller_inv: "gctl_inv g \<Longrightarrow> gctl_inv (stop_controller g)"
  by (simp add: stop_controller_def gctl_inv_def Let_def split: option.split)

lemma simple_ops_inv:
  assumes "gctl_inv g"
  shows "gctl_inv (model_loaded ok g)" "gctl_inv (snd (start_request g))"
    "gctl_inv (start_granted k i g)" "gctl_inv (start_denied g)" "gctl_inv (pulse_reset g)"
    "gctl_inv (startCalibration g)" "gctl_inv (stopCalibration g)"
  using assms
  by (auto simp: model_loaded_def start_request_def start_granted_def startDetectionLoop_def
                 start_denied_def pulse_reset_def startCalibration_def stopCalibration_def gctl_inv_def)

lemma gctl_step_inv: "gctl_inv g \<Longrightarrow> gctl_step g ev = Some g' \<Longrightarrow> gctl_inv g'"
  by (cases ev)
     (auto simp: gctl_step_def detectGesture_inv stop_controller_inv simple_ops_inv split: if_splits)

lemma gctl_reachable_inv: "gctl_reachable g \<Longrightarrow> gctl_inv g"
  by (induction rule: gctl_reachable.induct)
     (simp add: gctl_inv_def new_gctl_def, blast intro: gctl_step_inv)

lemma gctl_run_reachable:
  "gctl_reachable g \<Longrightarrow> gctl_run g evs = Some g' \<Longrightarrow> gctl_reachable g'"
proof (induction evs arbitrary: g)
  case Nil
  then show ?case by simp
next
  case (Cons ev evs)
  then obtain g1 where "gctl_step g ev = Some g1" "gctl_run g1 evs = Some g'"
    by (auto split: option.splits)
  with Cons show ?case by (blast intro: gctl_reachable.step)
qed

lemma push_history_three:
  assumes "length h \<le> 5"
  shows "push_history 5 (push_history 5 (push_history 5 h x) x) x = drop (length h - 2) h @ [x, x, x]"
proof -
  have "length h = 0 \<or> length h = 1 \<or> length h = 2 \<or> length h = 3 \<or> length h = 4 \<or> length h = 5"
    using assms by presburger
  then show ?thesis
    by (elim disjE) (auto simp: push_history_def Let_def eval_nat_numeral length_Suc_conv)
qed

lemma onGestureChange_keeps [simp]:
  "currentGesture (onGestureChange gs g) = currentGesture g"
  "gestureHistory (onGestureChange gs g) = gestureHistory g"
  "gestureHistorySize (onGestureChange gs g) = gestureHistorySize g"
  by (cases gs; simp add: onGestureChange_def)+

lemma updateGesture_sel:
  "gestureHistory (updateGesture gs g) = push_history (gestureHistorySize g) (gestureHistory g) gs"
  "gestureHistorySize (updateGesture gs g) = gestureHistorySize g"
  "currentGesture (updateGesture gs g) =
     (let mc = mostCommon (push_history (gestureHistorySize g) (gestureHistory g) gs)
      in if mc \<noteq> currentGesture g \<and> mc \<noteq> Unknown \<and> mc \<noteq> GNone then mc else currentGesture g)"
  by (simp_all add: updateGesture_def Let_def)

lemma three_majority:
  assumes "length pre \<le> 2"
  shows "mostCommon (pre @ [x, x, x]) = x"
proof (rule mostCommon_majority)
  fix y assume "y \<in> set (pre @ [x, x, x])" "y \<noteq> x"
  then have "count_list (pre @ [x, x, x]) y = count_list pre y" by simp
  also have "\<dots> \<le> length pre" by (induction pre) simp_all
  also have "\<dots> < count_list (pre @ [x, x, x]) x" using assms by simp
  finally show "count_list (pre @ [x, x, x]) y < count_list (pre @ [x, x, x]) x" .
qed simp

lemma updateGesture_running [simp]: "gc_isRunning (updateGesture gs g) = gc_isRunning g"
  by (cases "mostCommon (push_history (gestureHistorySize g) (gestureHistory g) gs)")
     (simp_all add: updateGesture_def onGestureChange_def Let_def)

lemma detectGesture_recognized:
  "gc_isRunning g \<Longrightarrow> recognizeGesture lm = Some gs \<Longrightarrow> detectGesture (Some lm) g = updateGesture gs g"
  by (simp add: detectGesture_def)

text \<open>A closed hand: every landmark at the same point, so no finger is extended.\<close>

definition fist_landmarks :: "landmark list" where
  "fist_landmarks = replicate 21 (0, 0)"

lemma stop_controller_keeps:
  "gestureHistory (stop_controller g) = gestureHistory g"
  "gestureHistorySize (stop_controller g) = gestureHistorySize g"
  "isModelLoaded (stop_controller g) = isModelLoaded g"
  "set (liveCams (stop_controller g)) \<subseteq> set (liveCams g)"
  "set (liveIntervals (stop_controller g)) \<subseteq> set (liveIntervals g)"
  by (auto simp: stop_controller_def Let_def split: option.split)

lemma stop_controller_resets:
  "gc_isRunning g \<Longrightarrow> currentGesture (stop_controller g) = GNone \<and>
     \<not> freeze (commands (stop_controller g)) \<and> \<not> gc_isRunning (stop_controller g)"
  by (auto simp: stop_controller_def Let_def split: option.split)

lemmas gctl_eval = new_gctl_def model_loaded_def start_request_def start_granted_def
  startDetectionLoop_def stop_controller_def detectGesture_def updateGesture_def push_history_def
  mostCommon_def onGestureChange_def recognizeGesture_def getFingerExtensions_def
  finger_extended_def lget_def fist_landmarks_def gctl_step_def Let_def

subsection \<open>Properties of the gesture controller\<close>

text \<open>
  C17.  The commands are always well formed and the flags tell the truth: in every
  reachable state the palette index is 0, 1 or 2, the history holds at most five
  detections, a set \<open>pulse\<close> always has a pending 500 ms timer that will clear it,
  and a running controller holds a live webcam stream and a live detection interval.
\<close>

theorem gctl_commands_wellformed:
  assumes "gctl_reachable g"
  shows "colorPalette (commands g) < 3 \<and> length (gestureHistory g) \<le> 5 \<and>
         (pulse (commands g) \<longrightarrow> 0 < pendingPulseResets g) \<and>
         (gc_isRunning g \<longrightarrow> (\<exists>k. videoSrc g = Some k \<and> k \<in> set (liveCams g)) \<and>
            (\<exists>i. detectionInterval g = Some i \<and> i \<in> set (liveIntervals g)))"
  using gctl_reachable_inv [OF assms] by (simp add: gctl_inv_def)

theorem gctl_commands_wellformed_witness:
  "colorPalette (commands new_gctl) < 3 \<and> length (gestureHistory new_gctl) \<le> 5"
  using gctl_commands_wellformed [OF gctl_reachable.init] by simp

text \<open>
  C18.  The smoothing responds within three detections: from any reachable running
  state, three successive detections of the same fist, palm or peace sign make it the
  current gesture, whatever the history held (three of the five entries then agree, a
  strict majority).
\<close>

theorem three_detections_switch:
  assumes "gctl_reachable g" "gc_isRunning g" "recognizeGesture lm = Some gs"
    and "gs \<in> {Fist, Palm, Peace}"
  shows "currentGesture (detectGesture (Some lm) (detectGesture (Some lm) (detectGesture (Some lm) g))) = gs"
proof -
  have inv: "gestureHistorySize g = 5" "length (gestureHistory g) \<le> 5"
    using gctl_reachable_inv [OF assms(1)] by (simp_all add: gctl_inv_def)
  let ?pre = "drop (length (gestureHistory g) - 2) (gestureHistory g)"
  have "length ?pre \<le> 2" by simp
  then have mc: "mostCommon (?pre @ [gs, gs, gs]) = gs" by (rule three_majority)
  have "detectGesture (Some lm) (detectGesture (Some lm) (detectGesture (Some lm) g)) =
        updateGesture gs (updateGesture gs (updateGesture gs g))"
    using assms(2,3) by (simp add: detectGesture_recognized)
  moreover have "push_history 5 (gestureHistory (updateGesture gs (updateGesture gs g))) gs = ?pre @ [gs, gs, gs]"
    using push_history_three [OF inv(2), of gs] inv(1) by (simp add: updateGesture_sel)
  ultimately show ?thesis using mc assms(4) inv(1) by (auto simp: updateGesture_sel Let_def)
qed

theorem three_detections_switch_witness:
  "currentGesture (detectGesture (Some fist_landmarks) (detectGesture (Some fist_landmarks)
     (detectGesture (Some fist_landmarks) (start_granted 1 1 (snd (start_request (model_loaded True new_gctl))))))) = Fist"
proof -
  let ?g = "start_granted 1 1 (snd (start_request (model_loaded True new_gctl)))"
  have "gctl_run new_gctl [ModelLoad True, StartCall, StartGranted 1 1] = Some ?g"
    by (simp add: gctl_eval)
  then have r: "gctl_reachable ?g" by (rule gctl_run_reachable [OF gctl_reachable.init])
  have h: "gc_isRunning ?g" "recognizeGesture fist_landmarks = Some Fist" "Fist \<in> {Fist, Palm, Peace}"
    by (simp_all add: gctl_eval)
  from three_detections_switch [OF r h] show ?thesis .
qed

text \<open>
  C19.  Stopping does not clear the smoothing history, so a restart acts on gestures
  made before the stop: from any reachable running controller, \<open>stop\<close> turns freeze
  off, and after \<open>start\<close> (with a fresh webcam stream and interval) the first
  detection, even with no hand in view, takes the most common entry of the old history
  plus one \<open>none\<close>: when that is a fist, palm or peace sign it becomes the current
  gesture as a new one (\<open>currentGesture\<close> was reset to \<open>none\<close>), and a fist turns
  freeze on again.
\<close>

theorem restart_acts_on_stale_history:
  assumes "gctl_reachable g" "gc_isRunning g" "isModelLoaded g"
    and "k \<notin> set (liveCams g)" "i \<notin> set (liveIntervals g)"
  shows "\<exists>g'. gctl_run g [StopCall, StartCall, StartGranted k i, DetectTick None] = Some g' \<and>
           \<not> freeze (commands (stop_controller g)) \<and>
           (mostCommon (push_history 5 (gestureHistory g) GNone) \<in> {Fist, Palm, Peace} \<longrightarrow>
              currentGesture g' = mostCommon (push_history 5 (gestureHistory g) GNone)) \<and>
           (mostCommon (push_history 5 (gestureHistory g) GNone) = Fist \<longrightarrow> freeze (commands g'))"
proof -
  have sz: "gestureHistorySize g = 5" using gctl_reachable_inv [OF assms(1)] by (simp add: gctl_inv_def)
  define g1 where "g1 = stop_controller g"
  have s1: "gestureHistory g1 = gestureHistory g" "gestureHistorySize g1 = 5" "isModelLoaded g1"
    "k \<notin> set (liveCams g1)" "i \<notin> set (liveIntervals g1)"
    "currentGesture g1 = GNone" "\<not> freeze (commands g1)" "\<not> gc_isRunning g1"
    using stop_controller_keeps [of g] stop_controller_resets [OF assms(2)] assms(3-5) sz
    unfolding g1_def by auto
  define g2 where "g2 = snd (start_request g1)"
  have s2: "pendingStart g2 \<noteq> 0" "k \<notin> set (liveCams g2)" "i \<notin> set (liveIntervals g2)"
    using s1 by (simp_all add: g2_def start_request_def)
  define g3 where "g3 = start_granted k i g2"
  have s3: "gestureHistory g3 = gestureHistory g" "gestureHistorySize g3 = 5" "gc_isRunning g3"
    "currentGesture g3 = GNone" "\<not> freeze (commands g3)" "liveIntervals g3 \<noteq> []"
    using s1 by (simp_all add: g3_def g2_def start_granted_def startDetectionLoop_def start_request_def)
  have "gctl_step g StopCall = Some g1" "gctl_step g1 StartCall = Some g2"
    "gctl_step g2 (StartGranted k i) = Some g3"
    "gctl_step g3 (DetectTick None) = Some (updateGesture GNone g3)"
    using s2 s3(3,6) by (simp_all add: gctl_step_def g1_def g2_def g3_def detectGesture_def)
  then have run: "gctl_run g [StopCall, StartCall, StartGranted k i, DetectTick None] =
      Some (updateGesture GNone g3)" by simp
  let ?mc = "mostCommon (push_history 5 (gestureHistory g) GNone)"
  have cur: "?mc \<in> {Fist, Palm, Peace} \<Longrightarrow> currentGesture (updateGesture GNone g3) = ?mc"
    using s3 by (auto simp: updateGesture_sel Let_def)
  have frz: "?mc = Fist \<Longrightarrow> freeze (commands (updateGesture GNone g3))"
    using s3 by (simp add: updateGesture_def Let_def onGestureChange_def)
  show ?thesis using run cur frz s1(7) unfolding g1_def by blast
qed

theorem restart_acts_on_stale_history_witness:
  "\<exists>g'. gctl_run (the (gctl_run new_gctl [ModelLoad True, StartCall, StartGranted 1 1,
              DetectTick (Some fist_landmarks), DetectTick (Some fist_landmarks),
              DetectTick (Some fist_landmarks)]))
           [StopCall, StartCall, StartGranted 2 2, DetectTick None] = Some g' \<and>
         currentGesture g' = Fist \<and> freeze (commands g')"
proof -
  let ?evs = "[ModelLoad True, StartCall, StartGranted 1 1, DetectTick (Some fist_landmarks),
               DetectTick (Some fist_landmarks), DetectTick (Some fist_landmarks)]"
  obtain g where g: "gctl_run new_gctl ?evs = Some g" by (simp add: gctl_eval)
  have r: "gctl_reachable g" by (rule gctl_run_reachable [OF gctl_reachable.init g])
  have h: "gc_isRunning g" "isModelLoaded g" "2 \<notin> set (liveCams g)" "2 \<notin> set (liveIntervals g)"
    "mostCommon (push_history 5 (gestureHistory g) GNone) = Fist"
    using g by (auto simp: gctl_eval)
  show ?thesis using restart_acts_on_stale_history [OF r h(1-4)] h(5) g by auto
qed

text \<open>
  C20.  Two quick calls of \<open>start\<close> leave the webcam on after \<open>stop\<close>: both pass the
  \<open>isRunning\<close> test before awaiting \<open>getUserMedia\<close>; the second completion overwrites
  \<open>video.srcObject\<close> and \<open>detectionInterval\<close>, so \<open>stop\<close> ends only the second
  stream and interval, and the first webcam stream and interval stay live with the
  controller stopped.
\<close>

theorem double_start_leaks_webcam:
  assumes "gctl_reachable g" "isModelLoaded g" "\<not> gc_isRunning g"
    and "k1 \<noteq> k2" "i1 \<noteq> i2" "k1 \<notin> set (liveCams g)" "k2 \<notin> set (liveCams g)"
    and "i1 \<notin> set (liveIntervals g)" "i2 \<notin> set (liveIntervals g)"
  shows "\<exists>g'. gctl_run g [StartCall, StartCall, StartGranted k1 i1, StartGranted k2 i2, StopCall] = Some g' \<and>
              \<not> gc_isRunning g' \<and> k1 \<in> set (liveCams g') \<and> i1 \<in> set (liveIntervals g')"
  using assms(2-9) by (simp add: gctl_step_def start_request_def start_granted_def
                                 startDetectionLoop_def stop_controller_def Let_def)

theorem double_start_leaks_webcam_witness:
  "\<exists>g'. gctl_run (model_loaded True new_gctl)
          [StartCall, StartCall, StartGranted 1 1, StartGranted 2 2, StopCall] = Some g' \<and>
        \<not> gc_isRunning g' \<and> 1 \<in> set (liveCams g') \<and> 1 \<in> set (liveIntervals g')"
proof -
  have "gctl_step new_gctl (ModelLoad True) = Some (model_loaded True new_gctl)"
    by (simp add: gctl_step_def)
  then have r: "gctl_reachable (model_loaded True new_gctl)"
    by (rule gctl_reachable.step [OF gctl_reachable.init])
  have h: "isModelLoaded (model_loaded True new_gctl)" "\<not> gc_isRunning (model_loaded True new_gctl)"
    "(1::nat) \<noteq> 2" "(1::nat) \<noteq> 2" "1 \<notin> set (liveCams (model_loaded True new_gctl))"
    "2 \<notin> set (liveCams (model_loaded True new_gctl))" "1 \<notin> set (liveIntervals (model_loaded True new_gctl))"
    "2 \<notin> set (liveIntervals (model_loaded True new_gctl))"
    by (simp_all add: gctl_eval)
  from double_start_leaks_webcam [OF r h] show ?thesis .
qed

subsection \<open>Drawing\<close>

lemma connection_cmd_Some: "21 \<le> length lm \<Longrightarrow> c \<in> set hand_connections \<Longrightarrow> connection_cmd lm c \<noteq> None"
  by (auto simp: hand_connections_def connection_cmd_def lget_def)

lemma connection_cmd_short: "length lm < 21 \<Longrightarrow> connection_cmd lm (19, 20) = None"
  by (simp add: connection_cmd_def lget_def)

lemma connection_cmd_SomeD:
  "connection_cmd lm (s, e) = Some y \<Longrightarrow>
   \<exists>a b. lget lm s = Some a \<and> lget lm e = Some b \<and>
         y = Segment (fst (scale_pt a)) (snd (scale_pt a)) (fst (scale_pt b)) (snd (scale_pt b))"
  by (auto simp: connection_cmd_def bind_eq_Some_conv)

text \<open>The drawing completes exactly when the hand has all 21 landmarks, which is also
  exactly when \<open>recognizeGesture\<close> does not throw; so \<open>detectGesture\<close>, which leaves the
  drawing out, throws in the same runs as the code.\<close>

lemma drawHandLandmarks_completes:
  "snd (drawHandLandmarks lm) \<longleftrightarrow> 21 \<le> length lm"
proof
  assume "snd (drawHandLandmarks lm)"
  then have "connection_cmd lm (19, 20) \<noteq> None"
    by (simp add: drawHandLandmarks_def Let_def list_all_iff hand_connections_def)
  then show "21 \<le> length lm" using connection_cmd_short by (meson not_le_imp_less)
next
  assume l: "21 \<le> length lm"
  have "\<forall>c \<in> set hand_connections. connection_cmd lm c \<noteq> None" using connection_cmd_Some [OF l] by blast
  then show "snd (drawHandLandmarks lm)"
    by (simp add: drawHandLandmarks_def Let_def list_all_iff del: not_None_eq)
qed

lemma getFingerExtensions_Some_iff: "getFingerExtensions lm \<noteq> None \<longleftrightarrow> 21 \<le> length lm"
proof
  assume "getFingerExtensions lm \<noteq> None"
  then have "finger_extended lm (20, 18) \<noteq> None"
    by (auto simp: getFingerExtensions_def bind_eq_Some_conv Let_def split: option.splits)
  then show "21 \<le> length lm" by (auto simp: finger_extended_def lget_def split: if_splits)
next
  assume "21 \<le> length lm"
  then show "getFingerExtensions lm \<noteq> None"
    by (simp add: getFingerExtensions_def finger_extended_def lget_def Let_def)
qed

lemma recognizeGesture_Some_iff: "recognizeGesture lm \<noteq> None \<longleftrightarrow> 21 \<le> length lm"
  using getFingerExtensions_Some_iff [of lm]
  by (cases "getFingerExtensions lm") (simp_all add: recognizeGesture_def Let_def)

lemma draw_iff_recognize: "snd (drawHandLandmarks lm) \<longleftrightarrow> recognizeGesture lm \<noteq> None"
  by (simp only: drawHandLandmarks_completes recognizeGesture_Some_iff)

lemma scale_pt_bounds:
  "in_video p \<Longrightarrow> 0 \<le> fst (scale_pt p) \<and> fst (scale_pt p) \<le> 240 \<and> 0 \<le> snd (scale_pt p) \<and> snd (scale_pt p) \<le> 180"
  by (simp add: in_video_def scale_pt_def)

lemma drawHandLandmarks_on_canvas:
  assumes "\<forall>p \<in> set lm. in_video p"
  shows "\<forall>c \<in> set (fst (drawHandLandmarks lm)). on_canvas c"
proof -
  have seg: "on_canvas (the d)"
    if "d \<in> set (takeWhile (\<lambda>c. c \<noteq> None) (map (connection_cmd lm) hand_connections))" for d
  proof -
    have "d \<in> connection_cmd lm ` set hand_connections" "d \<noteq> None"
      using set_takeWhileD [OF that] by auto
    then obtain s e y where c: "connection_cmd lm (s, e) = Some y" "d = Some y" by auto
    then obtain a b where ab: "lget lm s = Some a" "lget lm e = Some b"
      "y = Segment (fst (scale_pt a)) (snd (scale_pt a)) (fst (scale_pt b)) (snd (scale_pt b))"
      using connection_cmd_SomeD by blast
    have "in_video a" "in_video b" using assms ab(1,2) by (auto simp: lget_Some_iff)
    then show ?thesis using scale_pt_bounds [of a] scale_pt_bounds [of b] ab(3) c(2)
      by (simp add: on_canvas_def)
  qed
  show ?thesis using assms scale_pt_bounds seg by (auto simp: drawHandLandmarks_def Let_def on_canvas_def)
qed

end
