(* ===== verification/Recorder.thy ===== *)
theory Recorder
  imports AudioEngine PresetManager
begin

text \<open>
  \<open>Recorder\<close> (src/recorder.js, lines 5-547): recording the canvas together with the
  engine's audio through a \<open>MediaRecorder\<close>, the on-screen timer, the
  three-minute limit, and the download of the result.

  The browser objects are reduced to what the code's logic depends on: a recorded chunk
  is its size, a \<open>MediaRecorder\<close> is an identifier with its state, a stream is an
  identifier whose tracks are live until stopped (\<open>liveTracks\<close>), the interval of the
  timer is a flag, and every pending \<open>setTimeout\<close> of the three-minute limit is its due
  time in \<open>maxTimers\<close>.  The events a stopped \<open>MediaRecorder\<close> still delivers (its last
  \<open>dataavailable\<close> and \<open>stop\<close>) are pending in \<open>pendingFinal\<close>; the handlers are
  closures over \<open>this\<close>, not over the recorder that fires them.  A download is the list
  of chunk sizes of its \<open>Blob\<close>.  \<open>startRecording\<close> awaits \<open>resume()\<close> for a
  suspended context: such a call is pending in \<open>resumeWaiters\<close> until its continuation
  runs, and other events (another \<open>startRecording\<close> among them) may come first.  A
  \<open>MediaRecorder\<close> or a timer interval that \<open>this\<close> no longer references but that still
  runs is counted in \<open>orphans\<close> and \<open>orphanTimers\<close>.  The engine is fixed for the
  recorder: a context that is suspended stays suspended in this view, which only adds
  interleavings to the ones the browser allows.
\<close>

datatype recorder_state = RecInactive | RecRecording

record recorder =
  isRecording :: bool
  isPaused :: bool
  recordingStartTime :: int
  recordingDuration :: int
  maxDuration :: int
  videoMimeType :: string
  videoBitsPerSecond :: nat
  supportedTypes :: "string list"
  recordedChunks :: "nat list"
  mediaRecorder :: "(nat \<times> recorder_state) option"
  canvasStream :: "nat option"
  audioStream :: "nat option"
  liveTracks :: "nat list"
  timerInterval :: bool
  timerText :: string
  indicatorShown :: bool
  maxTimers :: "int list"
  pendingFinal :: "nat list"
  downloads :: "nat list list"
  resumeWaiters :: "(nat \<times> nat) list"
  orphans :: "nat list"
  orphanTimers :: nat

subsection \<open>Construction\<close>

definition mimeTypes :: "string list" where
  "mimeTypes = [''video/webm;codecs=vp9,opus'', ''video/webm;codecs=vp8,opus'',
                ''video/webm;codecs=h264,opus'', ''video/webm'']"

text \<open>The loop of \<open>init\<close> (lines 54-60): the first supported type, else the default.\<close>

definition select_mime :: "string list \<Rightarrow> string \<Rightarrow> string" where
  "select_mime supported dflt =
     (case find (\<lambda>t. t \<in> set supported) mimeTypes of None \<Rightarrow> dflt | Some t \<Rightarrow> t)"

text \<open>The constructor (lines 6-34) and \<open>init\<close> (lines 39-66) for a browser that has
  \<open>MediaRecorder\<close> or not (\<open>avail\<close>) and supports the given types.\<close>

definition new_recorder :: "bool \<Rightarrow> string list \<Rightarrow> recorder" where
  "new_recorder avail supported =
     (let r = \<lparr>isRecording = False, isPaused = False, recordingStartTime = 0, recordingDuration = 0,
               maxDuration = 180000, videoMimeType = ''video/webm;codecs=vp9'',
               videoBitsPerSecond = 5000000, supportedTypes = supported, recordedChunks = [],
               mediaRecorder = None, canvasStream = None, audioStream = None, liveTracks = [],
               timerInterval = False, timerText = ''0:00'', indicatorShown = False,
               maxTimers = [], pendingFinal = [], downloads = [], resumeWaiters = [],
               orphans = [], orphanTimers = 0\<rparr>
      in if \<not> avail then r else r\<lparr>videoMimeType := select_mime supported (videoMimeType r)\<rparr>)"

subsection \<open>Recording\<close>

text \<open>The part of \<open>startRecording\<close> after the \<open>await\<close> (lines 144-208) at clock \<open>now\<close>,
  with identifiers for the new recorder and the audio stream: its result and the new
  state.  Reading a property of the engine's null analyser throws, and
  \<open>new MediaRecorder\<close> throws for an unsupported type; the \<open>catch\<close> returns \<open>false\<close>
  and keeps what was done before.  \<open>isRecording\<close> is not tested again: a recorder and a
  timer interval that are still running are overwritten.\<close>

definition start_continue :: "int \<Rightarrow> nat \<Rightarrow> nat \<Rightarrow> engine \<Rightarrow> recorder \<Rightarrow> bool \<times> recorder" where
  "start_continue now rid aid e r1 =
     (if analyser e = None then (False, r1)
      else let r2 = r1\<lparr>audioStream := Some aid, liveTracks := aid # liveTracks r1\<rparr>
           in if videoMimeType r2 \<notin> set (supportedTypes r2) then (False, r2)
              else (True, r2\<lparr>mediaRecorder := Some (rid, RecRecording),
                             orphans := (case mediaRecorder r2 of Some (old, RecRecording) \<Rightarrow> old # orphans r2
                                         | _ \<Rightarrow> orphans r2),
                             recordedChunks := [], isRecording := True, recordingStartTime := now,
                             indicatorShown := True, timerInterval := True,
                             orphanTimers := orphanTimers r2 + (if timerInterval r2 then 1 else 0),
                             maxTimers := maxTimers r2 @ [now + maxDuration r2]\<rparr>))"

text \<open>\<open>startRecording\<close> up to its \<open>await\<close> (lines 126-143, and the \<open>catch\<close> of lines
  204-208): reading \<open>state\<close> of a null context throws; a suspended context makes the
  call wait for \<open>resume()\<close>, its promise not yet settled (\<open>False\<close> here); otherwise the
  call runs to its end.\<close>

definition startRecording ::
  "int \<Rightarrow> nat \<Rightarrow> nat \<Rightarrow> nat \<Rightarrow> engine \<Rightarrow> recorder \<Rightarrow> bool \<times> recorder" where
  "startRecording now rid cid aid e r =
     (if isRecording r then (False, r)
      else let r1 = r\<lparr>canvasStream := Some cid, liveTracks := cid # liveTracks r\<rparr>
           in case audioContext e of
                None \<Rightarrow> (False, r1)
              | Some ctx \<Rightarrow>
                  if ctxState ctx = Suspended then (False, r1\<lparr>resumeWaiters := resumeWaiters r1 @ [(rid, aid)]\<rparr>)
                  else start_continue now rid aid e r1)"

definition stop_tracks :: "nat option \<Rightarrow> nat list \<Rightarrow> nat list" where
  "stop_tracks s ts = (case s of None \<Rightarrow> ts | Some k \<Rightarrow> removeAll k ts)"

text \<open>\<open>stopRecording\<close> (lines 214-240) with \<open>stopTimer\<close> (lines 302-307).  Stopping the
  \<open>MediaRecorder\<close> queues its last \<open>dataavailable\<close> and its \<open>stop\<close> event.\<close>

definition stopRecording :: "recorder \<Rightarrow> recorder" where
  "stopRecording r =
     (if \<not> isRecording r then r
      else let r1 = r\<lparr>isRecording := False\<rparr>;
               r2 = (case mediaRecorder r1 of
                       Some (rid, RecRecording) \<Rightarrow>
                         r1\<lparr>mediaRecorder := Some (rid, RecInactive), pendingFinal := pendingFinal r1 @ [rid]\<rparr>
                     | _ \<Rightarrow> r1)
           in r2\<lparr>liveTracks := stop_tracks (audioStream r2) (stop_tracks (canvasStream r2) (liveTracks r2)),
                 indicatorShown := False, timerInterval := False\<rparr>)"

text \<open>\<open>ondataavailable\<close> (lines 166-170).\<close>

definition dataAvailable :: "nat \<Rightarrow> recorder \<Rightarrow> recorder" where
  "dataAvailable sz r = (if sz > 0 then r\<lparr>recordedChunks := recordedChunks r @ [sz]\<rparr> else r)"

text \<open>\<open>onRecordingComplete\<close> (lines 245-265) with \<open>downloadRecording\<close> (lines 270-284).\<close>

definition onRecordingComplete :: "recorder \<Rightarrow> recorder" where
  "onRecordingComplete r =
     (if recordedChunks r = [] then r
      else r\<lparr>downloads := downloads r @ [recordedChunks r], recordedChunks := []\<rparr>)"

subsection \<open>The timer text\<close>

text \<open>\<open>Number.prototype.toString()\<close> on integers, and the remainder \<open>%\<close>, whose sign is
  the sign of the dividend.\<close>

fun nat_str :: "nat \<Rightarrow> string" where
  "nat_str n = (if n < 10 then [char_of (48 + n)] else nat_str (n div 10) @ [char_of (48 + n mod 10)])"

declare nat_str.simps [simp del]

definition int_str :: "int \<Rightarrow> string" where
  "int_str i = (if i < 0 then ''-'' @ nat_str (nat (- i)) else nat_str (nat i))"

definition js_rem :: "int \<Rightarrow> int \<Rightarrow> int" where
  "js_rem a b = sgn a * (\<bar>a\<bar> mod \<bar>b\<bar>)"

text \<open>\<open>padStart(2, '0')\<close>.\<close>

definition pad2 :: "string \<Rightarrow> string" where
  "pad2 s = replicate (2 - length s) (CHR ''0'') @ s"

definition timer_text :: "int \<Rightarrow> string" where
  "timer_text duration =
     (let seconds = duration div 1000; minutes = seconds div 60; secs = js_rem seconds 60
      in int_str minutes @ '':'' @ pad2 (int_str secs))"

text \<open>One tick of the timer's interval (lines 290-296).\<close>

definition timerTick :: "int \<Rightarrow> recorder \<Rightarrow> recorder" where
  "timerTick now r =
     (let d = now - recordingStartTime r in r\<lparr>recordingDuration := d, timerText := timer_text d\<rparr>)"

text \<open>The three-minute timeout of a recording (lines 195-200), due at \<open>t\<close>.\<close>

definition maxTimerFire :: "int \<Rightarrow> recorder \<Rightarrow> recorder" where
  "maxTimerFire t r =
     (let r1 = r\<lparr>maxTimers := remove1 t (maxTimers r)\<rparr> in if isRecording r1 then stopRecording r1 else r1)"

subsection \<open>File names\<close>

text \<open>\<open>new Date().toISOString().replace(/[:.]/g, '-').slice(0, -5)\<close>.\<close>

definition iso_stamp :: "string \<Rightarrow> string" where
  "iso_stamp s =
     take (length s - 5) (map (\<lambda>c. if c = CHR '':'' \<or> c = CHR ''.'' then CHR ''-'' else c) s)"

definition recording_filename :: "string \<Rightarrow> string" where
  "recording_filename s = ''SonicCanvas_'' @ iso_stamp s @ ''.webm''"

subsection \<open>Exporting the settings\<close>

record preset_export =
  ex_name :: string
  ex_visualMode :: visual_mode
  ex_colorPalette :: nat
  ex_trailEffect :: bool
  ex_trailOpacity :: real
  ex_radialSymmetry :: bool
  ex_symmetrySegments :: nat
  ex_cameraRadius :: real
  ex_particleCount :: nat
  ex_beatThreshold :: real
  ex_fftSize :: nat
  ex_smoothingTimeConstant :: real

text \<open>\<open>exportPreset\<close> (lines 357-399) with the ISO time \<open>s\<close>: the object it serialises
  and the name of the file, or \<open>None\<close> when reading \<open>analyser.fftSize\<close> of a null
  analyser throws and the \<open>catch\<close> downloads nothing.\<close>

definition exportPreset ::
  "vis \<Rightarrow> preset_manager \<Rightarrow> engine \<Rightarrow> string \<Rightarrow> (preset_export \<times> string) option" where
  "exportPreset v pm e s =
     (case analyser e of
        None \<Rightarrow> None
      | Some an \<Rightarrow>
          Some (\<lparr>ex_name = currentPreset pm, ex_visualMode = visualMode v,
                  ex_colorPalette = currentPalette v, ex_trailEffect = trailEffect v,
                  ex_trailOpacity = trailOpacity v, ex_radialSymmetry = radialSymmetry v,
                  ex_symmetrySegments = symmetrySegments v, ex_cameraRadius = cameraRadius v,
                  ex_particleCount = particleCount v, ex_beatThreshold = beatThreshold (beatCfg e),
                  ex_fftSize = fftSize an, ex_smoothingTimeConstant = smoothingTimeConstant an\<rparr>,
                ''SonicCanvas_Preset_'' @ currentPreset pm @ ''_'' @ iso_stamp s @ ''.json''))"

text \<open>\<open>captureScreenshot\<close> (lines 312-352): the size of the PNG it encodes.\<close>

definition screenshot_size :: "bool \<Rightarrow> nat \<Rightarrow> nat \<Rightarrow> nat \<times> nat" where
  "screenshot_size highRes w h = (if highRes then (w * 2, h * 2) else (w, h))"

subsection \<open>Reading the timer text back\<close>

text \<open>A reader of the \<open>m:ss\<close> text, against which \<open>timer_text\<close> is checked: the
  minutes, a colon, two digits of seconds below 60.\<close>

definition is_digit :: "char \<Rightarrow> bool" where
  "is_digit c = (48 \<le> (of_char c :: nat) \<and> (of_char c :: nat) \<le> 57)"

definition digits_val :: "string \<Rightarrow> nat" where
  "digits_val s = foldl (\<lambda>n c. 10 * n + (of_char c - 48)) 0 s"

definition parse_nat :: "string \<Rightarrow> nat option" where
  "parse_nat s = (if s \<noteq> [] \<and> list_all is_digit s then Some (digits_val s) else None)"

definition parse_timer :: "string \<Rightarrow> nat option" where
  "parse_timer s =
     (case dropWhile (\<lambda>c. c \<noteq> CHR '':'') s of
        [] \<Rightarrow> None
      | _ # ss \<Rightarrow>
          (case (parse_nat (takeWhile (\<lambda>c. c \<noteq> CHR '':'') s), parse_nat ss) of
             (Some m, Some k) \<Rightarrow> if length ss = 2 \<and> k < 60 then Some (60 * m + k) else None
           | _ \<Rightarrow> None))"

subsection \<open>The recorder as a state machine\<close>

datatype rec_event =
    StartRec int nat nat nat
  | StopRec
  | DataEv nat nat
  | StoppedEv nat
  | TimerTickEv int
  | MaxTimerEv int
  | ErrorEv nat
  | ResumeEv int

text \<open>Events of recorders: data from the current one while it records, or from one
  that was stopped and has not delivered its \<open>stop\<close> event yet; the \<open>stop\<close> event of a
  stopped recorder; ticks while the interval runs; a pending timeout; the \<open>error\<close>
  event of a recorder (its \<open>onerror\<close> handler, lines 178-181, calls \<open>stopRecording\<close>);
  the settling of the oldest pending \<open>resume()\<close>.  Orphaned recorders go on delivering
  data, and orphaned intervals go on ticking.\<close>

definition rec_step :: "engine \<Rightarrow> recorder \<Rightarrow> rec_event \<Rightarrow> recorder option" where
  "rec_step e r ev =
     (case ev of
        StartRec now rid cid aid \<Rightarrow>
          if rid \<in> set (pendingFinal r) \<or> rid \<in> set (orphans r) \<or> rid \<in> set (map fst (resumeWaiters r)) \<or>
             mediaRecorder r \<noteq> None \<and> rid = fst (the (mediaRecorder r))
          then None else Some (snd (startRecording now rid cid aid e r))
      | StopRec \<Rightarrow> Some (stopRecording r)
      | DataEv rid sz \<Rightarrow>
          if mediaRecorder r = Some (rid, RecRecording) \<or> rid \<in> set (pendingFinal r) \<or> rid \<in> set (orphans r)
          then Some (dataAvailable sz r) else None
      | StoppedEv rid \<Rightarrow>
          if rid \<in> set (pendingFinal r)
          then Some (onRecordingComplete (r\<lparr>pendingFinal := remove1 rid (pendingFinal r)\<rparr>)) else None
      | TimerTickEv now \<Rightarrow> if timerInterval r \<or> 0 < orphanTimers r then Some (timerTick now r) else None
      | MaxTimerEv t \<Rightarrow> if t \<in> set (maxTimers r) then Some (maxTimerFire t r) else None
      | ErrorEv rid \<Rightarrow>
          if mediaRecorder r = Some (rid, RecRecording) \<or> rid \<in> set (pendingFinal r) \<or> rid \<in> set (orphans r)
          then Some (stopRecording r) else None
      | ResumeEv now \<Rightarrow>
          (case resumeWaiters r of
             [] \<Rightarrow> None
           | (rid, aid) # ws \<Rightarrow> Some (snd (start_continue now rid aid e (r\<lparr>resumeWaiters := ws\<rparr>)))))"

fun rec_run :: "engine \<Rightarrow> recorder \<Rightarrow> rec_event list \<Rightarrow> recorder option" where
  "rec_run e r [] = Some r"
| "rec_run e r (ev # evs) = (case rec_step e r ev of None \<Rightarrow> None | Some r' \<Rightarrow> rec_run e r' evs)"

inductive rec_reachable :: "engine \<Rightarrow> recorder \<Rightarrow> bool" where
  init: "rec_reachable e (new_recorder avail supported)"
| step: "rec_reachable e r \<Longrightarrow> rec_step e r ev = Some r' \<Longrightarrow> rec_reachable e r'"

text \<open>The current recorder is recording; the invariant of the recorder; and what a
  successful \<open>startRecording\<close> needs of the engine and the browser.\<close>

definition recorder_live :: "recorder \<Rightarrow> bool" where
  "recorder_live r = (case mediaRecorder r of Some (_, RecRecording) \<Rightarrow> True | _ \<Rightarrow> False)"

definition rec_inv :: "recorder \<Rightarrow> bool" where
  "rec_inv r =
     (list_all (\<lambda>d. d \<noteq> [] \<and> list_all ((<) 0) d) (downloads r) \<and> list_all ((<) 0) (recordedChunks r) \<and>
      timerInterval r = isRecording r \<and> indicatorShown r = isRecording r \<and>
      recorder_live r = isRecording r)"

definition recorder_ready :: "engine \<Rightarrow> recorder \<Rightarrow> bool" where
  "recorder_ready e r =
     ((case audioContext e of None \<Rightarrow> False | Some ctx \<Rightarrow> ctxState ctx = Running) \<and>
      analyser e \<noteq> None \<and> videoMimeType r \<in> set (supportedTypes r))"

subsection \<open>Properties\<close>

lemma new_recorder_inv: "rec_inv (new_recorder avail supported)"
  by (simp add: rec_inv_def recorder_live_def new_recorder_def Let_def)

lemma start_continue_inv: "rec_inv r \<Longrightarrow> rec_inv (snd (start_continue now rid aid e r))"
  by (auto simp: rec_inv_def recorder_live_def start_continue_def Let_def)

lemma rec_inv_waiters [simp]: "rec_inv (r\<lparr>resumeWaiters := ws\<rparr>) = rec_inv r"
  by (simp add: rec_inv_def recorder_live_def)

lemma startRecording_inv: "rec_inv r \<Longrightarrow> rec_inv (snd (startRecording now rid cid aid e r))"
proof -
  assume r: "rec_inv r"
  have "\<not> isRecording r \<Longrightarrow> rec_inv (r\<lparr>canvasStream := Some cid, liveTracks := cid # liveTracks r\<rparr>)"
    using r by (simp add: rec_inv_def recorder_live_def)
  then show ?thesis using r
    by (auto simp: startRecording_def Let_def start_continue_inv split: option.splits)
qed

lemma stopRecording_inv: "rec_inv r \<Longrightarrow> rec_inv (stopRecording r)"
  by (auto simp: rec_inv_def recorder_live_def stopRecording_def Let_def split: option.splits recorder_state.splits)

lemma dataAvailable_inv: "rec_inv r \<Longrightarrow> rec_inv (dataAvailable sz r)"
  by (simp add: rec_inv_def recorder_live_def dataAvailable_def)

lemma onRecordingComplete_inv: "rec_inv r \<Longrightarrow> rec_inv (onRecordingComplete r)"
  by (simp add: rec_inv_def recorder_live_def onRecordingComplete_def)

lemma timerTick_inv: "rec_inv r \<Longrightarrow> rec_inv (timerTick now r)"
  by (simp add: rec_inv_def recorder_live_def timerTick_def Let_def)

lemma maxTimerFire_inv: "rec_inv r \<Longrightarrow> rec_inv (maxTimerFire t r)"
proof -
  assume "rec_inv r"
  then have "rec_inv (r\<lparr>maxTimers := remove1 t (maxTimers r)\<rparr>)"
    by (simp add: rec_inv_def recorder_live_def)
  then show ?thesis by (simp add: maxTimerFire_def Let_def stopRecording_inv)
qed

lemma rec_step_inv: "rec_inv r \<Longrightarrow> rec_step e r ev = Some r' \<Longrightarrow> rec_inv r'"
proof (cases ev)
  case (StoppedEv rid)
  moreover assume "rec_inv r" "rec_step e r ev = Some r'"
  moreover have "rec_inv r \<Longrightarrow> rec_inv (r\<lparr>pendingFinal := xs\<rparr>)" for xs
    by (simp add: rec_inv_def recorder_live_def)
  ultimately show ?thesis
    by (auto simp: rec_step_def onRecordingComplete_inv split: if_splits)
qed (auto simp: rec_step_def startRecording_inv stopRecording_inv dataAvailable_inv timerTick_inv
          maxTimerFire_inv start_continue_inv split: if_splits list.splits)

text \<open>C25: in every reachable state of the recorder, every downloaded file is nonempty and made of nonempty chunks, the buffered chunks are nonempty, and the timer, the indicator and a recording \<open>MediaRecorder\<close> are present exactly while \<open>isRecording\<close> holds.\<close>

theorem reachable_rec_inv: "rec_reachable e r \<Longrightarrow> rec_inv r"
  by (induction rule: rec_reachable.induct) (auto intro: rec_step_inv new_recorder_inv)

lemma nat_str_small [simp]: "n < 10 \<Longrightarrow> nat_str n = [char_of (48 + n)]"
  by (simp add: nat_str.simps)

lemma nat_str_large [simp]:
  "\<not> n < 10 \<Longrightarrow> nat_str n = nat_str (n div 10) @ [char_of (48 + n mod 10)]"
  by (subst nat_str.simps) simp

lemma is_digit_char: "(k::nat) < 10 \<Longrightarrow> is_digit (char_of (48 + k))"
  by (simp add: is_digit_def of_char_of)

lemma nat_str_digits: "list_all is_digit (nat_str n) \<and> nat_str n \<noteq> []"
  by (induction n rule: nat_str.induct) (case_tac "n < 10", simp_all add: is_digit_char)

lemma digits_val_nat_str: "digits_val (nat_str n) = n"
proof (induction n rule: nat_str.induct)
  case (1 n)
  then show ?case
    by (cases "n < 10") (simp_all add: digits_val_def of_char_of)
qed

lemma digit_not_colon: "is_digit c \<Longrightarrow> c \<noteq> CHR '':''"
  by (auto simp: is_digit_def)

lemma length_nat_str: "n < 100 \<Longrightarrow> length (nat_str n) \<le> 2"
  by (cases "n < 10") simp_all

lemma digits_val_zeros: "digits_val (replicate k (CHR ''0'') @ s) = digits_val s"
proof -
  have "foldl (\<lambda>n c. 10 * n + (of_char c - 48)) (0::nat) (replicate k (CHR ''0'')) = 0"
    by (induction k) (simp_all add: replicate_app_Cons_same[symmetric])
  then show ?thesis by (simp add: digits_val_def)
qed

lemma parse_nat_pad2:
  assumes "n < 100"
  shows "parse_nat (pad2 (nat_str n)) = Some n \<and> length (pad2 (nat_str n)) = 2"
  using nat_str_digits[of n] length_nat_str[OF assms]
  by (auto simp: parse_nat_def pad2_def digits_val_zeros digits_val_nat_str list_all_iff is_digit_def)

lemma js_rem_nonneg: "0 \<le> a \<Longrightarrow> 0 < b \<Longrightarrow> js_rem a b = a mod b"
  by (auto simp: js_rem_def sgn_if)

lemma timer_text_nonneg:
  assumes "0 \<le> d"
  shows "timer_text d = nat_str (nat (d div 1000 div 60)) @ CHR '':'' # pad2 (nat_str (nat (d div 1000 mod 60)))"
proof -
  have "0 \<le> d div 1000" "0 \<le> d div 1000 div 60" "\<not> d div 1000 mod 60 < 0"
    using assms by simp_all
  then show ?thesis by (simp add: timer_text_def int_str_def js_rem_nonneg Let_def)
qed

lemma parse_nat_nat_str: "parse_nat (nat_str n) = Some n"
  using nat_str_digits[of n] by (simp add: parse_nat_def digits_val_nat_str)

lemma nat_split_div_mod:
  assumes "0 \<le> (s::int)" "0 < b"
  shows "nat b * nat (s div b) + nat (s mod b) = nat s"
proof -
  have "int (nat b * nat (s div b) + nat (s mod b)) = s"
    using assms by (simp add: pos_imp_zdiv_nonneg_iff)
  then show ?thesis by (metis nat_int)
qed

text \<open>C29: the \<open>m:ss\<close> text the timer shows for a nonnegative duration reads back as the whole number of seconds elapsed.\<close>

theorem timer_text_roundtrip: "0 \<le> d \<Longrightarrow> parse_timer (timer_text d) = Some (nat (d div 1000))"
proof -
  assume d: "0 \<le> d"
  define m where "m = nat (d div 1000 div 60)"
  define k where "k = nat (d div 1000 mod 60)"
  have k: "k < 60" using d by (simp add: k_def)
  have nc: "\<forall>c\<in>set (nat_str m). c \<noteq> CHR '':''"
    using nat_str_digits[of m] by (auto simp: list_all_iff digit_not_colon)
  have "60 * m + k = nat (d div 1000)"
    using d nat_split_div_mod[of "d div 1000" 60] by (simp add: m_def k_def)
  then show ?thesis
    using d k nc parse_nat_pad2[of k] parse_nat_nat_str[of m]
    unfolding timer_text_nonneg[OF d] m_def[symmetric] k_def[symmetric]
    by (simp add: parse_timer_def dropWhile_append2 takeWhile_append2 dropWhile_eq_Nil_conv takeWhile_eq_all_conv dropWhile_eq_self_iff)
qed

lemma new_recorder_fields [simp]:
  "isRecording (new_recorder avail sts) = False" "pendingFinal (new_recorder avail sts) = []"
  "mediaRecorder (new_recorder avail sts) = None" "liveTracks (new_recorder avail sts) = []"
  "downloads (new_recorder avail sts) = []" "maxTimers (new_recorder avail sts) = []"
  "orphans (new_recorder avail sts) = []" "resumeWaiters (new_recorder avail sts) = []"
  "orphanTimers (new_recorder avail sts) = 0" "timerInterval (new_recorder avail sts) = False"
  by (cases avail, simp_all add: new_recorder_def Let_def)+

lemma recorder_readyE:
  assumes "recorder_ready e (new_recorder True sts)"
  obtains ctx an where "audioContext e = Some ctx" "ctxState ctx = Running" "analyser e = Some an"
    "select_mime sts ''video/webm;codecs=vp9'' \<in> set sts"
  using assms by (auto simp: recorder_ready_def new_recorder_def Let_def split: option.splits)

lemmas rec_eval = rec_step_def startRecording_def start_continue_def stopRecording_def maxTimerFire_def
  onRecordingComplete_def dataAvailable_def stop_tracks_def new_recorder_def Let_def

text \<open>C26: the three-minute timeout of a recording is never cleared: after a recording is stopped and a new one started, the old timeout stops the new recording before it has run for \<open>maxDuration\<close>.\<close>

theorem stale_limit_stops_next_recording:
  assumes "recorder_ready e (new_recorder True sts)" "t0 < t1" "t1 < t0 + 180000"
  shows "\<exists>r. rec_run e (new_recorder True sts)
              [StartRec t0 1 1 2, StopRec, StoppedEv 1, StartRec t1 2 3 4, MaxTimerEv (t0 + 180000)] = Some r
           \<and> \<not> isRecording r \<and> recordingStartTime r = t1 \<and> t0 + 180000 - t1 < maxDuration r"
  using assms(1) by (rule recorder_readyE) (use assms in \<open>simp add: rec_eval\<close>)

text \<open>C27: a recording started before the previous recorder has delivered its last chunk and its \<open>stop\<close> event loses the earlier chunks of the first recording, and the first file receives the first chunk of the second recording.\<close>

theorem restart_mixes_recordings:
  assumes "recorder_ready e (new_recorder True sts)" "0 < a" "0 < b" "0 < c" "0 < d"
  shows "\<exists>r. rec_run e (new_recorder True sts)
              [StartRec t0 1 1 2, DataEv 1 a, StopRec, StartRec t1 2 3 4, DataEv 2 c, DataEv 1 b,
               StoppedEv 1, StopRec, DataEv 2 d, StoppedEv 2] = Some r
           \<and> downloads r = [[c, b], [d]]"
  using assms(1) by (rule recorder_readyE) (use assms in \<open>simp add: rec_eval\<close>)

lemma failed_starts_run:
  "audioContext e = None \<Longrightarrow> \<not> isRecording r \<Longrightarrow> pendingFinal r = [] \<Longrightarrow> mediaRecorder r = None \<Longrightarrow>
   orphans r = [] \<Longrightarrow> resumeWaiters r = [] \<Longrightarrow>
   \<exists>r'. rec_run e r (map (\<lambda>i. StartRec t i i i) ids) = Some r' \<and> liveTracks r' = rev ids @ liveTracks r
        \<and> \<not> isRecording r' \<and> pendingFinal r' = [] \<and> mediaRecorder r' = None \<and> orphans r' = [] \<and> resumeWaiters r' = []"
proof (induction ids arbitrary: r)
  case (Cons i ids)
  let ?r1 = "r\<lparr>canvasStream := Some i, liveTracks := i # liveTracks r\<rparr>"
  have "rec_step e r (StartRec t i i i) = Some ?r1"
    using Cons.prems by (simp add: rec_step_def startRecording_def)
  moreover obtain r' where "rec_run e ?r1 (map (\<lambda>i. StartRec t i i i) ids) = Some r'"
    "liveTracks r' = rev ids @ liveTracks ?r1" "\<not> isRecording r'" "pendingFinal r' = []" "mediaRecorder r' = None"
    "orphans r' = []" "resumeWaiters r' = []"
    using Cons.IH[of ?r1] Cons.prems by auto
  ultimately show ?case by auto
qed simp

text \<open>C28: without an audio context, every \<open>startRecording\<close> fails after capturing a canvas stream that is never stopped: the live capture streams accumulate.\<close>

theorem failed_starts_leak_streams:
  "audioContext e = None \<Longrightarrow>
   \<exists>r. rec_run e (new_recorder avail sts) (map (\<lambda>i. StartRec t i i i) ids) = Some r
       \<and> liveTracks r = rev ids \<and> \<not> isRecording r"
  using failed_starts_run[of e "new_recorder avail sts" t ids] by auto

text \<open>\<open>exportPreset\<close> fails, downloading nothing, until the engine has an analyser; once
  it has, the exported audio settings are the FFT size 2048 and smoothing 0.8 of the
  analyser and the beat threshold 1.3.\<close>

lemma export_needs_audio:
  "(exportPreset v pm (new_engine ok cs sr) s = None) = (\<not> ok) \<and>
   (ok \<longrightarrow> map_option (\<lambda>(x, _). (ex_fftSize x, ex_smoothingTimeConstant x, ex_beatThreshold x))
             (exportPreset v pm (new_engine ok cs sr) s) = Some (2048, 0.8, 1.3))"
  by (simp add: exportPreset_def new_engine_def initAudioContext_def engine_fields_def Let_def
      default_beat_config_def)

lemma iso_stamp_drop5: "length z = 5 \<Longrightarrow>
  iso_stamp (x @ z) = map (\<lambda>c. if c = CHR '':'' \<or> c = CHR ''.'' then CHR ''-'' else c) x"
  by (simp add: iso_stamp_def)

lemma map_stamp_plain: "list_all (\<lambda>c. c \<noteq> CHR '':'' \<and> c \<noteq> CHR ''.'') x \<Longrightarrow>
  map (\<lambda>c. if c = CHR '':'' \<or> c = CHR ''.'' then CHR ''-'' else c) x = x"
  by (induction x) auto

text \<open>The name of a downloaded recording is the ISO date and time to the second (date
  and time fields free of colons and dots), with the colons replaced by dashes and the
  milliseconds and zone cut off.\<close>

lemma recording_filename_iso:
  assumes "list_all (\<lambda>c. c \<noteq> CHR '':'' \<and> c \<noteq> CHR ''.'') (date @ hh @ mm @ ss)" "length ms = 3"
  shows "recording_filename (date @ ''T'' @ hh @ '':'' @ mm @ '':'' @ ss @ ''.'' @ ms @ ''Z'') =
         ''SonicCanvas_'' @ date @ ''T'' @ hh @ ''-'' @ mm @ ''-'' @ ss @ ''.webm''"
proof -
  have "date @ ''T'' @ hh @ '':'' @ mm @ '':'' @ ss @ ''.'' @ ms @ ''Z'' =
        (date @ ''T'' @ hh @ '':'' @ mm @ '':'' @ ss) @ (''.'' @ ms @ ''Z'')" by simp
  moreover have "length (''.'' @ ms @ ''Z'') = 5" using assms(2) by simp
  ultimately show ?thesis
    using assms(1) by (simp only: recording_filename_def iso_stamp_drop5) (simp add: map_stamp_plain)
qed

text \<open>C31: \<open>startRecording\<close> tests \<open>isRecording\<close> before it awaits \<open>resume()\<close> and sets it
  after: two starts while the context is suspended both go on, the second
  \<open>MediaRecorder\<close> and interval overwrite the first, and after \<open>stopRecording\<close> the first
  recorder still records into the buffer, its interval still ticks, and the first canvas
  stream and audio stream stay live.\<close>

theorem double_start_orphans_recorder:
  assumes "audioContext e = Some ctx" "ctxState ctx = Suspended" "analyser e = Some an"
    and "select_mime sts ''video/webm;codecs=vp9'' \<in> set sts"
  shows "\<exists>r. rec_run e (new_recorder True sts)
              [StartRec 0 1 10 11, StartRec 5 2 20 21, ResumeEv 30, ResumeEv 31, StopRec] = Some r
           \<and> \<not> isRecording r \<and> 1 \<in> set (orphans r) \<and> 10 \<in> set (liveTracks r) \<and> 11 \<in> set (liveTracks r)
           \<and> rec_step e r (DataEv 1 7) = Some (r\<lparr>recordedChunks := recordedChunks r @ [7]\<rparr>)
           \<and> (\<exists>r'. rec_step e r (TimerTickEv 40) = Some r')"
  using assms by (simp add: rec_eval)

theorem double_start_orphans_recorder_witness:
  "\<exists>r. rec_run (new_engine True Suspended 48000) (new_recorder True [''video/webm''])
         [StartRec 0 1 10 11, StartRec 5 2 20 21, ResumeEv 30, ResumeEv 31, StopRec] = Some r
      \<and> \<not> isRecording r \<and> 1 \<in> set (orphans r) \<and> 10 \<in> set (liveTracks r) \<and> 11 \<in> set (liveTracks r)
      \<and> rec_step (new_engine True Suspended 48000) r (DataEv 1 7) = Some (r\<lparr>recordedChunks := recordedChunks r @ [7]\<rparr>)
      \<and> (\<exists>r'. rec_step (new_engine True Suspended 48000) r (TimerTickEv 40) = Some r')"
  by (rule double_start_orphans_recorder [where ctx = "\<lparr>ctxState = Suspended, sampleRate = 48000\<rparr>"
        and an = "\<lparr>fftSize = 2048, smoothingTimeConstant = 0.8, toDestination = False\<rparr>"])
     (simp_all add: new_engine_def initAudioContext_def select_mime_def mimeTypes_def)

theorem reachable_rec_inv_witness:
  "rec_inv (snd (startRecording 0 1 1 2 (new_engine True Running 48000) (new_recorder True [''video/webm''])))"
proof -
  let ?e = "new_engine True Running 48000" and ?r = "new_recorder True [''video/webm'']"
  have "rec_step ?e ?r (StartRec 0 1 1 2) = Some (snd (startRecording 0 1 1 2 ?e ?r))"
    by (simp add: rec_step_def)
  then show ?thesis
    using reachable_rec_inv rec_reachable.init rec_reachable.step by metis
qed

theorem stale_limit_stops_next_recording_witness:
  "\<exists>r. rec_run (new_engine True Running 48000) (new_recorder True [''video/webm''])
         [StartRec 0 1 1 2, StopRec, StoppedEv 1, StartRec 60000 2 3 4, MaxTimerEv (0 + 180000)] = Some r
      \<and> \<not> isRecording r \<and> recordingStartTime r = 60000 \<and> 0 + 180000 - 60000 < maxDuration r"
  by (rule stale_limit_stops_next_recording)
     (simp_all add: recorder_ready_def new_engine_def initAudioContext_def new_recorder_def
        select_mime_def mimeTypes_def Let_def)

theorem restart_mixes_recordings_witness:
  "\<exists>r. rec_run (new_engine True Running 48000) (new_recorder True [''video/webm''])
         [StartRec 0 1 1 2, DataEv 1 5, StopRec, StartRec 10 2 3 4, DataEv 2 7, DataEv 1 6,
          StoppedEv 1, StopRec, DataEv 2 8, StoppedEv 2] = Some r
      \<and> downloads r = [[7, 6], [8]]"
  by (rule restart_mixes_recordings)
     (simp_all add: recorder_ready_def new_engine_def initAudioContext_def new_recorder_def
        select_mime_def mimeTypes_def Let_def)

theorem failed_starts_leak_streams_witness:
  "\<exists>r. rec_run engine_fields (new_recorder True []) (map (\<lambda>i. StartRec 0 i i i) [1, 2, 3]) = Some r
      \<and> liveTracks r = rev [1, 2, 3] \<and> \<not> isRecording r"
  by (rule failed_starts_leak_streams) (simp add: engine_fields_def)

theorem timer_text_roundtrip_witness: "0 \<le> (125300::int) \<and> parse_timer (timer_text 125300) = Some 125"
  using timer_text_roundtrip[of 125300] by simp

end
