(* ===== verification/PerformanceMode.thy ===== *)
theory PerformanceMode
  imports Particles
begin

text \<open>
  \<open>PerformanceMode\<close> (src/performance-mode.js, lines 5-306): hiding the UI, entering
  full screen, the frame-time test that may flag reduced particles, and restoring all of
  it on exit (the toggle button, or the Escape key).

  The page is reduced to what the code reads and writes: the inline \<open>style.display\<close>
  of every element (\<open>display\<close>, a total map from element identifiers), the result of
  \<open>querySelectorAll\<close> for each selector (\<open>matches\<close>, in document order), and whether
  the full-screen API exists.  The performance-mode indicator is a flag; its fade-out
  timer only changes its style.  The \<open>setTimeout\<close> of the frame-time test is pending
  with the \<open>performance.now()\<close> read before it (\<open>perfTests\<close>); it fires no earlier than
  1000 ms later.  The full-screen request is taken as granted when the API exists.
\<close>

record perf =
  isActive :: bool
  hiddenElements :: "(nat \<times> string) list"
  reducedParticles :: bool
  originalParticleCount :: nat
  perfTests :: "real list"
  indicatorPresent :: bool
  fullscreen :: bool

record page =
  display :: "nat \<Rightarrow> string"
  matches :: "string \<Rightarrow> nat list"
  fsApi :: bool

definition uiSelectors :: "string list" where
  "uiSelectors = [''.header'', ''.control-panel'', ''.preset-panel'', ''#webcam-preview'',
                  ''#gesture-overlay'', ''#recording-indicator'']"

text \<open>The constructor (lines 6-25).\<close>

definition new_perf :: perf where
  "new_perf = \<lparr>isActive = False, hiddenElements = [], reducedParticles = False,
                originalParticleCount = 0, perfTests = [], indicatorPresent = False, fullscreen = False\<rparr>"

subsection \<open>Hiding and showing the UI\<close>

text \<open>The body of the inner \<open>forEach\<close> of \<open>hideUI\<close> (lines 105-113).\<close>

definition hide_el :: "nat \<Rightarrow> (nat \<times> string) list \<times> (nat \<Rightarrow> string) \<Rightarrow> (nat \<times> string) list \<times> (nat \<Rightarrow> string)" where
  "hide_el el acc =
     (let (hs, d) = acc in if d el \<noteq> ''none'' then (hs @ [(el, d el)], d(el := ''none'')) else (hs, d))"

text \<open>\<open>hideUI\<close> (lines 100-117): the hidden elements and the new displays.\<close>

definition hideUI :: "page \<Rightarrow> (nat \<times> string) list \<times> (nat \<Rightarrow> string)" where
  "hideUI pg = fold (\<lambda>sel. fold hide_el (matches pg sel)) uiSelectors ([], display pg)"

text \<open>\<open>showUI\<close> (lines 122-129).\<close>

definition showUI :: "(nat \<times> string) list \<Rightarrow> (nat \<Rightarrow> string) \<Rightarrow> nat \<Rightarrow> string" where
  "showUI hs d = fold (\<lambda>(el, od) d. d(el := od)) hs d"

subsection \<open>Optimisations\<close>

text \<open>\<open>applyOptimizations\<close> (lines 178-203) at clock \<open>now\<close>.\<close>

definition applyOptimizations :: "real \<Rightarrow> vis option \<Rightarrow> perf \<Rightarrow> perf" where
  "applyOptimizations now v pf =
     (case v of None \<Rightarrow> pf
      | Some w \<Rightarrow> pf\<lparr>originalParticleCount := particleCount w, perfTests := perfTests pf @ [now]\<rparr>)"

text \<open>The callback of its timeout (lines 187-197), started at \<open>start\<close>, run at \<open>now\<close>.\<close>

definition perfTimeout :: "real \<Rightarrow> real \<Rightarrow> perf \<Rightarrow> perf" where
  "perfTimeout start now pf =
     (let frameTime = now - start; pf1 = pf\<lparr>perfTests := remove1 start (perfTests pf)\<rparr>
      in if frameTime > 16.67 then pf1\<lparr>reducedParticles := True\<rparr> else pf1)"

text \<open>\<open>restoreOptimizations\<close> (lines 208-217).\<close>

definition restoreOptimizations :: "vis option \<Rightarrow> perf \<Rightarrow> perf \<times> vis option" where
  "restoreOptimizations v pf =
     (case v of None \<Rightarrow> (pf, v)
      | Some w \<Rightarrow> if reducedParticles pf
                   then (pf\<lparr>reducedParticles := False\<rparr>, Some (w\<lparr>particleCount := originalParticleCount pf\<rparr>))
                   else (pf, v))"

subsection \<open>Entering and leaving\<close>

text \<open>\<open>enter\<close> (lines 44-66) with \<open>enterFullscreen\<close> (lines 134-152) and
  \<open>showIndicator\<close> (lines 222-277).\<close>

definition enter :: "real \<Rightarrow> vis option \<Rightarrow> perf \<Rightarrow> page \<Rightarrow> perf \<times> page" where
  "enter now v pf pg =
     (if isActive pf then (pf, pg)
      else let (hs, d) = hideUI pg;
               pf1 = pf\<lparr>isActive := True, hiddenElements := hs, fullscreen := fsApi pg \<or> fullscreen pf\<rparr>
           in ((applyOptimizations now v pf1)\<lparr>indicatorPresent := True\<rparr>, pg\<lparr>display := d\<rparr>))"

text \<open>\<open>exit\<close> (lines 71-95) with \<open>exitFullscreen\<close> (lines 157-173) and \<open>hideIndicator\<close>
  (lines 282-287).\<close>

definition exit :: "vis option \<Rightarrow> perf \<Rightarrow> page \<Rightarrow> perf \<times> page \<times> vis option" where
  "exit v pf pg =
     (if \<not> isActive pf then (pf, pg, v)
      else let d = showUI (hiddenElements pf) (display pg);
               pf1 = pf\<lparr>isActive := False, hiddenElements := [], fullscreen := False\<rparr>;
               (pf2, v') = restoreOptimizations v pf1
           in (pf2\<lparr>indicatorPresent := False\<rparr>, pg\<lparr>display := d\<rparr>, v'))"

text \<open>\<open>toggle\<close> (lines 292-298), always called with the visualizer.\<close>

definition toggle :: "real \<Rightarrow> vis \<Rightarrow> perf \<Rightarrow> page \<Rightarrow> perf \<times> page \<times> vis" where
  "toggle now v pf pg =
     (if isActive pf
      then (let (pf', pg', v') = exit (Some v) pf pg in (pf', pg', the v'))
      else (let (pf', pg') = enter now (Some v) pf pg in (pf', pg', v)))"

text \<open>The \<open>keydown\<close> listener of \<open>init\<close> (lines 32-36): Escape exits without a
  visualizer.\<close>

definition escape_key :: "string \<Rightarrow> perf \<Rightarrow> page \<Rightarrow> perf \<times> page" where
  "escape_key key pf pg =
     (if key = ''Escape'' \<and> isActive pf then (let (pf', pg', _) = exit None pf pg in (pf', pg')) else (pf, pg))"

subsection \<open>Performance mode as a state machine\<close>

record perf_sys =
  pf :: perf
  pg :: page
  viz :: vis

datatype perf_event =
    ToggleEv real
  | KeyEv string
  | PerfTimeoutEv real real
  | DisplayWrite nat string

text \<open>A toggle at a clock value; a key press; the timeout of the frame-time test
  started at \<open>s\<close>, firing at \<open>now \<ge> s + 1000\<close>; a write of an element's display by
  other code of the page.\<close>

definition perf_step :: "perf_sys \<Rightarrow> perf_event \<Rightarrow> perf_sys option" where
  "perf_step st ev =
     (case ev of
        ToggleEv now \<Rightarrow> (let (p', g', v') = toggle now (viz st) (pf st) (pg st) in Some \<lparr>pf = p', pg = g', viz = v'\<rparr>)
      | KeyEv k \<Rightarrow> (let (p', g') = escape_key k (pf st) (pg st) in Some (st\<lparr>pf := p', pg := g'\<rparr>))
      | PerfTimeoutEv s now \<Rightarrow>
          if s \<in> set (perfTests (pf st)) \<and> s + 1000 \<le> now then Some (st\<lparr>pf := perfTimeout s now (pf st)\<rparr>) else None
      | DisplayWrite el s \<Rightarrow> Some (st\<lparr>pg := (pg st)\<lparr>display := (display (pg st))(el := s)\<rparr>\<rparr>))"

inductive perf_reachable :: "vis \<Rightarrow> perf_sys \<Rightarrow> bool" where
  init: "perf_reachable v \<lparr>pf = new_perf, pg = g, viz = v\<rparr>"
| step: "perf_reachable v st \<Longrightarrow> perf_step st ev = Some st' \<Longrightarrow> perf_reachable v st'"

text \<open>The invariant of performance mode over the visualizer \<open>v\<close> it was given;
  and what holds of the hidden list and the displays while \<open>hideUI\<close> runs from the
  displays \<open>d0\<close>.\<close>

definition perf_inv :: "vis \<Rightarrow> perf_sys \<Rightarrow> bool" where
  "perf_inv v st =
     (viz st = v \<and>
      (reducedParticles (pf st) \<or> perfTests (pf st) \<noteq> [] \<longrightarrow> originalParticleCount (pf st) = particleCount v))"

definition hidden_ok :: "(nat \<Rightarrow> string) \<Rightarrow> (nat \<times> string) list \<times> (nat \<Rightarrow> string) \<Rightarrow> bool" where
  "hidden_ok d0 acc = (showUI (fst acc) (snd acc) = d0 \<and> (\<forall>p\<in>set (fst acc). snd acc (fst p) = ''none''))"

text \<open>A page with a visible header, two visible panels and the hidden recording
  indicator.\<close>

definition demo_page :: page where
  "demo_page =
     \<lparr>display = (\<lambda>i. if i = 5 then ''none'' else ''''),
      matches = (\<lambda>s. if s = ''.header'' then [0] else if s = ''.control-panel'' then [1]
                     else if s = ''.preset-panel'' then [2] else if s = ''#recording-indicator'' then [5] else []),
      fsApi = True\<rparr>"

subsection \<open>Properties\<close>

lemma showUI_append: "showUI (hs @ [(e, x)]) d = (showUI hs d)(e := x)"
  by (simp add: showUI_def)

lemma showUI_notin: "e \<notin> fst ` set hs \<Longrightarrow> showUI hs d e = d e"
  by (induction hs arbitrary: d) (auto simp: showUI_def)

lemma showUI_upd: "e \<notin> fst ` set hs \<Longrightarrow> showUI hs (d(e := x)) = (showUI hs d)(e := x)"
  by (induction hs arbitrary: d) (auto simp: showUI_def fun_upd_twist)

lemma hide_el_ok: "hidden_ok d0 acc \<Longrightarrow> hidden_ok d0 (hide_el el acc)"
proof (cases acc)
  case (Pair hs d)
  assume ok: "hidden_ok d0 acc"
  show ?thesis
  proof (cases "d el = ''none''")
    case False
    then have nin: "el \<notin> fst ` set hs" using ok Pair by (force simp: hidden_ok_def)
    have "d0 el = showUI hs d el" using ok Pair by (simp add: hidden_ok_def)
    also have "\<dots> = d el" using showUI_notin[OF nin] .
    finally have "d0 el = d el" .
    then show ?thesis
      using ok Pair False nin by (auto simp: hidden_ok_def hide_el_def showUI_append showUI_upd)
  qed (use ok Pair in \<open>simp add: hide_el_def\<close>)
qed

lemma fold_hide_el_ok: "hidden_ok d0 acc \<Longrightarrow> hidden_ok d0 (fold hide_el els acc)"
  by (induction els arbitrary: acc) (simp_all add: hide_el_ok)

lemma hideUI_ok: "hidden_ok (display g) (hideUI g)"
proof -
  have "hidden_ok (display g) (fold (\<lambda>sel. fold hide_el (matches g sel)) sels acc)"
    if "hidden_ok (display g) acc" for sels acc
    using that by (induction sels arbitrary: acc) (simp_all add: fold_hide_el_ok)
  moreover have "hidden_ok (display g) ([], display g)" by (simp add: hidden_ok_def showUI_def)
  ultimately show ?thesis by (simp add: hideUI_def)
qed

lemma show_hide_roundtrip: "showUI (fst (hideUI g)) (snd (hideUI g)) = display g"
  using hideUI_ok[of g] by (simp add: hidden_ok_def)

lemma hide_el_keeps: "snd acc x = ''none'' \<Longrightarrow> snd (hide_el el acc) x = ''none''"
  by (cases acc) (simp add: hide_el_def)

lemma fold_hide_el_keeps: "snd acc x = ''none'' \<Longrightarrow> snd (fold hide_el els acc) x = ''none''"
  by (induction els arbitrary: acc) (simp_all add: hide_el_keeps)

lemma fold_hide_el_sets: "x \<in> set els \<Longrightarrow> snd (fold hide_el els acc) x = ''none''"
proof (induction els arbitrary: acc)
  case (Cons a els)
  show ?case
  proof (cases "x \<in> set els")
    case True
    then show ?thesis using Cons.IH by simp
  next
    case False
    then have "x = a" using Cons.prems by simp
    moreover have "snd (hide_el a acc) a = ''none''" by (cases acc) (simp add: hide_el_def)
    ultimately show ?thesis using fold_hide_el_keeps[of "hide_el a acc" x els] by simp
  qed
qed simp

lemma hideUI_hides:
  assumes "sel \<in> set uiSelectors" "el \<in> set (matches g sel)"
  shows "snd (hideUI g) el = ''none''"
proof -
  have keep: "snd acc el = ''none'' \<Longrightarrow> snd (fold (\<lambda>s. fold hide_el (matches g s)) sels acc) el = ''none''"
    for sels acc by (induction sels arbitrary: acc) (simp_all add: fold_hide_el_keeps)
  have "sel \<in> set sels \<Longrightarrow> snd (fold (\<lambda>s. fold hide_el (matches g s)) sels acc) el = ''none''" for sels acc
  proof (induction sels arbitrary: acc)
    case (Cons a sels)
    show ?case
    proof (cases "sel \<in> set sels")
      case True
      then show ?thesis using Cons.IH by simp
    next
      case False
      then have "sel = a" using Cons.prems by simp
      then show ?thesis using keep fold_hide_el_sets[OF assms(2)] by simp
    qed
  qed simp
  then show ?thesis using assms(1) by (simp add: hideUI_def)
qed

text \<open>C32: toggling performance mode on and off again restores the display of every element of the page, leaves the visualizer unchanged, and leaves no hidden list, indicator or full screen behind.\<close>

theorem toggle_twice_restores:
  assumes "\<not> isActive (pf st)" "perf_step st (ToggleEv t1) = Some st1" "perf_step st1 (ToggleEv t2) = Some st2"
  shows "display (pg st2) = display (pg st) \<and> viz st2 = viz st \<and> \<not> isActive (pf st2) \<and>
         hiddenElements (pf st2) = [] \<and> \<not> indicatorPresent (pf st2) \<and> \<not> fullscreen (pf st2)"
  using assms show_hide_roundtrip[of "pg st"]
  by (auto simp: perf_step_def toggle_def enter_def exit_def applyOptimizations_def restoreOptimizations_def
      Let_def split: prod.splits if_splits)

text \<open>C33: the frame-time test measures the delay of its own 1000 ms timeout, so every test that fires flags reduced particles.\<close>

theorem perf_test_always_slow: "perf_step st (PerfTimeoutEv s now) = Some st' \<Longrightarrow> reducedParticles (pf st')"
  by (auto simp: perf_step_def perfTimeout_def split: if_splits)

lemma perf_step_inv: "perf_inv v st \<Longrightarrow> perf_step st ev = Some st' \<Longrightarrow> perf_inv v st'"
  by (cases ev) (auto simp: perf_inv_def perf_step_def toggle_def enter_def exit_def escape_key_def
      applyOptimizations_def restoreOptimizations_def perfTimeout_def Let_def split: prod.splits if_splits)

lemma perf_reachable_inv: "perf_reachable v st \<Longrightarrow> perf_inv v st"
proof (induction rule: perf_reachable.induct)
  case (init v g)
  then show ?case by (simp add: perf_inv_def new_perf_def)
next
  case (step v st ev st')
  then show ?case using perf_step_inv by blast
qed

text \<open>Performance mode never changes the visualizer, its particle count included: restoring the optimisations writes back the count read on entering.\<close>

theorem perf_keeps_visualizer: "perf_reachable v st \<Longrightarrow> viz st = v"
  using perf_reachable_inv by (simp add: perf_inv_def)

theorem toggle_twice_restores_witness:
  "display (pg (the (perf_step (the (perf_step \<lparr>pf = new_perf, pg = demo_page, viz = vis_fields\<rparr> (ToggleEv 0)))
      (ToggleEv 5000)))) = display demo_page"
proof -
  let ?s0 = "\<lparr>pf = new_perf, pg = demo_page, viz = vis_fields\<rparr>"
  let ?s1 = "the (perf_step ?s0 (ToggleEv 0))"
  have "perf_step ?s0 (ToggleEv 0) = Some ?s1" "perf_step ?s1 (ToggleEv 5000) = Some (the (perf_step ?s1 (ToggleEv 5000)))"
    by (simp_all add: perf_step_def split: prod.splits)
  moreover have "\<not> isActive (pf ?s0)" by (simp add: new_perf_def)
  ultimately show ?thesis using toggle_twice_restores by fastforce
qed

theorem perf_test_always_slow_witness:
  "reducedParticles (pf (the (perf_step (the (perf_step \<lparr>pf = new_perf, pg = demo_page, viz = vis_fields\<rparr> (ToggleEv 0)))
      (PerfTimeoutEv 0 1000))))"
proof -
  let ?s1 = "the (perf_step \<lparr>pf = new_perf, pg = demo_page, viz = vis_fields\<rparr> (ToggleEv 0))"
  have "perf_step ?s1 (PerfTimeoutEv 0 1000) = Some (the (perf_step ?s1 (PerfTimeoutEv 0 1000)))"
    by (simp add: perf_step_def toggle_def enter_def applyOptimizations_def new_perf_def Let_def split: prod.splits)
  then show ?thesis using perf_test_always_slow by blast
qed

theorem perf_keeps_visualizer_witness:
  "viz (the (perf_step \<lparr>pf = new_perf, pg = demo_page, viz = vis_fields\<rparr> (ToggleEv 0))) = vis_fields"
proof -
  let ?s0 = "\<lparr>pf = new_perf, pg = demo_page, viz = vis_fields\<rparr>"
  have "perf_step ?s0 (ToggleEv 0) = Some (the (perf_step ?s0 (ToggleEv 0)))"
    by (simp add: perf_step_def split: prod.splits)
  then have "perf_reachable vis_fields (the (perf_step ?s0 (ToggleEv 0)))"
    using perf_reachable.init perf_reachable.step by blast
  then show ?thesis by (rule perf_keeps_visualizer)
qed

end
