(* ===== verification/FeatureVector.thy ===== *)
theory FeatureVector
  imports AudioEngine
begin

text \<open>
  The FeatureVector of the specification (section 3) as a type: the energies of the six
  named bands, the average and the beat intensity are values of \<open>unit_real\<close>, the reals
  in \<open>[0, 1]\<close>, so that a value of the type carries its ranges with it.
  \<open>typed_features\<close> reads the \<open>audio_data\<close> record that \<open>getFrequencyData\<close>
  returns (src/audio-engine.js, lines 206-212) as such a value, or \<open>None\<close> when a field is
  out of range or a band is missing or \<open>NaN\<close>.
\<close>

typedef unit_real = "{x::real. 0 \<le> x \<and> x \<le> 1}"
  morphisms unit_val Abs_unit_real
  by (rule exI [of _ 0]) simp

setup_lifting type_definition_unit_real

text \<open>The embedding of the reals, clamping into \<open>[0, 1]\<close>; on values in range it is
  the identity.\<close>

lift_definition clamp_unit :: "real \<Rightarrow> unit_real" is "\<lambda>x. max 0 (min 1 x)"
  by simp

datatype band_name = Sub | Bass | Low | Mid | High | Treble

definition band_names :: "band_name list" where
  "band_names = [Sub, Bass, Low, Mid, High, Treble]"

text \<open>The keys of \<open>this.frequencyBands\<close> (audio-engine.js, lines 27-34).\<close>

primrec band_key :: "band_name \<Rightarrow> string" where
  "band_key Sub = ''sub''"
| "band_key Bass = ''bass''"
| "band_key Low = ''low''"
| "band_key Mid = ''mid''"
| "band_key High = ''high''"
| "band_key Treble = ''treble''"

record feature_vector =
  fv_energy :: "band_name \<Rightarrow> unit_real"
  fv_average :: unit_real
  fv_beat :: bool
  fv_intensity :: unit_real

definition in_unit :: "real \<Rightarrow> bool" where
  "in_unit x \<longleftrightarrow> 0 \<le> x \<and> x \<le> 1"

definition band_in_unit :: "audio_data \<Rightarrow> band_name \<Rightarrow> bool" where
  "band_in_unit a n = (case band a (band_key n) of None \<Rightarrow> False | Some v \<Rightarrow> in_unit v)"

definition typed_features :: "audio_data \<Rightarrow> feature_vector option" where
  "typed_features a =
     (if list_all (band_in_unit a) band_names \<and> in_unit (average a) \<and> in_unit (beatIntensity a)
      then Some \<lparr>fv_energy = \<lambda>n. clamp_unit (the (band a (band_key n))),
                 fv_average = clamp_unit (average a), fv_beat = beat a,
                 fv_intensity = clamp_unit (beatIntensity a)\<rparr>
      else None)"

text \<open>The sample rates at which every band of the default table covers a bin.\<close>

definition rate_ok :: "engine \<Rightarrow> bool" where
  "rate_ok e = (case audioContext e of None \<Rightarrow> True
                | Some ctx \<Rightarrow> 16000 \<le> sampleRate ctx \<and> sampleRate ctx \<le> 122880)"

subsection \<open>Lemmas\<close>

lemma unit_val_range: "0 \<le> unit_val u \<and> unit_val u \<le> 1"
  using unit_val [of u] by simp

lemma clamp_unit_val [simp]: "in_unit x \<Longrightarrow> unit_val (clamp_unit x) = x"
  by transfer (simp add: in_unit_def)

lemma clamp_unit_of_val [simp]: "clamp_unit (unit_val u) = u"
  by transfer simp

lemma all_band_names: "n \<in> set band_names"
  by (cases n) (simp_all add: band_names_def)

lemma band_of_bands:
  assumes "map fst bs = [''sub'', ''bass'', ''low'', ''mid'', ''high'', ''treble'']"
    and "\<forall>(name, v) \<in> set bs. \<exists>x. v = Some x \<and> 0 \<le> x \<and> x \<le> 1"
  shows "\<exists>x. band (a\<lparr>bands := bs\<rparr>) (band_key n) = Some x \<and> in_unit x"
proof -
  have "band_key n \<in> set (map fst bs)" using assms(1) by (cases n) simp_all
  then have "map_of bs (band_key n) \<noteq> None" by (simp add: map_of_eq_None_iff)
  then obtain v where v: "map_of bs (band_key n) = Some v" by blast
  then have "(band_key n, v) \<in> set bs" by (rule map_of_SomeD)
  with assms(2) obtain x where "v = Some x" "0 \<le> x" "x \<le> 1" by fastforce
  then show ?thesis using v by (simp add: band_def in_unit_def)
qed

lemma typed_features_Some:
  assumes "list_all (band_in_unit a) band_names" "in_unit (average a)" "in_unit (beatIntensity a)"
  shows "\<exists>fv. typed_features a = Some fv \<and> unit_val (fv_average fv) = average a \<and>
              fv_beat fv = beat a \<and> unit_val (fv_intensity fv) = beatIntensity a \<and>
              (\<forall>n. band a (band_key n) = Some (unit_val (fv_energy fv n)))"
proof -
  have bu: "band_in_unit a n" for n
    using assms(1) all_band_names [of n] by (simp add: list_all_iff)
  define fv where "fv = \<lparr>fv_energy = \<lambda>n. clamp_unit (the (band a (band_key n))),
                            fv_average = clamp_unit (average a), fv_beat = beat a,
                            fv_intensity = clamp_unit (beatIntensity a)\<rparr>"
  have "typed_features a = Some fv" using assms by (simp add: typed_features_def fv_def)
  moreover have "band a (band_key n) = Some (unit_val (fv_energy fv n))" for n
    using bu [of n] by (auto simp: fv_def band_in_unit_def split: option.splits)
  moreover have "unit_val (fv_average fv) = average a" "fv_beat fv = beat a"
    "unit_val (fv_intensity fv) = beatIntensity a"
    using assms by (simp_all add: fv_def)
  ultimately show ?thesis by blast
qed

text \<open>C30: the frame crossing from the engine to the visualizer is well typed: in
  every reachable engine state whose context (if any) runs at 16 kHz to 122.88 kHz,
  \<open>getFrequencyData\<close> returns a frame that is a FeatureVector, every band energy, the
  average and the beat intensity in \<open>[0, 1]\<close>, and the typed value reads back the
  frame's own numbers.\<close>

theorem frame_is_feature_vector:
  assumes "engine_reachable e" "rate_ok e" "getFrequencyData spectrum now e = Some (a, e')"
  shows "\<exists>fv. typed_features a = Some fv \<and> unit_val (fv_average fv) = average a \<and>
              fv_beat fv = beat a \<and> unit_val (fv_intensity fv) = beatIntensity a \<and>
              (\<forall>n. band a (band_key n) = Some (unit_val (fv_energy fv n)))"
proof (rule typed_features_Some)
  have inv: "engine_inv e" using assms(1) by (rule engine_reachable_inv)
  have bs: "map fst (bands a) = [''sub'', ''bass'', ''low'', ''mid'', ''high'', ''treble''] \<and>
            (\<forall>(name, v) \<in> set (bands a). \<exists>x. v = Some x \<and> 0 \<le> x \<and> x \<le> 1)"
  proof (rule getFrequencyData_bands [OF inv assms(3)])
    fix ctx assume "audioContext e = Some ctx"
    then show "16000 \<le> sampleRate ctx \<and> sampleRate ctx \<le> 122880" using assms(2) by (simp add: rate_ok_def)
  qed
  have "band_in_unit a n" for n
  proof -
    obtain x where "band (a\<lparr>bands := bands a\<rparr>) (band_key n) = Some x" "in_unit x"
      using band_of_bands [OF conjunct1 [OF bs] conjunct2 [OF bs], of a n] by blast
    then show ?thesis by (simp add: band_in_unit_def)
  qed
  then show "list_all (band_in_unit a) band_names"
    by (simp add: list_all_iff)
  obtain a0 e0 where fr0: "getFrequencyData spectrum now e = Some (a0, e0)"
    and rng: "0 \<le> average a0" "average a0 \<le> 1" "0 \<le> beatIntensity a0" "beatIntensity a0 \<le> 1"
    using getFrequencyData_inv [OF inv, of spectrum now] by blast
  have "a0 = a" using fr0 assms(3) by simp
  then show "in_unit (average a)" "in_unit (beatIntensity a)"
    using rng by (simp_all add: in_unit_def)
qed

theorem frame_is_feature_vector_witness:
  "\<exists>a e' fv. getFrequencyData [255] 1000 (new_engine True Running 48000) = Some (a, e') \<and>
     typed_features a = Some fv \<and> unit_val (fv_average fv) = average a"
proof -
  obtain a e' where fr: "getFrequencyData [255] 1000 (new_engine True Running 48000) = Some (a, e')"
    using getFrequencyData_inv [OF engine_reachable_inv [OF new_engine_reachable]] by blast
  have "rate_ok (new_engine True Running 48000)"
    by (simp add: rate_ok_def new_engine_def initAudioContext_def)
  then show ?thesis using frame_is_feature_vector [OF new_engine_reachable _ fr] fr by blast
qed

end
