(* ===== verification/DevServer.thy ===== *)
theory DevServer
  imports PresetManager
begin

text \<open>
  The development HTTP server (server.js, bundled in src/gesture-controller.js at lines
  476-588): the MIME table, the request handler that maps \<open>req.url\<close> to a file, reads
  it and answers 200, 404 or 500, and the life cycle of the process (listening, a server
  error, the shutdown signals).  The handler's two \<open>fs.readFile\<close> calls are modelled
  over a file system that does not change while a request is served.  What the handler
  calls from Node and from the operating system is modelled from their documented
  semantics: \<open>path.extname\<close> (POSIX flavour) and the resolution of a relative path
  against the working directory, component by component, where every component but the
  last must be a directory and \<open>..\<close> of the root is the root (symbolic links are not
  modelled).
\<close>

subsection \<open>File system and path library\<close>

text \<open>An entry of the file system; reading an \<open>Unreadable\<close> file fails with
  \<open>EACCES\<close>.  A path is the list of its components from the root.\<close>

datatype fs_entry = File string | Dir | Unreadable

type_synonym fsys = "string list \<Rightarrow> fs_entry option"

fun split_on :: "char \<Rightarrow> string \<Rightarrow> string list" where
  "split_on c [] = [[]]"
| "split_on c (x # xs) = (let ws = split_on c xs in if x = c then [] # ws else (x # hd ws) # tl ws)"

text \<open>Path resolution: \<open>walk fs cur segs\<close> follows the components \<open>segs\<close> from the
  directory \<open>cur\<close>; it fails with \<open>ENOENT\<close> or \<open>ENOTDIR\<close> when it has to go through
  something that is not a directory.\<close>

fun walk :: "fsys \<Rightarrow> string list \<Rightarrow> string list \<Rightarrow> string + string list" where
  "walk fs cur [] = Inr cur"
| "walk fs cur (s # ss) =
     (case fs cur of
        None \<Rightarrow> Inl ''ENOENT''
      | Some Dir \<Rightarrow> (if s = [] \<or> s = ''.'' then walk fs cur ss
                    else if s = ''..'' then walk fs (butlast cur) ss
                    else walk fs (cur @ [s]) ss)
      | Some _ \<Rightarrow> Inl ''ENOTDIR'')"

text \<open>\<open>fs.readFile(p, callback)\<close> with the working directory \<open>cwd\<close>: the error code the
  callback receives, or the content.\<close>

definition readFile :: "fsys \<Rightarrow> string list \<Rightarrow> string \<Rightarrow> string + string" where
  "readFile fs cwd p =
     (case walk fs (case p of CHR ''/'' # _ \<Rightarrow> [] | _ \<Rightarrow> cwd) (split_on CHR ''/'' p) of
        Inl e \<Rightarrow> Inl e
      | Inr q \<Rightarrow> (case fs q of
                   None \<Rightarrow> Inl ''ENOENT''
                 | Some Dir \<Rightarrow> Inl ''EISDIR''
                 | Some Unreadable \<Rightarrow> Inl ''EACCES''
                 | Some (File c) \<Rightarrow> Inr c))"

text \<open>\<open>path.extname\<close>: the last component (trailing slashes ignored) from its last dot
  on, or the empty string when it has no dot, when its only dot is its first character,
  or when it is \<open>..\<close>.\<close>

definition base_part :: "string \<Rightarrow> string" where
  "base_part p = rev (takeWhile (\<lambda>c. c \<noteq> CHR ''/'') (dropWhile (\<lambda>c. c = CHR ''/'') (rev p)))"

definition extname :: "string \<Rightarrow> string" where
  "extname p =
     (let b = base_part p; s = rev (takeWhile (\<lambda>c. c \<noteq> CHR ''.'') (rev b))
      in if CHR ''.'' \<notin> set b \<or> length s + 1 = length b \<or> b = ''..'' then [] else CHR ''.'' # s)"

subsection \<open>The request handler\<close>

text \<open>\<open>const mimeTypes\<close> (lines 483-501), in the order of the literal.\<close>

definition mimeTypes_srv :: "(string \<times> string) list" where
  "mimeTypes_srv =
     [(''.html'', ''text/html''), (''.css'', ''text/css''), (''.js'', ''application/javascript''),
      (''.json'', ''application/json''), (''.png'', ''image/png''), (''.jpg'', ''image/jpeg''),
      (''.gif'', ''image/gif''), (''.svg'', ''image/svg+xml''), (''.ico'', ''image/x-icon''),
      (''.mp3'', ''audio/mpeg''), (''.wav'', ''audio/wav''), (''.mp4'', ''video/mp4''),
      (''.webm'', ''video/webm''), (''.woff'', ''font/woff''), (''.woff2'', ''font/woff2''),
      (''.ttf'', ''font/ttf''), (''.md'', ''text/markdown'')]"

text \<open>Lines 506-511: \<open>'.' + req.url\<close>, with \<open>./\<close> replaced by the landing page.\<close>

definition request_path :: "string \<Rightarrow> string" where
  "request_path url = (let fp = ''.'' @ url in if fp = ''./'' then ''./landing.html'' else fp)"

text \<open>Lines 514-515.\<close>

definition content_type :: "string \<Rightarrow> string" where
  "content_type fp =
     (case map_of mimeTypes_srv (toLowerCase (extname fp)) of
        Some t \<Rightarrow> t
      | None \<Rightarrow> ''application/octet-stream'')"

record response =
  status :: nat
  resp_headers :: "(string \<times> string) list"
  resp_body :: string

text \<open>The handler passed to \<open>http.createServer\<close> (lines 504-540): the response sent
  for the request target \<open>url\<close>.  An \<open>ENOENT\<close> reads \<open>./404.html\<close>; a \<open>Buffer\<close> is
  truthy even when empty, so \<open>content404 || ...\<close> takes the default text exactly when
  that read fails.\<close>

definition serve :: "fsys \<Rightarrow> string list \<Rightarrow> string \<Rightarrow> response" where
  "serve fs cwd url =
     (let filePath = request_path url; contentType = content_type filePath
      in case readFile fs cwd filePath of
           Inl code \<Rightarrow>
             (if code = ''ENOENT''
              then \<lparr>status = 404, resp_headers = [(''Content-Type'', ''text/html'')],
                    resp_body = (case readFile fs cwd ''./404.html'' of
                                   Inr content404 \<Rightarrow> content404
                                 | Inl _ \<Rightarrow> ''<h1>404 - File Not Found</h1>'')\<rparr>
              else \<lparr>status = 500, resp_headers = [], resp_body = ''Server Error: '' @ code\<rparr>)
         | Inr content \<Rightarrow>
             \<lparr>status = 200,
              resp_headers = [(''Content-Type'', contentType), (''Access-Control-Allow-Origin'', ''*'')],
              resp_body = content\<rparr>)"

subsection \<open>Process life cycle\<close>

text \<open>\<open>process.env.PORT || 8080\<close> (line 480): an unset or empty variable gives 8080.\<close>

definition port_of :: "string option \<Rightarrow> string" where
  "port_of env = (case env of None \<Rightarrow> ''8080'' | Some v \<Rightarrow> if v = [] then ''8080'' else v)"

datatype srv_phase = Starting | Listening | Closing | Exited int

record srv =
  phase :: srv_phase
  port :: string
  srv_fs :: fsys
  srv_cwd :: "string list"
  pendingClose :: nat
  served :: "response list"
  console :: "string list"

datatype srv_event = ListenCb | ServerError string | Signal | CloseCb | Request string

definition new_srv :: "string option \<Rightarrow> fsys \<Rightarrow> string list \<Rightarrow> srv" where
  "new_srv env fs cwd = \<lparr>phase = Starting, port = port_of env, srv_fs = fs, srv_cwd = cwd,
                         pendingClose = 0, served = [], console = []\<rparr>"

text \<open>One event of the process (lines 504-588): the \<open>listen\<close> callback, the server's
  \<open>error\<close> event, \<open>SIGTERM\<close> or \<open>SIGINT\<close> (the two handlers are the same), the
  callback of a \<open>server.close\<close>, and a request.  \<open>process.exit\<close> ends the process, so
  nothing happens after it; each signal calls \<open>server.close\<close> again and registers one
  more callback, which exits with status 0 whether or not the server was still running.
  Requests are accepted while listening.\<close>

definition srv_step :: "srv \<Rightarrow> srv_event \<Rightarrow> srv option" where
  "srv_step s ev =
     (case phase s of
        Exited _ \<Rightarrow> None
      | ph \<Rightarrow>
          (case ev of
             ListenCb \<Rightarrow>
               (if ph = Starting
                then Some (s\<lparr>phase := Listening,
                             console := console s @ [''Server running at: http://localhost:'' @ port s]\<rparr>)
                else None)
           | ServerError code \<Rightarrow>
               Some (s\<lparr>phase := Exited 1,
                       console := console s @ [if code = ''EADDRINUSE''
                                               then ''Error: Port '' @ port s @ '' is already in use.''
                                               else ''Server error'']\<rparr>)
           | Signal \<Rightarrow>
               Some (s\<lparr>phase := Closing, pendingClose := pendingClose s + 1,
                       console := console s @ [''Shutting down server...'']\<rparr>)
           | CloseCb \<Rightarrow>
               (if 0 < pendingClose s
                then Some (s\<lparr>phase := Exited 0, console := console s @ [''Server closed'']\<rparr>)
                else None)
           | Request url \<Rightarrow>
               (if ph = Listening
                then Some (s\<lparr>served := served s @ [serve (srv_fs s) (srv_cwd s) url]\<rparr>)
                else None)))"

fun srv_run :: "srv \<Rightarrow> srv_event list \<Rightarrow> srv option" where
  "srv_run s [] = Some s"
| "srv_run s (ev # evs) = Option.bind (srv_step s ev) (\<lambda>s'. srv_run s' evs)"

subsection \<open>Helpers for stating the properties\<close>

text \<open>A path component that resolution takes literally.\<close>

definition plain_seg :: "string \<Rightarrow> bool" where
  "plain_seg s \<longleftrightarrow> s \<noteq> [] \<and> s \<noteq> ''.'' \<and> s \<noteq> ''..'' \<and> CHR ''/'' \<notin> set s"

fun path_of :: "string list \<Rightarrow> string" where
  "path_of [] = []"
| "path_of [s] = s"
| "path_of (s # ss) = s @ ''/'' @ path_of ss"

text \<open>A small file system: the server runs in \<open>/srv\<close>, which holds
  \<open>index.html\<close>; \<open>/etc/passwd\<close> is outside it.\<close>

definition example_fs :: fsys where
  "example_fs p =
     (if p \<in> {[], [''srv''], [''etc'']} then Some Dir
      else if p = [''etc'', ''passwd''] then Some (File ''root:x:0:0'')
      else if p = [''srv'', ''index.html''] then Some (File ''<html>'')
      else None)"

subsection \<open>Properties\<close>

lemma split_on_no_sep: "c \<notin> set w \<Longrightarrow> split_on c w = [w]"
  by (induction w) (auto simp: Let_def)

lemma split_on_sep: "c \<notin> set w \<Longrightarrow> split_on c (w @ c # r) = w # split_on c r"
  by (induction w) (auto simp: Let_def)

lemma path_of_Cons: "ss \<noteq> [] \<Longrightarrow> path_of (s # ss) = s @ ''/'' @ path_of ss"
  by (cases ss) simp_all

lemma split_path_of:
  "ss \<noteq> [] \<Longrightarrow> \<forall>s \<in> set ss. CHR ''/'' \<notin> set s \<Longrightarrow> split_on CHR ''/'' (path_of ss) = ss"
proof (induction ss rule: path_of.induct)
  case (3 s v va)
  then show ?case by (simp add: split_on_sep del: path_of.simps(3)) (simp add: path_of_Cons split_on_sep)
qed (simp_all add: split_on_no_sep)

lemma walk_dotdot:
  assumes "m \<le> length cur" "\<forall>k \<le> length cur. fs (take k cur) = Some Dir"
  shows "walk fs cur (replicate m ''..'' @ ss) = walk fs (take (length cur - m) cur) ss"
  using assms
proof (induction m arbitrary: cur)
  case 0
  then show ?case by simp
next
  case (Suc m)
  have dir: "fs cur = Some Dir" using Suc.prems(2) by (metis order_refl take_all)
  have "walk fs (butlast cur) (replicate m ''..'' @ ss) = walk fs (take (length (butlast cur) - m) (butlast cur)) ss"
    using Suc.prems by (intro Suc.IH) (auto simp: butlast_conv_take)
  then show ?case using dir Suc.prems(1) by (simp add: butlast_conv_take min_def)
qed

lemma walk_plain:
  assumes "\<forall>s \<in> set t. plain_seg s" "\<forall>k < length t. fs (pre @ take k t) = Some Dir"
  shows "walk fs pre t = Inr (pre @ t)"
  using assms
proof (induction t arbitrary: pre)
  case Nil
  then show ?case by simp
next
  case (Cons s t)
  have "fs pre = Some Dir" using Cons.prems(2) by (metis append_Nil2 length_greater_0_conv list.simps(3) take_0)
  moreover have "walk fs (pre @ [s]) t = Inr ((pre @ [s]) @ t)"
  proof (rule Cons.IH)
    show "\<forall>s \<in> set t. plain_seg s" using Cons.prems(1) by simp
    show "\<forall>k < length t. fs ((pre @ [s]) @ take k t) = Some Dir"
    proof (intro allI impI)
      fix k assume "k < length t"
      then show "fs ((pre @ [s]) @ take k t) = Some Dir" using Cons.prems(2) [rule_format, of "Suc k"] by simp
    qed
  qed
  moreover have "plain_seg s" using Cons.prems(1) by simp
  ultimately show ?case by (simp add: plain_seg_def)
qed


lemma path_of_nonempty: "ss \<noteq> [] \<Longrightarrow> \<forall>s \<in> set ss. s \<noteq> [] \<Longrightarrow> path_of ss \<noteq> []"
  by (induction ss rule: path_of.induct) simp_all

lemma request_path_rel: "url \<noteq> ''/'' \<Longrightarrow> request_path url = ''.'' @ url"
  by (simp add: request_path_def)

lemma serve_found:
  "readFile fs cwd (request_path url) = Inr c \<Longrightarrow>
   serve fs cwd url = \<lparr>status = 200,
     resp_headers = [(''Content-Type'', content_type (request_path url)), (''Access-Control-Allow-Origin'', ''*'')],
     resp_body = c\<rparr>"
  by (simp add: serve_def)

lemma serve_not_found:
  "readFile fs cwd (request_path url) = Inl ''ENOENT'' \<Longrightarrow>
   serve fs cwd url = \<lparr>status = 404, resp_headers = [(''Content-Type'', ''text/html'')],
     resp_body = (case readFile fs cwd ''./404.html'' of Inr c \<Rightarrow> c | Inl _ \<Rightarrow> ''<h1>404 - File Not Found</h1>'')\<rparr>"
  by (simp add: serve_def)

lemma readFile_rel:
  "readFile fs cwd (CHR ''.'' # p) = (case walk fs cwd (split_on CHR ''/'' (CHR ''.'' # p)) of
        Inl e \<Rightarrow> Inl e
      | Inr q \<Rightarrow> (case fs q of None \<Rightarrow> Inl ''ENOENT'' | Some Dir \<Rightarrow> Inl ''EISDIR''
                 | Some Unreadable \<Rightarrow> Inl ''EACCES'' | Some (File c) \<Rightarrow> Inr c))"
  by (simp add: readFile_def)

text \<open>C10: the server serves any file of the machine: \<open>'.' + req.url\<close> is read without
  normalising it, so for a working directory \<open>cwd\<close> of depth \<open>d\<close>, a request target
  \<open>/../\<close> repeated \<open>d\<close> times followed by the path of any readable file answers 200
  with that file's content, and with \<open>Access-Control-Allow-Origin: *\<close>.\<close>

theorem traversal_reads_any_file:
  assumes cwd: "\<forall>k \<le> length cwd. fs (take k cwd) = Some Dir"
    and t: "t \<noteq> []" "\<forall>s \<in> set t. plain_seg s" "\<forall>k < length t. fs (take k t) = Some Dir"
    and fl: "fs t = Some (File c)"
  shows "status (serve fs cwd (''/'' @ path_of (replicate (length cwd) ''..'' @ t))) = 200 \<and>
         resp_body (serve fs cwd (''/'' @ path_of (replicate (length cwd) ''..'' @ t))) = c \<and>
         (''Access-Control-Allow-Origin'', ''*'') \<in>
           set (resp_headers (serve fs cwd (''/'' @ path_of (replicate (length cwd) ''..'' @ t))))"
proof -
  define X where "X = replicate (length cwd) ''..'' @ t"
  have "\<forall>s \<in> set t. s \<noteq> [] \<and> CHR ''/'' \<notin> set s" using t(2) by (simp add: plain_seg_def)
  then have segs: "\<forall>s \<in> set X. s \<noteq> [] \<and> CHR ''/'' \<notin> set s" by (simp add: X_def set_replicate_conv_if)
  have X: "X \<noteq> []" using t(1) by (simp add: X_def)
  then have "path_of X \<noteq> []" using segs path_of_nonempty by blast
  then have rp: "request_path (''/'' @ path_of X) = path_of (''.'' # X)"
    using X by (simp add: request_path_rel path_of_Cons)
  have sp: "split_on CHR ''/'' (path_of (''.'' # X)) = ''.'' # X"
    using X segs by (intro split_path_of) auto
  have "fs cwd = Some Dir" using cwd by (metis order_refl take_all)
  then have "walk fs cwd (''.'' # X) = walk fs [] t"
    using walk_dotdot [OF order_refl cwd] by (simp add: X_def)
  also have "\<dots> = Inr t" using walk_plain [of t fs "[]"] t(2,3) by simp
  finally have "readFile fs cwd (path_of (''.'' # X)) = Inr c"
    using sp fl X by (simp add: path_of_Cons readFile_rel)
  then have "serve fs cwd (''/'' @ path_of X) = \<lparr>status = 200,
     resp_headers = [(''Content-Type'', content_type (request_path (''/'' @ path_of X))), (''Access-Control-Allow-Origin'', ''*'')],
     resp_body = c\<rparr>"
    using rp by (intro serve_found) simp
  then show ?thesis unfolding X_def by simp
qed

theorem traversal_reads_any_file_witness:
  "status (serve example_fs [''srv''] (''/'' @ path_of (replicate (length [''srv'']) ''..'' @ [''etc'', ''passwd'']))) = 200 \<and>
   resp_body (serve example_fs [''srv''] (''/'' @ path_of (replicate (length [''srv'']) ''..'' @ [''etc'', ''passwd'']))) = ''root:x:0:0'' \<and>
   (''Access-Control-Allow-Origin'', ''*'') \<in>
     set (resp_headers (serve example_fs [''srv''] (''/'' @ path_of (replicate (length [''srv'']) ''..'' @ [''etc'', ''passwd'']))))"
  by (rule traversal_reads_any_file) (auto simp: example_fs_def plain_seg_def le_Suc_eq less_Suc_eq)

text \<open>C24: a request with a query string is not found: the query is kept in the file
  name, so \<open>/name?q\<close> answers 404 although \<open>name\<close> exists, unless a file literally
  named \<open>name?q\<close> does.\<close>

theorem query_string_not_found:
  assumes cwd: "\<forall>k \<le> length cwd. fs (take k cwd) = Some Dir"
    and n: "plain_seg n" and q: "CHR ''/'' \<notin> set q"
    and exists: "fs (cwd @ [n]) = Some (File c)" and none: "fs (cwd @ [n @ ''?'' @ q]) = None"
  shows "status (serve fs cwd (''/'' @ n @ ''?'' @ q)) = 404"
proof -
  have "n @ ''?'' @ q \<noteq> ''.''" "n @ ''?'' @ q \<noteq> ''..''"
    by (auto dest: arg_cong [where f = set])
  then have nq: "plain_seg (n @ ''?'' @ q)" using n q by (auto simp: plain_seg_def)
  have rp: "request_path (''/'' @ n @ ''?'' @ q) = path_of [''.'', n @ ''?'' @ q]"
    by (simp add: request_path_rel)
  have sp: "split_on CHR ''/'' (path_of [''.'', n @ ''?'' @ q]) = [''.'', n @ ''?'' @ q]"
    using nq by (intro split_path_of) (auto simp: plain_seg_def)
  have "fs cwd = Some Dir" using cwd by (metis order_refl take_all)
  then have "walk fs cwd [''.'', n @ ''?'' @ q] = Inr (cwd @ [n @ ''?'' @ q])"
    using nq by (simp add: plain_seg_def)
  then have "readFile fs cwd (path_of [''.'', n @ ''?'' @ q]) = Inl ''ENOENT''"
    using sp none by (simp add: readFile_rel)
  then show ?thesis using rp by (simp add: serve_not_found)
qed


theorem query_string_not_found_witness:
  "status (serve example_fs [''srv''] (''/'' @ ''index.html'' @ ''?'' @ ''v=2'')) = 404"
  by (rule query_string_not_found [where c = "''<html>''"])
     (auto simp: example_fs_def plain_seg_def le_Suc_eq)


lemma signal_then_close_exits:
  assumes "phase s \<in> {Starting, Listening, Closing}"
  shows "srv_run s [Signal, CloseCb] =
           Some (s\<lparr>phase := Exited 0, pendingClose := Suc (pendingClose s),
                   console := console s @ [''Shutting down server...'', ''Server closed'']\<rparr>)"
  using assms by (auto simp: srv_step_def)

lemma serve_status: "status (serve fs cwd url) \<in> {200, 404, 500}"
  by (simp add: serve_def Let_def split: sum.split)

lemma root_serves_landing:
  assumes "fs cwd = Some Dir" "fs (cwd @ [''landing.html'']) = Some (File c)"
  shows "serve fs cwd ''/'' = \<lparr>status = 200,
           resp_headers = [(''Content-Type'', ''text/html''), (''Access-Control-Allow-Origin'', ''*'')],
           resp_body = c\<rparr>"
  using assms by (simp add: serve_def request_path_def readFile_def content_type_def extname_def
                            base_part_def toLowerCase_def lower_char_def mimeTypes_srv_def)

end
