(* ===== verification/Overlays.thy ===== *)
theory Overlays
  imports Recorder
begin

text \<open>
  The transient overlays the program adds to the page: the preset notification and the
  highlighted preset button (audio-engine.js, lines 745-835), the recording indicator
  (recorder.js, lines 71-116), the share dialog and the download notification
  (recorder.js, lines 415-539), the performance-mode indicator (performance-mode.js,
  lines 222-287), and the webcam preview and gesture status (gesture-controller.js,
  lines 75-149 and 438-444), with the downloads of a recording and of a screenshot that
  show the download notification (recorder.js, lines 270-284 and 312-352).  The page is an explicit store of element nodes in document order,
  \<open>head\<close> before \<open>body\<close>; each node has an identity \<open>nid\<close>, and the nodes created by one
  \<open>innerHTML\<close> belong to (\<open>node_owner\<close>) the element they were created in, so that
  \<open>remove()\<close> takes them with it.  \<open>getElementById\<close> returns the first node in document
  order with the id, as the DOM does when ids are duplicated.  Event listeners are kept
  per node in registration order, and \<open>setTimeout\<close> callbacks are pending timers with
  their due time, fired earliest first.
\<close>

subsection \<open>The page\<close>

record node =
  nid :: nat
  node_owner :: nat
  elem_id :: string
  classes :: "string list"
  data_preset :: string
  node_text :: string
  node_anim :: string
  node_opacity :: string
  node_color :: string

text \<open>The two listeners \<open>showShareDialog\<close> registers: the copy handler looks its input and
  button up when it runs; the close handler holds the dialog it was created with.\<close>

datatype handler = CopyLinkH | CloseShareH nat

datatype timer_cb = RestoreCopyBtn nat | FadePresetNote nat | FadeDownloadNote nat
  | FadePerfIndicator nat | RemoveNode nat | RevokeURL nat

record doc =
  head_nodes :: "node list"
  body_nodes :: "node list"
  next_nid :: nat
  listeners :: "(nat \<times> handler) list"
  timers :: "(int \<times> timer_cb) list"
  clipboard :: string
  object_urls :: "nat list"
  next_url :: nat
  anchor_clicks :: "string list"
  pending_blobs :: nat

definition all_nodes :: "doc \<Rightarrow> node list" where
  "all_nodes p = head_nodes p @ body_nodes p"

definition mk_node :: "nat \<Rightarrow> nat \<Rightarrow> string \<Rightarrow> string \<Rightarrow> node" where
  "mk_node n owner i txt = \<lparr>nid = n, node_owner = owner, elem_id = i, classes = [], data_preset = [],
                            node_text = txt, node_anim = [], node_opacity = ''1'',
                            node_color = []\<rparr>"

definition getElementById :: "doc \<Rightarrow> string \<Rightarrow> node option" where
  "getElementById p i = find (\<lambda>x. elem_id x = i) (all_nodes p)"

definition in_doc :: "doc \<Rightarrow> nat \<Rightarrow> bool" where
  "in_doc p n \<longleftrightarrow> list_ex (\<lambda>x. nid x = n) (all_nodes p)"

text \<open>\<open>element.remove()\<close>: the element and the nodes of its \<open>innerHTML\<close>.\<close>

definition remove_node :: "nat \<Rightarrow> doc \<Rightarrow> doc" where
  "remove_node n p =
     p\<lparr>head_nodes := filter (\<lambda>x. nid x \<noteq> n \<and> node_owner x \<noteq> n) (head_nodes p),
       body_nodes := filter (\<lambda>x. nid x \<noteq> n \<and> node_owner x \<noteq> n) (body_nodes p)\<rparr>"

text \<open>A write to a property of the node \<open>n\<close> (a write to a detached node changes nothing
  on the page).\<close>

definition modify_node :: "nat \<Rightarrow> (node \<Rightarrow> node) \<Rightarrow> doc \<Rightarrow> doc" where
  "modify_node n f p =
     p\<lparr>head_nodes := map (\<lambda>x. if nid x = n then f x else x) (head_nodes p),
       body_nodes := map (\<lambda>x. if nid x = n then f x else x) (body_nodes p)\<rparr>"

text \<open>\<open>document.body.appendChild\<close> of new nodes, which take fresh identities.\<close>

definition append_body :: "node list \<Rightarrow> nat \<Rightarrow> doc \<Rightarrow> doc" where
  "append_body ns k p = p\<lparr>body_nodes := body_nodes p @ ns, next_nid := next_nid p + k\<rparr>"

text \<open>The guarded creation of a \<open><style>\<close> element in \<open>head\<close>, shared by the four
  overlays: \<open>if (!document.getElementById(sid)) { ... document.head.appendChild(style) }\<close>.\<close>

definition ensure_style :: "string \<Rightarrow> doc \<Rightarrow> doc" where
  "ensure_style sid p =
     (if getElementById p sid \<noteq> None then p
      else p\<lparr>head_nodes := head_nodes p @ [mk_node (next_nid p) (next_nid p) sid []],
             next_nid := Suc (next_nid p)\<rparr>)"

text \<open>\<open>const existing = document.getElementById(i); if (existing) existing.remove();\<close>,
  written the same way in both notifications and in \<open>hideIndicator\<close>.\<close>

definition remove_existing :: "string \<Rightarrow> doc \<Rightarrow> doc" where
  "remove_existing i p = (case getElementById p i of Some e \<Rightarrow> remove_node (nid e) p | None \<Rightarrow> p)"

definition add_timer :: "int \<Rightarrow> timer_cb \<Rightarrow> doc \<Rightarrow> doc" where
  "add_timer due cb p = p\<lparr>timers := timers p @ [(due, cb)]\<rparr>"

subsection \<open>The overlays\<close>

text \<open>\<open>PresetManager.showPresetNotification\<close> (audio-engine.js, lines 761-835) at clock
  \<open>now\<close>: remove the element with the notification's id, append a new one, add the
  style sheet once, and after 2000 ms start the fade-out.\<close>

definition showPresetNotification :: "int \<Rightarrow> preset \<Rightarrow> doc \<Rightarrow> doc" where
  "showPresetNotification now pr p =
     (let p1 = remove_existing ''preset-notification'' p;
          n = next_nid p1;
          p2 = append_body [(mk_node n n ''preset-notification'' (p_name pr))\<lparr>node_anim := ''preset-fade-in''\<rparr>] 1 p1;
          p3 = ensure_style ''preset-notification-styles'' p2
      in add_timer (now + 2000) (FadePresetNote n) p3)"

text \<open>\<open>PresetManager.highlightActivePreset\<close> (lines 745-756): every \<open>.preset-btn\<close>
  loses the class \<open>active\<close>, and the first button whose \<open>data-preset\<close> is the name gains
  it.  The names come from the preset table, so the selector is well formed.\<close>

definition is_preset_btn :: "node \<Rightarrow> bool" where
  "is_preset_btn x \<longleftrightarrow> ''preset-btn'' \<in> set (classes x)"

definition highlightActivePreset :: "string \<Rightarrow> doc \<Rightarrow> doc" where
  "highlightActivePreset name p =
     (let clear = (\<lambda>x. if is_preset_btn x then x\<lparr>classes := removeAll ''active'' (classes x)\<rparr> else x);
          p1 = p\<lparr>head_nodes := map clear (head_nodes p), body_nodes := map clear (body_nodes p)\<rparr>
      in case find (\<lambda>x. is_preset_btn x \<and> data_preset x = name) (all_nodes p1) of
           None \<Rightarrow> p1
         | Some b \<Rightarrow> modify_node (nid b)
                       (\<lambda>x. x\<lparr>classes := (if ''active'' \<in> set (classes x) then classes x
                                          else classes x @ [''active''])\<rparr>) p1)"

text \<open>\<open>Recorder.createRecordingUI\<close> (recorder.js, lines 71-116): the indicator with its
  timer span, the style sheet once, and \<open>this.recordingTimer\<close>, looked up by id.\<close>

definition createRecordingUI :: "doc \<Rightarrow> doc \<times> node option" where
  "createRecordingUI p =
     (let n = next_nid p;
          p1 = append_body [mk_node n n ''recording-indicator'' ''RECORDING'',
                            mk_node (n + 1) n ''recording-timer'' ''0:00''] 2 p;
          t = getElementById p1 ''recording-timer''
      in (ensure_style ''recording-animations'' p1, t))"

text \<open>\<open>Recorder.showShareDialog\<close> (lines 415-472): the dialog with its input and two
  buttons is appended, and the two listeners are added to the elements
  \<open>getElementById\<close> finds (a \<open>null\<close> there would throw, which the freshly appended nodes
  rule out).\<close>

definition showShareDialog :: "string \<Rightarrow> doc \<Rightarrow> doc" where
  "showShareDialog url p =
     (let d = next_nid p;
          p1 = append_body [mk_node d d [] [], mk_node (d + 1) d ''share-url-input'' url,
                            mk_node (d + 2) d ''copy-link-btn'' ''Copy Link'',
                            mk_node (d + 3) d ''close-share-btn'' ''Close''] 4 p
      in case getElementById p1 ''copy-link-btn'' of
           None \<Rightarrow> p1
         | Some b \<Rightarrow>
             (let p2 = p1\<lparr>listeners := listeners p1 @ [(nid b, CopyLinkH)]\<rparr>
              in case getElementById p2 ''close-share-btn'' of
                   None \<Rightarrow> p2
                 | Some c \<Rightarrow> p2\<lparr>listeners := listeners p2 @ [(nid c, CloseShareH d)]\<rparr>))"

text \<open>A listener run at clock \<open>now\<close>.  The copy handler selects the input it finds and
  copies its value, then marks the button it finds as copied for 2000 ms; a lookup that
  finds nothing throws and ends the handler.\<close>

definition run_handler :: "int \<Rightarrow> handler \<Rightarrow> doc \<Rightarrow> doc" where
  "run_handler now h p =
     (case h of
        CopyLinkH \<Rightarrow>
          (case getElementById p ''share-url-input'' of
             None \<Rightarrow> p
           | Some inp \<Rightarrow>
               (let p1 = p\<lparr>clipboard := node_text inp\<rparr>
                in case getElementById p1 ''copy-link-btn'' of
                     None \<Rightarrow> p1
                   | Some btn \<Rightarrow> add_timer (now + 2000) (RestoreCopyBtn (nid btn))
                                  (modify_node (nid btn) (\<lambda>x. x\<lparr>node_text := ''Copied!''\<rparr>) p1)))
      | CloseShareH d \<Rightarrow> remove_node d p)"

text \<open>\<open>Recorder.showDownloadNotification\<close> (lines 477-527): a notification per call,
  the style sheet once, and after 3000 ms the fade-out.\<close>

definition showDownloadNotification :: "int \<Rightarrow> string \<Rightarrow> doc \<Rightarrow> doc" where
  "showDownloadNotification now filename p =
     (let n = next_nid p;
          p1 = append_body [(mk_node n n [] filename)\<lparr>node_anim := ''slide-in-bottom''\<rparr>] 1 p;
          p2 = ensure_style ''download-notification-styles'' p1
      in add_timer (now + 3000) (FadeDownloadNote n) p2)"

text \<open>What \<open>downloadRecording\<close> and the \<open>toBlob\<close> callback of \<open>captureScreenshot\<close>
  both do with a blob (recorder.js, lines 274-283 and 336-344): create an object URL,
  click a detached anchor that downloads it under the file name, revoke the URL after
  100 ms, and show the download notification.\<close>

definition start_download :: "int \<Rightarrow> string \<Rightarrow> doc \<Rightarrow> doc" where
  "start_download now filename p =
     (let u = next_url p;
          p1 = p\<lparr>object_urls := object_urls p @ [u], next_url := Suc u,
                 anchor_clicks := anchor_clicks p @ [filename]\<rparr>
      in showDownloadNotification now filename (add_timer (now + 100) (RevokeURL u) p1))"

text \<open>\<open>Recorder.downloadRecording\<close> (lines 270-284), with the clock's ISO string.\<close>

definition downloadRecording :: "int \<Rightarrow> string \<Rightarrow> doc \<Rightarrow> doc" where
  "downloadRecording now stamp p = start_download now (recording_filename stamp) p"

text \<open>\<open>Recorder.captureScreenshot\<close> (lines 312-352): the high-resolution copy is a
  canvas that is never attached, and \<open>toBlob\<close> calls back later; the callback computes
  the file name and, when the browser delivers a blob, downloads it.  A \<open>null\<close> blob
  makes \<open>URL.createObjectURL\<close> throw inside the callback, outside the \<open>try\<close>, and the
  callback ends there.\<close>

definition screenshot_filename :: "string \<Rightarrow> string" where
  "screenshot_filename stamp = ''SonicCanvas_Screenshot_'' @ iso_stamp stamp @ ''.png''"

definition captureScreenshot :: "doc \<Rightarrow> doc" where
  "captureScreenshot p = p\<lparr>pending_blobs := Suc (pending_blobs p)\<rparr>"

definition screenshot_blob :: "int \<Rightarrow> string \<Rightarrow> bool \<Rightarrow> doc \<Rightarrow> doc" where
  "screenshot_blob now stamp blob_ok p =
     (let p1 = p\<lparr>pending_blobs := pending_blobs p - 1\<rparr>
      in if blob_ok then start_download now (screenshot_filename stamp) p1 else p1)"

text \<open>\<open>PerformanceMode.showIndicator\<close> and \<open>hideIndicator\<close> (performance-mode.js, lines
  227-286).\<close>

definition showIndicator :: "int \<Rightarrow> doc \<Rightarrow> doc" where
  "showIndicator now p =
     (let p1 = remove_existing ''performance-mode-indicator'' p;
          n = next_nid p1;
          p2 = append_body [(mk_node n n ''performance-mode-indicator'' ''PERFORMANCE MODE'')\<lparr>node_anim := ''fade-in''\<rparr>] 1 p1;
          p3 = ensure_style ''performance-mode-styles'' p2
      in add_timer (now + 3000) (FadePerfIndicator n) p3)"

definition hideIndicator :: "doc \<Rightarrow> doc" where
  "hideIndicator p = remove_existing ''performance-mode-indicator'' p"

text \<open>\<open>GestureController.createUI\<close> (gesture-controller.js, lines 75-149): the webcam
  preview with its video and overlay canvas, and the status overlay whose
  \<open>innerHTML\<close> holds the status line and the command list.\<close>

definition createUI :: "doc \<Rightarrow> doc" where
  "createUI p =
     (let n = next_nid p
      in append_body [mk_node n n ''webcam-preview'' [], mk_node (n + 1) n [] [], mk_node (n + 2) n [] [],
                      mk_node (n + 3) (n + 3) ''gesture-overlay'' [],
                      mk_node (n + 4) (n + 3) ''gesture-status'' ''Initializing...'',
                      mk_node (n + 5) (n + 3) ''gesture-commands'' ''Fist: Freeze, Palm: Pulse, Peace: Colors''] 6 p)"

text \<open>\<open>GestureController.updateGestureStatus\<close> (lines 438-444): the text and colour of
  the first \<open>#gesture-status\<close>, if there is one.\<close>

definition updateGestureStatus :: "string \<Rightarrow> string \<Rightarrow> doc \<Rightarrow> doc" where
  "updateGestureStatus text color p =
     (case getElementById p ''gesture-status'' of
        None \<Rightarrow> p
      | Some statusEl \<Rightarrow> modify_node (nid statusEl) (\<lambda>x. x\<lparr>node_text := text, node_color := color\<rparr>) p)"

text \<open>The \<open>setTimeout\<close> callbacks, run at their due time \<open>now\<close>.\<close>

definition run_timer :: "int \<Rightarrow> timer_cb \<Rightarrow> doc \<Rightarrow> doc" where
  "run_timer now cb p =
     (case cb of
        RestoreCopyBtn b \<Rightarrow> modify_node b (\<lambda>x. x\<lparr>node_text := ''Copy Link''\<rparr>) p
      | FadePresetNote n \<Rightarrow>
          add_timer (now + 300) (RemoveNode n) (modify_node n (\<lambda>x. x\<lparr>node_anim := ''preset-fade-out''\<rparr>) p)
      | FadeDownloadNote n \<Rightarrow>
          add_timer (now + 300) (RemoveNode n) (modify_node n (\<lambda>x. x\<lparr>node_anim := ''slide-in-bottom reverse''\<rparr>) p)
      | FadePerfIndicator n \<Rightarrow> modify_node n (\<lambda>x. x\<lparr>node_opacity := ''0''\<rparr>) p
      | RemoveNode n \<Rightarrow> remove_node n p
      | RevokeURL u \<Rightarrow> p\<lparr>object_urls := removeAll u (object_urls p)\<rparr>)"

datatype ov_event = PresetNote int preset | Highlight string | RecordingUI | Share string
  | DownloadRec int string | Screenshot | ScreenshotBlob int string bool | PerfShow int | PerfHide | GestureUI | GestureStatus string string
  | Click int nat | Fire nat

text \<open>One event on the page.  A click on a node of the page runs every listener the
  node had when the click was dispatched, in registration order, even when an earlier
  one removed the node.  \<open>Fire i\<close> runs the \<open>i\<close>-th pending timer when no other is due
  earlier.\<close>

definition ov_step :: "doc \<Rightarrow> ov_event \<Rightarrow> doc option" where
  "ov_step p ev =
     (case ev of
        PresetNote now pr \<Rightarrow> Some (showPresetNotification now pr p)
      | Highlight name \<Rightarrow> Some (highlightActivePreset name p)
      | RecordingUI \<Rightarrow> Some (fst (createRecordingUI p))
      | Share url \<Rightarrow> Some (showShareDialog url p)
      | DownloadRec now stamp \<Rightarrow> Some (downloadRecording now stamp p)
      | Screenshot \<Rightarrow> Some (captureScreenshot p)
      | ScreenshotBlob now stamp ok \<Rightarrow>
          (if 0 < pending_blobs p then Some (screenshot_blob now stamp ok p) else None)
      | PerfShow now \<Rightarrow> Some (showIndicator now p)
      | PerfHide \<Rightarrow> Some (hideIndicator p)
      | GestureUI \<Rightarrow> Some (createUI p)
      | GestureStatus text color \<Rightarrow> Some (updateGestureStatus text color p)
      | Click now n \<Rightarrow>
          (if in_doc p n
           then Some (fold (run_handler now) (map snd (filter (\<lambda>l. fst l = n) (listeners p))) p)
           else None)
      | Fire i \<Rightarrow>
          (if i < length (timers p) \<and> list_all (\<lambda>t. fst (timers p ! i) \<le> fst t) (timers p)
           then Some (run_timer (fst (timers p ! i)) (snd (timers p ! i))
                        (p\<lparr>timers := take i (timers p) @ drop (Suc i) (timers p)\<rparr>))
           else None))"

fun ov_run :: "doc \<Rightarrow> ov_event list \<Rightarrow> doc option" where
  "ov_run p [] = Some p"
| "ov_run p (ev # evs) = Option.bind (ov_step p ev) (\<lambda>p'. ov_run p' evs)"

definition empty_page :: doc where
  "empty_page = \<lparr>head_nodes = [], body_nodes = [], next_nid = 0, listeners = [], timers = [],
                 clipboard = [], object_urls = [], next_url = 0, anchor_clicks = [], pending_blobs = 0\<rparr>"

subsection \<open>Invariant\<close>

text \<open>The ids the code keeps unique by removing the old element or by testing for it
  before creating one.\<close>

definition unique_ids :: "string list" where
  "unique_ids = [''preset-notification'', ''performance-mode-indicator'', ''preset-notification-styles'',
                 ''download-notification-styles'', ''performance-mode-styles'', ''recording-animations'']"

definition is_active_btn :: "node \<Rightarrow> bool" where
  "is_active_btn x \<longleftrightarrow> is_preset_btn x \<and> ''active'' \<in> set (classes x)"

definition count_id :: "node list \<Rightarrow> string \<Rightarrow> nat" where
  "count_id xs i = length (filter (\<lambda>x. elem_id x = i) xs)"

text \<open>Node identities are distinct and below the counter, each id of \<open>unique_ids\<close> is
  on at most one node, and at most one preset button is active.\<close>

definition nodes_ok :: "node list \<Rightarrow> nat \<Rightarrow> bool" where
  "nodes_ok xs nxt \<longleftrightarrow>
     distinct (map nid xs) \<and> (\<forall>x \<in> set xs. nid x < nxt) \<and>
     (\<forall>i \<in> set unique_ids. count_id xs i \<le> 1) \<and> length (filter is_active_btn xs) \<le> 1"

definition ov_inv :: "doc \<Rightarrow> bool" where
  "ov_inv p \<longleftrightarrow> nodes_ok (all_nodes p) (next_nid p)"

text \<open>Every object URL the page still holds has its \<open>revokeObjectURL\<close> timer pending.\<close>

definition url_inv :: "doc \<Rightarrow> bool" where
  "url_inv p \<longleftrightarrow> (\<forall>u \<in> set (object_urls p). RevokeURL u \<in> set (map snd (timers p)))"

inductive ov_reachable :: "doc \<Rightarrow> doc \<Rightarrow> bool" for p0 :: doc where
  ov_init: "ov_reachable p0 p0"
| ov_next: "ov_reachable p0 p \<Longrightarrow> ov_step p ev = Some p' \<Longrightarrow> ov_reachable p0 p'"

subsection \<open>The page operations on the node list\<close>

lemma all_nodes_remove_node [simp]:
  "all_nodes (remove_node n p) = filter (\<lambda>x. nid x \<noteq> n \<and> node_owner x \<noteq> n) (all_nodes p)"
  by (simp add: all_nodes_def remove_node_def)

lemma all_nodes_modify_node [simp]:
  "all_nodes (modify_node n f p) = map (\<lambda>x. if nid x = n then f x else x) (all_nodes p)"
  by (simp add: all_nodes_def modify_node_def)

lemma all_nodes_append_body [simp]: "all_nodes (append_body ns k p) = all_nodes p @ ns"
  by (simp add: all_nodes_def append_body_def)

lemma page_fields_simps [simp]:
  "next_nid (remove_node n p) = next_nid p" "next_nid (modify_node n f p) = next_nid p"
  "next_nid (append_body ns k p) = next_nid p + k"
  "all_nodes (add_timer t c p) = all_nodes p" "next_nid (add_timer t c p) = next_nid p"
  "all_nodes (p\<lparr>timers := ts\<rparr>) = all_nodes p" "all_nodes (p\<lparr>listeners := ls\<rparr>) = all_nodes p"
  "all_nodes (p\<lparr>clipboard := s\<rparr>) = all_nodes p" "listeners (append_body ns k p) = listeners p"
  by (simp_all add: remove_node_def modify_node_def append_body_def add_timer_def all_nodes_def)

lemma getElementById_None: "getElementById p i = None \<Longrightarrow> count_id (all_nodes p) i = 0"
  by (simp add: getElementById_def count_id_def find_None_iff filter_empty_conv)

lemma count_id_unique:
  assumes "count_id xs i \<le> 1" "x \<in> set xs" "elem_id x = i" "y \<in> set xs" "elem_id y = i"
  shows "x = y"
proof -
  have le1: "length ys \<le> 1 \<Longrightarrow> x \<in> set ys \<Longrightarrow> y \<in> set ys \<Longrightarrow> x = y" for ys :: "node list"
    by (cases ys) auto
  show ?thesis using assms unfolding count_id_def by (intro le1 [of "filter (\<lambda>x. elem_id x = i) xs"]) auto
qed

lemma remove_found_count:
  assumes "getElementById p i = Some e" "count_id (all_nodes p) i \<le> 1"
  shows "count_id (all_nodes (remove_node (nid e) p)) i = 0"
proof -
  have e: "e \<in> set (all_nodes p)" "elem_id e = i"
    using assms(1) by (auto simp: getElementById_def find_Some_iff nth_mem)
  have "\<forall>x \<in> set (all_nodes p). elem_id x = i \<longrightarrow> x = e"
    using count_id_unique [OF assms(2) _ _ e] by blast
  then show ?thesis by (auto simp: count_id_def filter_empty_conv)
qed

subsection \<open>Preservation of the invariant\<close>

lemma length_filter_filter_le: "length (filter Q (filter P xs)) \<le> length (filter Q xs)"
  by (induction xs) auto

lemma nodes_ok_filter:
  assumes "nodes_ok xs nxt"
  shows "nodes_ok (filter P xs) nxt"
proof -
  have "count_id (filter P xs) i \<le> count_id xs i" for i
    unfolding count_id_def by (rule length_filter_filter_le)
  moreover have "length (filter is_active_btn (filter P xs)) \<le> length (filter is_active_btn xs)"
    by (rule length_filter_filter_le)
  ultimately show ?thesis using assms unfolding nodes_ok_def
    by (auto simp: distinct_map_filter intro: order_trans)
qed

lemma length_filter_mono_pred: "(\<And>x. Q x \<Longrightarrow> P x) \<Longrightarrow> length (filter Q xs) \<le> length (filter P xs)"
  by (induction xs) auto

lemma nodes_ok_map_active:
  assumes ok: "nodes_ok xs nxt"
    and g: "\<And>x. nid (g x) = nid x" "\<And>x. elem_id (g x) = elem_id x"
    and a: "length (filter is_active_btn (map g xs)) \<le> 1"
  shows "nodes_ok (map g xs) nxt"
proof -
  have d: "distinct (map nid (map g xs))" using ok by (simp add: nodes_ok_def comp_def g(1))
  have b: "\<forall>y \<in> set (map g xs). nid y < nxt" using ok by (auto simp: nodes_ok_def g(1))
  have c: "\<forall>i \<in> set unique_ids. count_id (map g xs) i \<le> 1"
    using ok by (simp add: nodes_ok_def count_id_def g(2) comp_def)
  show ?thesis unfolding nodes_ok_def using d b c a by blast
qed

lemma nodes_ok_map:
  assumes ok: "nodes_ok xs nxt"
    and g: "\<And>x. nid (g x) = nid x" "\<And>x. elem_id (g x) = elem_id x" "\<And>x. is_active_btn (g x) \<Longrightarrow> is_active_btn x"
  shows "nodes_ok (map g xs) nxt"
proof (rule nodes_ok_map_active [OF ok g(1,2)])
  have "length (filter (is_active_btn \<circ> g) xs) \<le> length (filter is_active_btn xs)"
    by (rule length_filter_mono_pred) (simp add: g(3))
  then show "length (filter is_active_btn (map g xs)) \<le> 1" using ok by (simp add: nodes_ok_def)
qed

lemma filter_map_at_most_one:
  "distinct (map nid xs) \<Longrightarrow>
   length (filter P (map (\<lambda>x. if nid x = n then f x else x) xs)) \<le> length (filter P xs) + 1"
proof (induction xs)
  case (Cons a xs)
  show ?case
  proof (cases "nid a = n")
    case True
    have "\<forall>x \<in> set xs. nid x \<noteq> n" using Cons.prems True by (auto simp: image_iff)
    then have "map (\<lambda>x. if nid x = n then f x else x) xs = xs" by (simp add: map_idI)
    then show ?thesis using True by simp
  next
    case False
    then show ?thesis using Cons by simp
  qed
qed simp

lemma count_id_append [simp]: "count_id (xs @ ys) i = count_id xs i + count_id ys i"
  by (simp add: count_id_def)

lemma count_id_Cons [simp]: "count_id (x # ys) i = (if elem_id x = i then Suc (count_id ys i) else count_id ys i)"
  by (simp add: count_id_def)

lemma nodes_ok_insert:
  assumes ok: "nodes_ok (xs @ ys) nxt" and x: "nxt \<le> nid x" "nid x < nxt + k"
    and fresh: "elem_id x \<in> set unique_ids \<Longrightarrow> count_id (xs @ ys) (elem_id x) = 0"
    and na: "\<not> is_active_btn x"
  shows "nodes_ok (xs @ x # ys) (nxt + k)"
proof -
  have "nid x \<notin> nid ` set (xs @ ys)" using ok x(1) unfolding nodes_ok_def by fastforce
  then have "distinct (map nid (xs @ x # ys))" using ok unfolding nodes_ok_def by auto
  moreover have "\<forall>y \<in> set (xs @ x # ys). nid y < nxt + k"
    using ok x(2) unfolding nodes_ok_def by (auto intro: trans_less_add1)
  moreover have "count_id (xs @ x # ys) i \<le> 1" if "i \<in> set unique_ids" for i
    using ok fresh that unfolding nodes_ok_def by (cases "elem_id x = i") auto
  moreover have "length (filter is_active_btn (xs @ x # ys)) \<le> 1"
    using ok na unfolding nodes_ok_def by simp
  ultimately show ?thesis unfolding nodes_ok_def by blast
qed

lemma nodes_ok_append_plain:
  assumes ok: "nodes_ok xs nxt" and d: "distinct (map nid ns)"
    and ns: "\<forall>x \<in> set ns. nxt \<le> nid x \<and> nid x < nxt + k \<and> elem_id x \<notin> set unique_ids \<and> \<not> is_active_btn x"
  shows "nodes_ok (xs @ ns) (nxt + k)"
proof -
  have "set (map nid xs) \<inter> set (map nid ns) = {}" using ok ns unfolding nodes_ok_def by fastforce
  then have "distinct (map nid (xs @ ns))" using ok d unfolding nodes_ok_def by simp
  moreover have "\<forall>y \<in> set (xs @ ns). nid y < nxt + k" using ok ns unfolding nodes_ok_def by fastforce
  moreover have "count_id ns i = 0" if "i \<in> set unique_ids" for i
    using ns that by (auto simp: count_id_def filter_empty_conv)
  moreover have "filter is_active_btn ns = []" using ns by (simp add: filter_empty_conv)
  ultimately show ?thesis using ok unfolding nodes_ok_def by simp
qed

subsection \<open>Each operation keeps the invariant\<close>

lemma ov_inv_remove_node: "ov_inv p \<Longrightarrow> ov_inv (remove_node n p)"
  by (simp add: ov_inv_def nodes_ok_filter)

lemma ov_inv_modify_node:
  assumes "ov_inv p" "\<And>x. nid (f x) = nid x" "\<And>x. elem_id (f x) = elem_id x" "\<And>x. classes (f x) = classes x"
  shows "ov_inv (modify_node n f p)"
  using assms(1) unfolding ov_inv_def all_nodes_modify_node page_fields_simps
  by (rule nodes_ok_map) (simp_all add: assms(2-4) is_active_btn_def is_preset_btn_def split: if_splits)

lemma ov_inv_add_timer [simp]: "ov_inv (add_timer t c p) = ov_inv p"
  by (simp add: ov_inv_def)

lemma ov_inv_remove_existing:
  assumes "ov_inv p" "i \<in> set unique_ids"
  shows "ov_inv (remove_existing i p) \<and> count_id (all_nodes (remove_existing i p)) i = 0"
proof (cases "getElementById p i")
  case None
  then show ?thesis using assms by (simp add: remove_existing_def getElementById_None)
next
  case (Some e)
  have "count_id (all_nodes p) i \<le> 1" using assms unfolding ov_inv_def nodes_ok_def by blast
  then show ?thesis using assms Some remove_found_count [OF Some]
    by (simp add: remove_existing_def ov_inv_remove_node del: all_nodes_remove_node)
qed

lemma ov_inv_ensure_style:
  assumes "ov_inv p" "sid \<in> set unique_ids"
  shows "ov_inv (ensure_style sid p)"
proof (cases "getElementById p sid")
  case None
  have "nodes_ok (head_nodes p @ mk_node (next_nid p) (next_nid p) sid [] # body_nodes p) (next_nid p + 1)"
    using assms getElementById_None [OF None]
    by (intro nodes_ok_insert) (simp_all add: ov_inv_def all_nodes_def mk_node_def is_active_btn_def is_preset_btn_def)
  then show ?thesis using None by (simp add: ensure_style_def ov_inv_def all_nodes_def)
next
  case (Some e)
  then show ?thesis using assms by (simp add: ensure_style_def)
qed

lemma ov_inv_append1:
  assumes "ov_inv p" "nid x = next_nid p"
    and "elem_id x \<in> set unique_ids \<Longrightarrow> count_id (all_nodes p) (elem_id x) = 0" "\<not> is_active_btn x"
  shows "ov_inv (append_body [x] (Suc 0) p)"
  using nodes_ok_insert [of "all_nodes p" "[]" "next_nid p" x 1] assms by (simp add: ov_inv_def)

lemma ov_inv_append_plain:
  assumes "ov_inv p" "distinct (map nid ns)"
    and "\<forall>x \<in> set ns. next_nid p \<le> nid x \<and> nid x < next_nid p + k \<and> elem_id x \<notin> set unique_ids \<and> \<not> is_active_btn x"
  shows "ov_inv (append_body ns k p)"
  using nodes_ok_append_plain [of "all_nodes p" "next_nid p" ns k] assms by (simp add: ov_inv_def)

lemma mk_node_sel [simp]:
  "nid (mk_node n o' i t) = n" "elem_id (mk_node n o' i t) = i" "classes (mk_node n o' i t) = []"
  "node_owner (mk_node n o' i t) = o'"
  by (simp_all add: mk_node_def)

lemma not_active_plain [simp]: "classes x = [] \<Longrightarrow> \<not> is_active_btn x"
  by (simp add: is_active_btn_def is_preset_btn_def)

lemma unique_ids_simps [simp]:
  "''preset-notification'' \<in> set unique_ids" "''performance-mode-indicator'' \<in> set unique_ids"
  "''preset-notification-styles'' \<in> set unique_ids" "''download-notification-styles'' \<in> set unique_ids"
  "''performance-mode-styles'' \<in> set unique_ids" "''recording-animations'' \<in> set unique_ids"
  "[] \<notin> set unique_ids" "''recording-indicator'' \<notin> set unique_ids" "''recording-timer'' \<notin> set unique_ids"
  "''share-url-input'' \<notin> set unique_ids" "''copy-link-btn'' \<notin> set unique_ids"
  "''close-share-btn'' \<notin> set unique_ids" "''webcam-preview'' \<notin> set unique_ids"
  "''gesture-overlay'' \<notin> set unique_ids" "''gesture-status'' \<notin> set unique_ids"
  "''gesture-commands'' \<notin> set unique_ids"
  by (simp_all add: unique_ids_def)

lemma ov_inv_showPresetNotification: "ov_inv p \<Longrightarrow> ov_inv (showPresetNotification now pr p)"
  using ov_inv_remove_existing [of p "''preset-notification''"]
  by (auto simp: showPresetNotification_def Let_def intro!: ov_inv_ensure_style ov_inv_append1)

lemma ov_inv_showIndicator: "ov_inv p \<Longrightarrow> ov_inv (showIndicator now p)"
  using ov_inv_remove_existing [of p "''performance-mode-indicator''"]
  by (auto simp: showIndicator_def Let_def intro!: ov_inv_ensure_style ov_inv_append1)

lemma ov_inv_hideIndicator: "ov_inv p \<Longrightarrow> ov_inv (hideIndicator p)"
  using ov_inv_remove_existing [of p "''performance-mode-indicator''"] by (simp add: hideIndicator_def)

lemma ov_inv_showDownloadNotification: "ov_inv p \<Longrightarrow> ov_inv (showDownloadNotification now f p)"
  by (auto simp: showDownloadNotification_def Let_def intro!: ov_inv_ensure_style ov_inv_append1)

lemma ov_inv_createRecordingUI: "ov_inv p \<Longrightarrow> ov_inv (fst (createRecordingUI p))"
  by (auto simp: createRecordingUI_def Let_def intro!: ov_inv_ensure_style ov_inv_append_plain)

lemma ov_inv_createUI: "ov_inv p \<Longrightarrow> ov_inv (createUI p)"
  by (auto simp: createUI_def Let_def intro!: ov_inv_append_plain)

lemma ov_inv_updateGestureStatus: "ov_inv p \<Longrightarrow> ov_inv (updateGestureStatus t c p)"
  by (auto simp: updateGestureStatus_def intro!: ov_inv_modify_node split: option.split)

lemma ov_inv_listeners [simp]: "ov_inv (p\<lparr>listeners := ls\<rparr>) = ov_inv p"
  by (simp add: ov_inv_def)

lemma ov_inv_showShareDialog: "ov_inv p \<Longrightarrow> ov_inv (showShareDialog url p)"
proof -
  assume "ov_inv p"
  then have "ov_inv (append_body [mk_node (next_nid p) (next_nid p) [] [], mk_node (next_nid p + 1) (next_nid p) ''share-url-input'' url,
                            mk_node (next_nid p + 2) (next_nid p) ''copy-link-btn'' ''Copy Link'',
                            mk_node (next_nid p + 3) (next_nid p) ''close-share-btn'' ''Close''] 4 p)"
    by (intro ov_inv_append_plain) auto
  then show ?thesis by (simp add: showShareDialog_def Let_def split: option.split)
qed

lemma ov_inv_highlightActivePreset: "ov_inv p \<Longrightarrow> ov_inv (highlightActivePreset name p)"
proof -
  assume inv: "ov_inv p"
  define clear where "clear = (\<lambda>x. if is_preset_btn x then x\<lparr>classes := removeAll ''active'' (classes x)\<rparr> else x)"
  define p1 where "p1 = p\<lparr>head_nodes := map clear (head_nodes p), body_nodes := map clear (body_nodes p)\<rparr>"
  have an: "all_nodes p1 = map clear (all_nodes p)" "next_nid p1 = next_nid p"
    by (simp_all add: p1_def all_nodes_def)
  have none: "filter is_active_btn (all_nodes p1) = []"
    by (auto simp: an filter_empty_conv clear_def is_active_btn_def is_preset_btn_def)
  have ok1: "nodes_ok (all_nodes p1) (next_nid p1)"
    unfolding an using inv unfolding ov_inv_def
    by (rule nodes_ok_map) (simp_all add: clear_def is_active_btn_def is_preset_btn_def split: if_splits)
  have md: "ov_inv (modify_node n g p1)"
    if g: "\<And>x. nid (g x) = nid x" "\<And>x. elem_id (g x) = elem_id x" for n g
  proof -
    have "length (filter is_active_btn (map (\<lambda>x. if nid x = n then g x else x) (all_nodes p1))) \<le> 1"
      using filter_map_at_most_one [of "all_nodes p1" is_active_btn n g] ok1 none by (simp add: nodes_ok_def)
    then have "nodes_ok (map (\<lambda>x. if nid x = n then g x else x) (all_nodes p1)) (next_nid p1)"
      using ok1 g by (intro nodes_ok_map_active) auto
    then show ?thesis by (simp add: ov_inv_def)
  qed
  have "ov_inv p1" using ok1 by (simp add: ov_inv_def)
  then show ?thesis using md
    unfolding highlightActivePreset_def Let_def clear_def [symmetric] p1_def [symmetric]
    by (simp split: option.split)
qed

lemma ov_inv_fields [simp]:
  "ov_inv (p\<lparr>clipboard := s\<rparr>) = ov_inv p" "ov_inv (p\<lparr>timers := ts\<rparr>) = ov_inv p"
  "ov_inv (p\<lparr>object_urls := us\<rparr>) = ov_inv p" "ov_inv (p\<lparr>pending_blobs := k\<rparr>) = ov_inv p"
  "ov_inv (p\<lparr>object_urls := us, next_url := m, anchor_clicks := fs\<rparr>) = ov_inv p"
  by (simp_all add: ov_inv_def all_nodes_def)

lemma ov_inv_start_download: "ov_inv p \<Longrightarrow> ov_inv (start_download now f p)"
  by (simp add: start_download_def Let_def ov_inv_showDownloadNotification)

lemma ov_inv_run_handler: "ov_inv p \<Longrightarrow> ov_inv (run_handler now h p)"
  by (auto simp: run_handler_def Let_def ov_inv_remove_node intro!: ov_inv_modify_node
           split: handler.split option.split)

lemma ov_inv_fold_handlers: "ov_inv p \<Longrightarrow> ov_inv (fold (run_handler now) hs p)"
  by (induction hs arbitrary: p) (simp_all add: ov_inv_run_handler)

lemma ov_inv_run_timer: "ov_inv p \<Longrightarrow> ov_inv (run_timer now cb p)"
  by (auto simp: run_timer_def ov_inv_remove_node intro!: ov_inv_modify_node split: timer_cb.split)

lemma ov_inv_step: "ov_inv p \<Longrightarrow> ov_step p ev = Some p' \<Longrightarrow> ov_inv p'"
  by (auto simp: ov_step_def ov_inv_showPresetNotification ov_inv_highlightActivePreset
                 ov_inv_createRecordingUI ov_inv_showShareDialog ov_inv_showDownloadNotification
                 ov_inv_showIndicator ov_inv_hideIndicator ov_inv_fold_handlers ov_inv_run_timer
                 ov_inv_createUI ov_inv_updateGestureStatus ov_inv_start_download
                 downloadRecording_def captureScreenshot_def screenshot_blob_def Let_def
           split: ov_event.splits if_splits)

subsection \<open>Object URLs\<close>

lemma doc_prims_urls [simp]:
  "object_urls (remove_node n p) = object_urls p" "timers (remove_node n p) = timers p"
  "object_urls (modify_node n f p) = object_urls p" "timers (modify_node n f p) = timers p"
  "object_urls (append_body ns k p) = object_urls p" "timers (append_body ns k p) = timers p"
  "object_urls (ensure_style sid p) = object_urls p" "timers (ensure_style sid p) = timers p"
  "object_urls (remove_existing i p) = object_urls p" "timers (remove_existing i p) = timers p"
  "object_urls (add_timer t c p) = object_urls p" "timers (add_timer t c p) = timers p @ [(t, c)]"
  by (simp_all add: remove_node_def modify_node_def append_body_def ensure_style_def add_timer_def
                    remove_existing_def split: option.split)

lemma url_inv_start_download: "url_inv p \<Longrightarrow> url_inv (start_download now f p)"
  by (auto simp: url_inv_def start_download_def showDownloadNotification_def Let_def)

lemma url_inv_run_handler: "url_inv p \<Longrightarrow> url_inv (run_handler now h p)"
  by (auto simp: url_inv_def run_handler_def Let_def split: handler.split option.split)

lemma url_inv_fold_handlers: "url_inv p \<Longrightarrow> url_inv (fold (run_handler now) hs p)"
  by (induction hs arbitrary: p) (simp_all add: url_inv_run_handler)

lemma url_inv_fire:
  assumes inv: "url_inv p" and i: "i < length (timers p)"
  shows "url_inv (run_timer (fst (timers p ! i)) (snd (timers p ! i)) (p\<lparr>timers := take i (timers p) @ drop (Suc i) (timers p)\<rparr>))"
proof -
  define ts where "ts = take i (timers p) @ drop (Suc i) (timers p)"
  have split: "timers p = take i (timers p) @ timers p ! i # drop (Suc i) (timers p)"
    using i by (simp add: id_take_nth_drop)
  have rest: "RevokeURL u \<in> set (map snd ts)" if "u \<in> set (object_urls p)" "snd (timers p ! i) \<noteq> RevokeURL u" for u
  proof -
    have "RevokeURL u \<in> set (map snd (timers p))" using inv that(1) by (simp add: url_inv_def)
    then show ?thesis using that(2) split unfolding ts_def
      by (metis (no_types, lifting) Un_iff list.set_map list.simps(15) image_Un insert_iff set_append map_append list.map(2))
  qed
  show ?thesis
    using rest unfolding ts_def [symmetric]
    by (auto simp: run_timer_def url_inv_def split: timer_cb.split)
qed

lemma url_inv_ops:
  assumes "url_inv p"
  shows "url_inv (showPresetNotification now pr p)" "url_inv (highlightActivePreset n p)"
    "url_inv (fst (createRecordingUI p))" "url_inv (showShareDialog u p)"
    "url_inv (showIndicator now p)" "url_inv (hideIndicator p)" "url_inv (createUI p)"
    "url_inv (updateGestureStatus t c p)" "url_inv (captureScreenshot p)"
  using assms
  by (auto simp: url_inv_def showPresetNotification_def highlightActivePreset_def createRecordingUI_def
                 showShareDialog_def showIndicator_def hideIndicator_def createUI_def
                 updateGestureStatus_def captureScreenshot_def Let_def split: option.split)

lemma url_inv_pending [simp]: "url_inv (p\<lparr>pending_blobs := k\<rparr>) = url_inv p"
  by (simp add: url_inv_def)

lemma url_inv_screenshot_blob: "url_inv p \<Longrightarrow> url_inv (screenshot_blob now s ok p)"
  by (simp add: screenshot_blob_def Let_def url_inv_start_download)

lemma url_inv_step: "url_inv p \<Longrightarrow> ov_step p ev = Some p' \<Longrightarrow> url_inv p'"
  by (auto simp: ov_step_def url_inv_fold_handlers url_inv_fire url_inv_start_download url_inv_ops
                 url_inv_screenshot_blob downloadRecording_def split: ov_event.splits if_splits)
subsection \<open>The page invariant over runs\<close>

text \<open>C34: the overlays keep their ids unique: from any page whose nodes have distinct
  identities below the counter, at most one node for each of the preset and
  performance-mode notifications and style sheets, and at most one active preset button,
  every sequence of notifications, highlights, recording and gesture UI creations,
  gesture status updates, share dialogs, recording and screenshot downloads, indicator
  shows and hides, clicks and timers keeps all of this; and every object URL a download
  created and has not revoked yet keeps its revoke timer pending.\<close>

theorem reachable_ov_inv:
  assumes "ov_inv p0" "url_inv p0" "ov_reachable p0 p"
  shows "ov_inv p \<and> url_inv p"
  using assms(3) by (induction rule: ov_reachable.induct) (auto intro: ov_inv_step url_inv_step assms(1,2))

theorem reachable_ov_inv_witness:
  "ov_inv (downloadRecording 5 ''2024-01-01T10:00:00.000Z'' (showIndicator 0 empty_page)) \<and>
   url_inv (downloadRecording 5 ''2024-01-01T10:00:00.000Z'' (showIndicator 0 empty_page))"
proof -
  have r1: "ov_reachable empty_page (showIndicator 0 empty_page)"
    by (rule ov_next [OF ov_init, where ev = "PerfShow 0"]) (simp add: ov_step_def)
  have r2: "ov_reachable empty_page (downloadRecording 5 ''2024-01-01T10:00:00.000Z'' (showIndicator 0 empty_page))"
    by (rule ov_next [OF r1, where ev = "DownloadRec 5 ''2024-01-01T10:00:00.000Z''"]) (simp add: ov_step_def)
  have "ov_inv empty_page" by (simp add: ov_inv_def nodes_ok_def all_nodes_def empty_page_def count_id_def)
  moreover have "url_inv empty_page" by (simp add: url_inv_def empty_page_def)
  ultimately show ?thesis using r2 by (rule reachable_ov_inv)
qed

lemma find_append_None: "find P xs = None \<Longrightarrow> find P (xs @ ys) = find P ys"
  by (induction xs) auto

text \<open>C13: a second share dialog is dead: \<open>showShareDialog\<close> looks its buttons up by id,
  so with two dialogs open both pairs of listeners sit on the first dialog's buttons.
  Clicking the second dialog's Close or Copy button does nothing, and clicking the first
  dialog's Close removes both dialogs.\<close>

theorem second_share_dialog_dead:
  assumes fresh: "\<forall>x \<in> set (all_nodes p). elem_id x \<notin> {''share-url-input'', ''copy-link-btn'', ''close-share-btn''}"
    and ls: "\<forall>l \<in> set (listeners p). fst l < next_nid p"
  shows "ov_step (showShareDialog u2 (showShareDialog u1 p)) (Click now (next_nid p + 7)) =
           Some (showShareDialog u2 (showShareDialog u1 p)) \<and>
         ov_step (showShareDialog u2 (showShareDialog u1 p)) (Click now (next_nid p + 6)) =
           Some (showShareDialog u2 (showShareDialog u1 p)) \<and>
         ov_step (showShareDialog u2 (showShareDialog u1 p)) (Click now (next_nid p + 3)) =
           Some (remove_node (next_nid p + 4) (remove_node (next_nid p) (showShareDialog u2 (showShareDialog u1 p))))"
proof -
  define d where "d = next_nid p"
  have f: "find (\<lambda>x. elem_id x = ''copy-link-btn'') (all_nodes p) = None"
          "find (\<lambda>x. elem_id x = ''close-share-btn'') (all_nodes p) = None"
    using fresh by (auto simp: find_None_iff)
  define P2 where "P2 = showShareDialog u2 (showShareDialog u1 p)"
  have L: "listeners P2 = listeners p @
             [(d + 2, CopyLinkH), (d + 3, CloseShareH d), (d + 2, CopyLinkH), (d + 3, CloseShareH (d + 4))]"
    using f by (simp add: P2_def showShareDialog_def Let_def getElementById_def find_append_None d_def)
  have N: "all_nodes P2 = all_nodes p @
         [mk_node d d [] [], mk_node (d + 1) d ''share-url-input'' u1,
          mk_node (d + 2) d ''copy-link-btn'' ''Copy Link'', mk_node (d + 3) d ''close-share-btn'' ''Close'',
          mk_node (d + 4) (d + 4) [] [], mk_node (d + 5) (d + 4) ''share-url-input'' u2,
          mk_node (d + 6) (d + 4) ''copy-link-btn'' ''Copy Link'', mk_node (d + 7) (d + 4) ''close-share-btn'' ''Close'']"
    using f by (simp add: P2_def showShareDialog_def Let_def getElementById_def find_append_None d_def
                          add.commute split: option.split)
  have none: "filter (\<lambda>l. fst l = d + k) (listeners p) = []" for k using ls by (auto simp: filter_empty_conv d_def)
  have "ov_step P2 (Click now (d + 7)) = Some P2" "ov_step P2 (Click now (d + 6)) = Some P2"
    "ov_step P2 (Click now (d + 3)) = Some (remove_node (d + 4) (remove_node d P2))"
    using none [of 7] none [of 6] none [of 3]
    by (simp_all add: ov_step_def in_doc_def N L run_handler_def)
  then show ?thesis by (simp add: P2_def d_def)
qed

theorem second_share_dialog_dead_witness:
  "ov_step (showShareDialog ''b'' (showShareDialog ''a'' empty_page)) (Click 0 (next_nid empty_page + 7)) =
     Some (showShareDialog ''b'' (showShareDialog ''a'' empty_page)) \<and>
   ov_step (showShareDialog ''b'' (showShareDialog ''a'' empty_page)) (Click 0 (next_nid empty_page + 6)) =
     Some (showShareDialog ''b'' (showShareDialog ''a'' empty_page)) \<and>
   ov_step (showShareDialog ''b'' (showShareDialog ''a'' empty_page)) (Click 0 (next_nid empty_page + 3)) =
     Some (remove_node (next_nid empty_page + 4) (remove_node (next_nid empty_page)
            (showShareDialog ''b'' (showShareDialog ''a'' empty_page))))"
  by (rule second_share_dialog_dead) (simp_all add: empty_page_def all_nodes_def)

end
