(* ===== verification/Spec2Isabelle.thy ===== *)
theory Spec2Isabelle
  imports PresetManager BeatDetector AudioEngine GestureController Recorder PerformanceMode FeatureVector DevServer Overlays
begin

text \<open>
  A shallow embedding of SonicCanvas, an audio-reactive particle visualizer
  controlled by hand gestures, with recording and a full-screen performance mode.

  \<^bold>\<open>Parts of the program.\<close>  \<open>AudioEngine\<close> (src/audio-engine.js, lines 6-264) owns
  the Web Audio context and analyser, plays a file or the microphone into it, and
  produces, once per frame, the spectrum, its average, a beat flag and six band energies.
  \<open>GestureController\<close> (src/gesture-controller.js) turns hand poses from the webcam
  into commands \<open>freeze\<close>, \<open>pulse\<close> and \<open>colorPalette\<close>.  \<open>Visualizer\<close> (its code is
  in src/README.md, lines 486-1328) consumes both in \<open>update\<close>: it applies the gesture
  commands, shakes and moves the camera, and runs the particle rule of the current
  visual mode over its 2000 particles.  \<open>PresetManager\<close> (audio-engine.js, lines
  485-740) switches the visualizer between presets, animating the camera radius.
  \<open>Recorder\<close> (src/recorder.js) records the canvas with the engine's audio, shows a
  timer and downloads the result; it also exports the settings.  \<open>PerformanceMode\<close>
  (src/performance-mode.js) hides the UI, enters full screen and restores both.  A
  development HTTP server (server.js, bundled at the end of src/gesture-controller.js,
  lines 476-588) serves the files of its working directory.

  \<^bold>\<open>Theories.\<close>
  \<^item> \<open>Prelude\<close>: JavaScript numbers as reals with non-finite results as \<open>None\<close>
    (\<open>fdiv\<close>), 3-vectors, typed-array reads and writes (\<open>ta_get\<close>, \<open>ta_set\<close>),
    \<open>THREE.Color.setHSL\<close> (\<open>set_hsl\<close>), \<open>Math.atan2\<close>, the loop combinators
    \<open>fold_opt\<close> (a loop whose body may produce a non-finite value) and \<open>strided\<close>
    (\<open>for (i = a; i < m; i += k)\<close>, a \<open>function\<close> with a measure, and its closed form).
  \<^item> \<open>BeatDetector\<close>: \<open>detectBeat\<close> (audio-engine.js 219-238) as a step on
    \<open>(lastBeatTime, currentBeat)\<close>, \<open>beat_run\<close> over timed frames, and the detector of
    the specification (\<open>spec_detect\<close>) with the abstraction \<open>beat_abs\<close>; C21-C23 and the
    refinement C39.
  \<^item> \<open>Interfaces\<close>: the records the visualizer receives, \<open>audio_data\<close> and
    \<open>gesture_commands\<close>.
  \<^item> \<open>AudioEngine\<close>: the engine record, context and analyser creation, band extraction,
    \<open>getFrequencyData\<close>, file loading, the microphone toggle split into the call and the
    completion of \<open>getUserMedia\<close>, and the engine as a state machine \<open>engine_step\<close>
    with reachability \<open>engine_reachable\<close> and invariant \<open>engine_inv\<close>; C11, C12, C14-C16.
  \<^item> \<open>GestureController\<close>: landmarks to gestures, the five-entry smoothing, the commands,
    start and stop with their timers, as the state machine \<open>gctl_step\<close>; C17-C20
    (C19: from any reachable running state a restart acts on the history kept by
    \<open>stop\<close>).  The
    drawing of the landmarks on the webcam canvas (\<open>drawHandLandmarks\<close>) as canvas
    commands: it completes exactly when recognition does not throw, and it stays on the
    canvas for landmarks inside the video frame.
  \<^item> \<open>Particles\<close>: the visualizer's state \<open>vis\<close> (one field per property of the
    class), \<open>createParticleSystem\<close>, the generic \<open>updateParticles\<close> and
    \<open>updateParticleColors\<close>, the invariant \<open>field_ok\<close> (buffer lengths), and
    \<open>flat3\<close>, the layout of the drawn \<open>position\<close> attribute (three floats per
    particle), with the lemma that the shared loop rewrites all of it.
  \<^item> \<open>Modes\<close>: the five per-mode particle rules and the mode switch \<open>mode_update\<close>;
    C1, C2, and the equivalence of the Neural pair loops with a reference list, C38.
  \<^item> \<open>GestureGate\<close>: \<open>processGestureCommands\<close>, \<open>triggerPulse\<close> and the
    \<open>decayPulse\<close> callback chain, as bounded callbacks (\<open>pulse_callbacks\<close>) and as the
    loop \<open>decay_chain\<close>, a \<open>partial_function (option)\<close> whose termination is C36;
    C37, the exact number of decays of a pulse for every trigger level (the least
    \<open>n\<close> with \<open>(x + 1.5) * 0.85 ^ (n + 1) \<le> 0.1\<close>).
  \<^item> \<open>Camera\<close>, \<open>Symmetry\<close>: \<open>updateCameraShake\<close>, \<open>updateCamera\<close>,
    \<open>applyRadialSymmetry\<close>.
  \<^item> \<open>Visualizer\<close>: the frame \<open>update\<close> composed from the stages, and the viewer as a
    state machine \<open>viewer_step\<close> whose events are frames, pending \<open>decayPulse\<close>
    callbacks (\<open>requestAnimationFrame\<close>), mode changes, toggles, start and stop;
    \<open>reachable\<close> is its reachability relation; C3-C5 (C4: every non-frozen frame
    outside Minimal leaves the drawn buffer equal to the new positions).
  \<^item> \<open>PresetManager\<close>: presets, shortcuts, \<open>applyPreset\<close> with the eased transition as
    a pending \<open>animate\<close> callback, the clock an argument of the events (\<open>pm_step\<close>,
    \<open>pm_reachable\<close>); C6-C9.
  \<^item> \<open>Recorder\<close>: the recorder record, \<open>startRecording\<close> with each of its failure paths,
    \<open>stopRecording\<close>, the \<open>dataavailable\<close> and \<open>stop\<close> events of the current and of
    stopped recorders, the timer text, the three-minute timeouts as pending due times,
    downloads as lists of chunk sizes, \<open>exportPreset\<close>; the \<open>await\<close> of
    \<open>resume()\<close> on a suspended context as a pending continuation (\<open>resumeWaiters\<close>,
    \<open>start_continue\<close>), with the recorders and intervals a second start orphans; the
    state machine \<open>rec_step\<close> and its invariant \<open>rec_inv\<close>; C25-C29 (C29 is the round
    trip of the timer text through a reader of \<open>m:ss\<close>) and C31, the double start.
  \<^item> \<open>FeatureVector\<close>: the frame the engine hands to the visualizer as a type, the
    reals in \<open>[0, 1]\<close> as a \<open>typedef\<close> (\<open>unit_real\<close>) and a record of the six band
    energies, average, beat flag and intensity; C30, that every frame of a reachable engine
    is such a value.
  \<^item> \<open>DevServer\<close>: the request handler \<open>serve\<close> of server.js over a file system
    (\<open>fsys\<close>, a map from paths to files and directories) with path resolution by
    component (\<open>walk\<close>, \<open>readFile\<close>) and \<open>path.extname\<close>, and the process life
    cycle \<open>srv_step\<close>; C10, that a target with \<open>..\<close> components reads any file of
    the machine, and C24, that a query string makes an existing file 404.
  \<^item> \<open>Overlays\<close>: the notifications, the highlighted preset button, the recording
    indicator, the share dialog, the performance-mode indicator, and the gesture
    controller's webcam preview and status line over a model of the
    page (nodes in document order with identities, ids and owners; \<open>getElementById\<close> as
    the first match; listeners per node; \<open>setTimeout\<close> callbacks as pending timers),
    composed in the step function \<open>ov_step\<close>, with the recording and screenshot
    downloads (object URLs revoked by a timer); C13, that a second share dialog's buttons
    are dead, and C34, that every run keeps the notification and style-sheet ids unique,
    at most one preset button active, and a revoke timer pending for every live object
    URL.
  \<^item> \<open>PerformanceMode\<close>: the page as element displays and selector matches,
    \<open>hideUI\<close>/\<open>showUI\<close>, \<open>enter\<close>/\<open>exit\<close>/\<open>toggle\<close>, the frame-time test as a
    pending timeout, and the state machine \<open>perf_step\<close>; C32, C33.
  \<^item> This theory: the recorder and performance mode on one page (\<open>studio_step\<close>),
    where the recorder writes the display of its indicator and performance mode hides and
    restores it, C35; and one frame's gesture and particle stages fed by a reachable
    engine and a reachable gesture controller, C40.

  \<^bold>\<open>Conventions.\<close>  Each operation is a HOL function of the state returning the new
  state; an operation that can produce \<open>NaN\<close> or \<open>Infinity\<close> returns an option and
  \<open>None\<close> is that outcome; an operation that throws returns the error in a sum type or,
  where a \<open>catch\<close> swallows it, the state the \<open>catch\<close> leaves.  Randomness
  (\<open>Math.random\<close>) is an argument \<open>rnd :: nat \<Rightarrow> real\<close> giving the draws in order; the
  clock is an argument of the events.  A callback scheduled with
  \<open>requestAnimationFrame\<close>, \<open>setTimeout\<close> or \<open>setInterval\<close>, and the completion of a
  promise, is a pending event of the component's state machine, so that every
  interleaving the browser allows is a run of it.

  \<^bold>\<open>Bounds and fuel.\<close>  The only loop that is not structural is the \<open>decayPulse\<close>
  chain; \<open>decay_chain\<close> is a \<open>partial_function\<close>, and C36 proves that it returns for
  every state, so no fuel is needed.  \<open>pulse_callbacks n\<close> runs at most \<open>n\<close> callbacks;
  \<open>pulse_callbacks_clear\<close> gives the \<open>n\<close> that suffices.  \<open>strided\<close> terminates by the
  measure \<open>m - a\<close>.

  \<^bold>\<open>Not modelled.\<close>  Rendering with three.js, the Web Audio graph beyond the
  analyser, MediaPipe, \<open>MediaRecorder\<close> encoding, the pixels the canvas commands
  produce, and the literal markup and CSS of the overlays: they only call
  libraries or move bytes, and no property of the program's own logic depends on them.  The full-screen request is taken as granted
  when the API exists.  The development server's file system does not change while a
  request is served, symbolic links are not modelled, and its start-up banner is one
  console line.
\<close>

section \<open>Recording during performance mode\<close>

text \<open>The recorder and performance mode act on the same page: the recorder writes the
  display of its indicator (\<open>'flex'\<close> on a successful \<open>startRecording\<close>, recorder.js
  line 191, \<open>'none'\<close> in \<open>stopRecording\<close>, line 236), and \<open>'#recording-indicator'\<close> is
  one of the selectors performance mode hides and restores.  The recorder writes exactly
  when its \<open>indicatorShown\<close> changes.\<close>

record studio =
  perfS :: perf_sys
  recS :: recorder

datatype studio_event = PerfE perf_event | RecE rec_event

definition indicator_write :: "recorder \<Rightarrow> recorder \<Rightarrow> page \<Rightarrow> page" where
  "indicator_write r r' g =
     (if indicatorShown r' = indicatorShown r then g
      else g\<lparr>display := fold (\<lambda>el d. d(el := if indicatorShown r' then ''flex'' else ''none''))
                              (matches g ''#recording-indicator'') (display g)\<rparr>)"

definition studio_step :: "engine \<Rightarrow> studio \<Rightarrow> studio_event \<Rightarrow> studio option" where
  "studio_step e s ev =
     (case ev of
        PerfE pe \<Rightarrow> map_option (\<lambda>p. s\<lparr>perfS := p\<rparr>) (perf_step (perfS s) pe)
      | RecE re \<Rightarrow>
          map_option (\<lambda>r'. \<lparr>perfS = (perfS s)\<lparr>pg := indicator_write (recS s) r' (pg (perfS s))\<rparr>, recS = r'\<rparr>)
            (rec_step e (recS s) re))"

fun studio_run :: "engine \<Rightarrow> studio \<Rightarrow> studio_event list \<Rightarrow> studio option" where
  "studio_run e s [] = Some s"
| "studio_run e s (ev # evs) = (case studio_step e s ev of None \<Rightarrow> None | Some s' \<Rightarrow> studio_run e s' evs)"

text \<open>C35: stopping a recording while performance mode is on, then leaving performance
  mode, shows the recording indicator again although nothing is recorded: the exit
  restores the display the indicator had when the UI was hidden.\<close>

theorem exit_shows_stale_indicator:
  assumes "recorder_ready e (new_recorder True sts)" "matches g ''#recording-indicator'' = [k]"
  shows "\<exists>s. studio_run e \<lparr>perfS = \<lparr>pf = new_perf, pg = g, viz = v\<rparr>, recS = new_recorder True sts\<rparr>
              [RecE (StartRec 0 1 1 2), PerfE (ToggleEv 1), RecE StopRec, PerfE (ToggleEv 2)] = Some s
           \<and> \<not> isRecording (recS s) \<and> display (pg (perfS s)) k = ''flex''"
proof -
  define g1 where "g1 = g\<lparr>display := (display g)(k := ''flex'')\<rparr>"
  obtain hs d where hd: "hideUI g1 = (hs, d)" by fastforce
  have restored: "showUI hs d = display g1" using show_hide_roundtrip[of g1] hd by simp
  have "d k = ''none''"
    using hideUI_hides[of "''#recording-indicator''" k g1] hd assms(2) by (simp add: g1_def uiSelectors_def)
  then have dk: "d(k := ''none'') = d" by auto
  have m1: "matches g1 ''#recording-indicator'' = [k]" "display g1 k = ''flex''"
    using assms(2) by (simp_all add: g1_def)
  show ?thesis
    using assms(1)
  proof (rule recorder_readyE)
    fix ctx an assume "audioContext e = Some ctx" "ctxState ctx = Running" "analyser e = Some an"
      "select_mime sts ''video/webm;codecs=vp9'' \<in> set sts"
    then show ?thesis
      using assms(2) m1 hd restored dk
      by (simp add: studio_step_def indicator_write_def perf_step_def toggle_def enter_def exit_def
          restoreOptimizations_def applyOptimizations_def new_perf_def rec_eval g1_def[symmetric]
          split: prod.splits)
  qed
qed

theorem exit_shows_stale_indicator_witness:
  "\<exists>s. studio_run (new_engine True Running 48000)
         \<lparr>perfS = \<lparr>pf = new_perf, pg = demo_page, viz = vis_fields\<rparr>, recS = new_recorder True [''video/webm'']\<rparr>
         [RecE (StartRec 0 1 1 2), PerfE (ToggleEv 1), RecE StopRec, PerfE (ToggleEv 2)] = Some s
      \<and> \<not> isRecording (recS s) \<and> display (pg (perfS s)) 5 = ''flex''"
  by (rule exit_shows_stale_indicator)
     (simp_all add: recorder_ready_def new_engine_def initAudioContext_def new_recorder_def
        select_mime_def mimeTypes_def demo_page_def Let_def)

section \<open>One frame from the engine and the gesture controller\<close>

text \<open>C40: the components compose safely: the audio frame that \<open>getFrequencyData\<close>
  returns in any reachable engine state, and the commands of any reachable gesture
  controller, passed through the gesture stage and the particle stage of a frame, give a
  finite particle field in the Cosmic, Pulse, Chaos and Minimal modes, frozen or not.\<close>

theorem engine_gestures_frame_finite:
  assumes "engine_reachable e" "getFrequencyData spectrum now e = Some (a, e')"
    and "gctl_reachable g" "field_ok s" "visualMode s \<in> {Cosmic, PulseMode, Chaos, Minimal}"
  shows "\<exists>t. particle_stage a rnd (fst (gesture_stage (Some (commands g)) a s)) = Some t"
proof -
  let ?s = "fst (processGestureCommands (commands g) (beat a) (beatIntensity a) s)"
  have fd: "0 < length (frequencyData a)"
    using getFrequencyData_inv [OF engine_reachable_inv [OF assms(1)], of spectrum now] assms(2) by auto
  have pal: "currentPalette ?s < 3"
    using processGestureCommands_frame gctl_reachable_inv [OF assms(3)] by (simp add: gctl_inv_def)
  have ok: "field_ok ?s"
    using assms(4) processGestureCommands_frame [of "commands g" "beat a" "beatIntensity a" s]
    by (simp add: field_ok_def)
  have "visualMode ?s = visualMode s"
    by (simp add: processGestureCommands_def triggerPulse_def decayPulse_def Let_def)
  then have mode: "visualMode ?s \<in> {Cosmic, PulseMode, Chaos, Minimal}" using assms(5) by simp
  show ?thesis
  proof (cases "isFrozen ?s")
    case True
    then show ?thesis using updateParticleColors_Some [OF pal fd]
      by (simp add: particle_stage_def gesture_stage_def)
  next
    case False
    then show ?thesis using mode_update_Some [OF ok pal fd mode]
      by (simp add: particle_stage_def gesture_stage_def)
  qed
qed

theorem engine_gestures_frame_finite_witness:
  "\<exists>a e' t. getFrequencyData [255] 1000 (new_engine True Running 48000) = Some (a, e') \<and>
     particle_stage a (\<lambda>_. 0.5) (fst (gesture_stage (Some (commands new_gctl)) a (new_visualizer (\<lambda>_. 0.5)))) = Some t"
proof -
  obtain a e' where fr: "getFrequencyData [255] 1000 (new_engine True Running 48000) = Some (a, e')"
    using getFrequencyData_inv [OF engine_reachable_inv [OF new_engine_reachable]] by blast
  have "field_ok (new_visualizer (\<lambda>_. 0.5))"
    unfolding new_visualizer_def by (rule createParticleSystem_field_ok) (simp_all add: vis_fields_def)
  moreover have "visualMode (new_visualizer (\<lambda>_. 0.5)) \<in> {Cosmic, PulseMode, Chaos, Minimal}"
    by (simp add: new_visualizer_def createParticleSystem_def vis_fields_def Let_def)
  ultimately show ?thesis
    using engine_gestures_frame_finite [OF new_engine_reachable fr gctl_reachable.init] fr by blast
qed

end
